(* ===== verification/Prelude.thy ===== *)
theory Prelude
  imports Main "HOL-Library.Sublist" "HOL-Library.Char_ord" "HOL-Library.List_Lexorder"
begin

text \<open>
  Shared vocabulary of the development: the theorem collections the component theories
  fill and use, the types that stand for Go values (slices that distinguish nil from
  empty, a call that may panic), and generic lemmas on lists and options.

  Go strings are byte sequences, so they are modelled by \<^typ>\<open>string\<close> (a list of bytes);
  the order on them is the bytewise lexicographic order, as in Go.
\<close>

section \<open>Theorem collections\<close>

named_theorems go_string \<open>laws of the functions of package strings\<close>
named_theorems go_path \<open>laws of the functions of package path/filepath\<close>
named_theorems go_error \<open>laws of error values\<close>
named_theorems go_fs \<open>laws of the file system model\<close>
named_theorems kep_defs \<open>small definitions of the program that proofs unfold\<close>


section \<open>Go values\<close>

text \<open>
  A slice that may be nil: \<^term>\<open>None\<close> is the nil slice and \<^term>\<open>Some []\<close> the empty one.
  \<open>elems\<close> is what ranging over the slice visits, and \<open>go_append\<close> is the built-in
  append, which leaves a nil slice nil when nothing is appended.
\<close>

type_synonym 'a slice = "'a list option"

definition elems :: "'a slice \<Rightarrow> 'a list" where
  "elems s = (case s of None \<Rightarrow> [] | Some xs \<Rightarrow> xs)"

definition go_append :: "'a slice \<Rightarrow> 'a list \<Rightarrow> 'a slice" where
  "go_append s ys = (if ys = [] then s else Some (elems s @ ys))"

lemma elems_simps [simp]: "elems None = []" "elems (Some xs) = xs"
  by (simp_all add: elems_def)

lemma elems_go_append [simp]: "elems (go_append s ys) = elems s @ ys"
  by (simp add: go_append_def)

text \<open>A call that either returns or panics (a nil dereference).\<close>

datatype 'a outcome = Ret 'a | Panic

primrec returns :: "'a outcome \<Rightarrow> bool" where
  "returns (Ret a) = True"
| "returns Panic = False"


section \<open>Lists\<close>

text \<open>
  The loop \<open>for _, x := range xs { if p(x) { return true } }; return false\<close> is
  \<^const>\<open>list_ex\<close>, and appending what each element contributes is \<^const>\<open>concat\<close>
  after \<^const>\<open>map\<close>.
\<close>

lemma concat_map_filter_singleton:
  "concat (map (\<lambda>x. if p x then [f x] else []) xs) = map f (filter p xs)"
  by (induction xs) auto

lemma concat_map_eq_Nil_iff: "concat (map f xs) = [] \<longleftrightarrow> (\<forall>x\<in>set xs. f x = [])"
  by (induction xs) auto

lemma filter_eq_Nil_iff: "filter p xs = [] \<longleftrightarrow> (\<forall>x\<in>set xs. \<not> p x)"
  by (induction xs) auto

lemma set_takeWhile_subset: "x \<in> set (takeWhile p xs) \<Longrightarrow> x \<in> set xs"
  by (induction xs) (auto split: if_splits)

lemma prefix_drop_append:
  "prefix p s \<Longrightarrow> p @ drop (length p) s = s"
  by (auto simp: prefix_def)

lemma find_Some_in_set: "find p xs = Some x \<Longrightarrow> x \<in> set xs \<and> p x"
  by (induction xs) (auto split: if_splits)

lemma list_all_ends: "list_all P s \<Longrightarrow> s \<noteq> [] \<Longrightarrow> P (hd s) \<and> P (last s)"
  by (auto simp: list_all_iff)


lemma until_first:
  assumes "c \<notin> set a"
  shows "takeWhile (\<lambda>x. x \<noteq> c) (a @ c # ys) = a" and "dropWhile (\<lambda>x. x \<noteq> c) (a @ c # ys) = c # ys"
  using assms by (induction a) auto


lemma sort_eq_Nil_iff: "sort xs = [] \<longleftrightarrow> xs = []"
  by (metis length_0_conv length_sort)

lemma rev_eq_swap: "rev xs = ys \<longleftrightarrow> xs = rev ys"
  by auto


section \<open>The interface of a membership test\<close>

text \<open>
  Several functions of the program search a list of strings linearly, some of them for the
  normalised form of its elements. Their contract is membership of the key of an element;
  a client may then ignore order, repetition and the loop.
\<close>

locale string_search =
  fixes contains :: "string list \<Rightarrow> string \<Rightarrow> bool"
    and key :: "string \<Rightarrow> string"
  assumes contains_iff: "contains xs x \<longleftrightarrow> x \<in> key ` set xs"
begin

lemma contains_Nil: "\<not> contains [] x"
  by (simp add: contains_iff)

lemma contains_append: "contains (xs @ ys) x \<longleftrightarrow> contains xs x \<or> contains ys x"
  by (auto simp: contains_iff)

lemma contains_mono: "set xs \<subseteq> set ys \<Longrightarrow> contains xs x \<Longrightarrow> contains ys x"
  by (auto simp: contains_iff)

lemma contains_cong: "set xs = set ys \<Longrightarrow> contains xs = contains ys"
  by (auto simp: contains_iff fun_eq_iff)

lemma filter_not_contains_Nil:
  "filter (\<lambda>x. \<not> contains xs (g x)) ys = [] \<longleftrightarrow> g ` set ys \<subseteq> key ` set xs"
  by (auto simp: filter_eq_Nil_iff contains_iff)

end

end
