(* ===== verification/GoStrings.thy ===== *)
theory GoStrings
  imports Prelude
begin

text \<open>
  The functions of the packages strings, strconv and sort that the program calls, on byte
  strings. \<open>TrimSpace\<close> removes every white-space rune of Unicode in its UTF-8 encoding,
  as the Go function does; \<open>ToLower\<close> is exact on ASCII strings and takes the
  mapping of the Unicode tables, used for any other string, as an argument.
\<close>

section \<open>Prefixes, suffixes, substrings\<close>

definition HasPrefix :: "string \<Rightarrow> string \<Rightarrow> bool" where
  "HasPrefix s p \<longleftrightarrow> prefix p s"

definition HasSuffix :: "string \<Rightarrow> string \<Rightarrow> bool" where
  "HasSuffix s p \<longleftrightarrow> suffix p s"

definition TrimPrefix :: "string \<Rightarrow> string \<Rightarrow> string" where
  "TrimPrefix s p = (if HasPrefix s p then drop (length p) s else s)"

definition Contains :: "string \<Rightarrow> string \<Rightarrow> bool" where
  "Contains s sub \<longleftrightarrow> sublist sub s"

lemma TrimPrefix_append [simp]: "TrimPrefix (p @ s) p = s"
  by (simp add: TrimPrefix_def HasPrefix_def)

lemma TrimPrefix_Cons [simp]: "TrimPrefix (c # s) [c] = s"
  by (simp add: TrimPrefix_def HasPrefix_def)

lemma TrimPrefix_no_prefix: "\<not> prefix p s \<Longrightarrow> TrimPrefix s p = s"
  by (simp add: TrimPrefix_def HasPrefix_def)

lemma TrimPrefix_eq_self_iff: "TrimPrefix s p = s \<longleftrightarrow> p = [] \<or> \<not> prefix p s"
  by (auto simp: TrimPrefix_def HasPrefix_def prefix_def)

section \<open>Splitting and joining\<close>

text \<open>\<open>strings.Split\<close> with a separator of one byte.\<close>

fun Split :: "char \<Rightarrow> string \<Rightarrow> string list" where
  "Split c [] = [[]]"
| "Split c (x # xs) =
     (if x = c then [] # Split c xs
      else (case Split c xs of [] \<Rightarrow> [[x]] | y # ys \<Rightarrow> (x # y) # ys))"

text \<open>\<open>strings.SplitN\<close> with a positive limit: the last piece keeps the rest.\<close>

fun SplitN :: "nat \<Rightarrow> char \<Rightarrow> string \<Rightarrow> string list" where
  "SplitN 0 c s = []"
| "SplitN (Suc 0) c s = [s]"
| "SplitN (Suc (Suc n)) c s =
     (if c \<in> set s
      then takeWhile (\<lambda>x. x \<noteq> c) s # SplitN (Suc n) c (tl (dropWhile (\<lambda>x. x \<noteq> c) s))
      else [s])"

fun Join :: "string list \<Rightarrow> string \<Rightarrow> string" where
  "Join [] sep = []"
| "Join [s] sep = s"
| "Join (s # t # ss) sep = s @ sep @ Join (t # ss) sep"

text \<open>\<open>strings.Replace(s, old, new, 1)\<close> for an old string of one byte.\<close>

fun Replace1 :: "string \<Rightarrow> char \<Rightarrow> char \<Rightarrow> string" where
  "Replace1 [] a b = []"
| "Replace1 (x # xs) a b = (if x = a then b # xs else x # Replace1 xs a b)"

lemma Split_neq_Nil [simp]: "Split c s \<noteq> []"
  by (induction s) (auto split: list.splits)

lemma Split_no_sep: "c \<notin> set s \<Longrightarrow> Split c s = [s]"
  by (induction s) auto

lemma Split_append_sep: "c \<notin> set a \<Longrightarrow> Split c (a @ c # b) = a # Split c b"
  by (induction a) auto

lemma Split_pieces: "w \<in> set (Split c s) \<Longrightarrow> c \<notin> set w"
proof (induction s arbitrary: w)
  case (Cons x xs)
  then show ?case by (cases "Split c xs") (auto split: if_splits)
qed simp

lemma Join_Split: "Join (Split c s) [c] = s"
proof (induction s)
  case (Cons x xs)
  show ?case
  proof (cases "Split c xs")
    case (Cons y ys)
    then show ?thesis using Cons.IH by (cases ys) auto
  qed simp
qed simp

lemma Join_Cons_neq: "ss \<noteq> [] \<Longrightarrow> Join (s # ss) sep = s @ sep @ Join ss sep"
  by (cases ss) auto

lemma Split_Join:
  "ss \<noteq> [] \<Longrightarrow> \<forall>s\<in>set ss. c \<notin> set s \<Longrightarrow> Split c (Join ss [c]) = ss"
proof (induction ss)
  case (Cons s ss)
  then show ?case by (cases ss) (auto simp: Split_no_sep Split_append_sep)
qed simp

lemma SplitN_3:
  assumes "c \<notin> set a" and "c \<notin> set b"
  shows "SplitN 3 c (a @ c # b) = [a, b]" and "SplitN 3 c (a @ c # b @ c # r) = [a, b, r]"
proof -
  have "SplitN 3 c s = (if c \<in> set s
      then takeWhile (\<lambda>x. x \<noteq> c) s # SplitN 2 c (tl (dropWhile (\<lambda>x. x \<noteq> c) s)) else [s])" for s
    by (simp add: numeral_eq_Suc)
  moreover have "SplitN 2 c s = (if c \<in> set s
      then [takeWhile (\<lambda>x. x \<noteq> c) s, tl (dropWhile (\<lambda>x. x \<noteq> c) s)] else [s])" for s
    by (simp add: numeral_eq_Suc)
  ultimately show "SplitN 3 c (a @ c # b) = [a, b]" and "SplitN 3 c (a @ c # b @ c # r) = [a, b, r]"
    using assms by (simp_all add: until_first)
qed


section \<open>White space\<close>

text \<open>The UTF-8 encodings of the runes for which \<open>unicode.IsSpace\<close> holds.\<close>

definition space_runes :: "string list" where
  "space_runes =
     [[CHR 0x20], [CHR 0x0A], [CHR 0x09], [CHR 0x0D], [CHR 0x0B], [CHR 0x0C],
      [CHR 0xC2, CHR 0x85], [CHR 0xC2, CHR 0xA0], [CHR 0xE1, CHR 0x9A, CHR 0x80],
      [CHR 0xE2, CHR 0x80, CHR 0x80], [CHR 0xE2, CHR 0x80, CHR 0x81],
      [CHR 0xE2, CHR 0x80, CHR 0x82], [CHR 0xE2, CHR 0x80, CHR 0x83],
      [CHR 0xE2, CHR 0x80, CHR 0x84], [CHR 0xE2, CHR 0x80, CHR 0x85],
      [CHR 0xE2, CHR 0x80, CHR 0x86], [CHR 0xE2, CHR 0x80, CHR 0x87],
      [CHR 0xE2, CHR 0x80, CHR 0x88], [CHR 0xE2, CHR 0x80, CHR 0x89],
      [CHR 0xE2, CHR 0x80, CHR 0x8A], [CHR 0xE2, CHR 0x80, CHR 0xA8],
      [CHR 0xE2, CHR 0x80, CHR 0xA9], [CHR 0xE2, CHR 0x80, CHR 0xAF],
      [CHR 0xE2, CHR 0x81, CHR 0x9F], [CHR 0xE3, CHR 0x80, CHR 0x80]]"

lemma space_runes_nonempty: "r \<in> set space_runes \<Longrightarrow> r \<noteq> []"
  by (auto simp: space_runes_def)

text \<open>Removing the pieces of a set from the front of a string, longest run.\<close>

function trim_front :: "string list \<Rightarrow> string \<Rightarrow> string" where
  "trim_front rs s =
     (case find (\<lambda>r. r \<noteq> [] \<and> prefix r s) rs of
        None \<Rightarrow> s
      | Some r \<Rightarrow> trim_front rs (drop (length r) s))"
  by pat_completeness auto
termination
  by (relation "measure (length \<circ> snd)")
     (auto dest!: find_Some_in_set prefix_length_le simp flip: length_greater_0_conv)

declare trim_front.simps [simp del]

lemma trim_front_stop: "find (\<lambda>r. r \<noteq> [] \<and> prefix r s) rs = None \<Longrightarrow> trim_front rs s = s"
  by (subst trim_front.simps) simp

lemma trim_front_step:
  "find (\<lambda>r. r \<noteq> [] \<and> prefix r s) rs = Some r \<Longrightarrow>
   trim_front rs s = trim_front rs (drop (length r) s)"
  by (subst trim_front.simps) simp

lemma trim_front_done: "find (\<lambda>r. r \<noteq> [] \<and> prefix r (trim_front rs s)) rs = None"
proof (induction rs s rule: trim_front.induct)
  case (1 rs s)
  show ?case
  proof (cases "find (\<lambda>r. r \<noteq> [] \<and> prefix r s) rs")
    case None
    then show ?thesis by (simp add: trim_front_stop)
  next
    case (Some r)
    with 1 show ?thesis by (simp add: trim_front_step)
  qed
qed

lemma trim_front_idem: "trim_front rs (trim_front rs s) = trim_front rs s"
  by (rule trim_front_stop [OF trim_front_done])

lemma trim_front_suffix: "suffix (trim_front rs s) s"
proof (induction rs s rule: trim_front.induct)
  case (1 rs s)
  show ?case
  proof (cases "find (\<lambda>r. r \<noteq> [] \<and> prefix r s) rs")
    case None
    then show ?thesis by (simp add: trim_front_stop)
  next
    case (Some r)
    then show ?thesis
      using "1.IH" [OF Some] suffix_drop suffix_order.order_trans
      by (simp add: trim_front_step) blast
  qed
qed

definition TrimSpace :: "string \<Rightarrow> string" where
  "TrimSpace s =
     rev (trim_front (map rev space_runes) (rev (trim_front space_runes s)))"

text \<open>\<open>strings.Trim\<close> with a cutset of ASCII bytes.\<close>

definition Trim :: "string \<Rightarrow> string \<Rightarrow> string" where
  "Trim s cutset =
     rev (dropWhile (\<lambda>c. c \<in> set cutset) (rev (dropWhile (\<lambda>c. c \<in> set cutset) s)))"

lemma Trim_ends: "s \<noteq> [] \<Longrightarrow> hd s \<notin> set cs \<Longrightarrow> last s \<notin> set cs \<Longrightarrow> Trim s cs = s"
proof -
  assume s: "s \<noteq> []" "hd s \<notin> set cs" "last s \<notin> set cs"
  then have "dropWhile (\<lambda>c. c \<in> set cs) s = s" by (cases s) auto
  moreover have "dropWhile (\<lambda>c. c \<in> set cs) (rev s) = rev s"
    using s by (cases s rule: rev_cases) auto
  ultimately show ?thesis by (simp add: Trim_def)
qed


text \<open>Bytes that are neither white space nor part of the encoding of a white-space rune.\<close>

definition graphic :: "char \<Rightarrow> bool" where
  "graphic c \<longleftrightarrow> (of_char c :: nat) \<in> {33..126}"

lemma space_runes_ends_not_graphic:
  "r \<in> set space_runes \<Longrightarrow> \<not> graphic (hd r) \<and> \<not> graphic (last r)"
  by (auto simp: space_runes_def graphic_def)

lemma find_prefix_None:
  "(\<forall>r\<in>set rs. r \<noteq> [] \<longrightarrow> \<not> prefix r s) \<Longrightarrow> find (\<lambda>r. r \<noteq> [] \<and> prefix r s) rs = None"
  by (auto simp: find_None_iff)

lemma trim_front_graphic:
  assumes "s \<noteq> [] \<longrightarrow> graphic (hd s)" and "\<forall>r\<in>set rs. r \<noteq> [] \<longrightarrow> \<not> graphic (hd r)"
  shows "trim_front rs s = s"
proof (rule trim_front_stop, rule find_prefix_None, intro ballI impI)
  fix r assume "r \<in> set rs" "r \<noteq> []"
  then show "\<not> prefix r s"
    using assms by (auto simp: prefix_def)
qed

lemma rev_space_runes_not_graphic: "r \<in> set (map rev space_runes) \<Longrightarrow> \<not> graphic (hd r)"
  using space_runes_ends_not_graphic space_runes_nonempty by (auto simp: hd_rev)

lemma TrimSpace_graphic:
  assumes "s \<noteq> [] \<longrightarrow> graphic (hd s) \<and> graphic (last s)"
  shows "TrimSpace s = s"
proof -
  have "trim_front space_runes s = s"
    using assms space_runes_ends_not_graphic by (intro trim_front_graphic) auto
  moreover have "trim_front (map rev space_runes) (rev s) = rev s"
    using assms rev_space_runes_not_graphic by (intro trim_front_graphic) (auto simp: hd_rev)
  ultimately show ?thesis by (simp add: TrimSpace_def)
qed

lemma TrimSpace_Nil [simp]: "TrimSpace [] = []"
  by (rule TrimSpace_graphic) simp

lemma find_prefix_None_iff:
  "find (\<lambda>r. r \<noteq> [] \<and> prefix r s) rs = None \<longleftrightarrow> (\<forall>r\<in>set rs. r \<noteq> [] \<longrightarrow> \<not> prefix r s)"
  by (auto simp: find_None_iff)

lemma TrimSpace_idem: "TrimSpace (TrimSpace s) = TrimSpace s"
proof -
  let ?f = "trim_front space_runes" and ?b = "trim_front (map rev space_runes)"
  define t where "t = ?f s"
  define u where "u = ?b (rev t)"
  have t: "\<forall>r\<in>set space_runes. r \<noteq> [] \<longrightarrow> \<not> prefix r t"
    using trim_front_done [of space_runes s] by (simp add: t_def find_prefix_None_iff)
  have "suffix u (rev t)" by (simp add: u_def trim_front_suffix)
  then have "prefix (rev u) t" by (auto simp: suffix_def prefix_def rev_eq_swap)
  with t have "?f (rev u) = rev u"
    by (intro trim_front_stop find_prefix_None) (meson prefix_order.order_trans)
  moreover have "?b u = u" by (simp add: u_def trim_front_idem)
  ultimately show ?thesis by (simp add: TrimSpace_def u_def t_def)
qed

lemma trim_front_space: "trim_front space_runes (CHR '' '' # s) = trim_front space_runes s"
proof -
  have "find (\<lambda>r. r \<noteq> [] \<and> prefix r (CHR '' '' # s)) space_runes = Some '' ''"
    by (simp add: space_runes_def)
  then show ?thesis by (simp add: trim_front_step)
qed

lemma trim_back_space:
  "trim_front (map rev space_runes) (CHR '' '' # s) = trim_front (map rev space_runes) s"
proof -
  have "find (\<lambda>r. r \<noteq> [] \<and> prefix r (CHR '' '' # s)) (map rev space_runes) = Some '' ''"
    by (simp add: space_runes_def)
  then show ?thesis by (simp add: trim_front_step)
qed

lemma trim_front_spaces: "trim_front space_runes (replicate n CHR '' '' @ s) = trim_front space_runes s"
  by (induction n) (simp_all add: trim_front_space)

lemma trim_back_spaces:
  "trim_front (map rev space_runes) (replicate n CHR '' '' @ s) = trim_front (map rev space_runes) s"
  by (induction n) (simp_all add: trim_back_space)

lemma TrimSpace_padded:
  assumes "s \<noteq> []" and "graphic (hd s)" and "graphic (last s)"
  shows "TrimSpace (replicate m CHR '' '' @ s @ replicate n CHR '' '') = s"
proof -
  have f: "trim_front space_runes (s @ replicate n CHR '' '') = s @ replicate n CHR '' ''"
    using assms space_runes_ends_not_graphic by (intro trim_front_graphic) auto
  have b: "trim_front (map rev space_runes) (rev s) = rev s"
    using assms rev_space_runes_not_graphic by (intro trim_front_graphic) (auto simp: hd_rev)
  show ?thesis by (simp add: TrimSpace_def trim_front_spaces f trim_back_spaces b)
qed

section \<open>Case\<close>

definition ascii :: "char \<Rightarrow> bool" where
  "ascii c \<longleftrightarrow> (of_char c :: nat) < 128"

definition lower_char :: "char \<Rightarrow> char" where
  "lower_char c =
     (if (of_char c :: nat) \<in> {65..90} then char_of ((of_char c :: nat) + 32) else c)"

definition ToLower :: "(string \<Rightarrow> string) \<Rightarrow> string \<Rightarrow> string" where
  "ToLower uni s = (if list_all ascii s then map lower_char s else uni s)"

lemma of_char_lower_char:
  "(of_char (lower_char c) :: nat) =
     (if (of_char c :: nat) \<in> {65..90} then of_char c + 32 else of_char c)"
  by (simp add: lower_char_def)

lemma lower_char_idem [simp]: "lower_char (lower_char c) = lower_char c"
  by (simp add: lower_char_def)

lemma ascii_lower_char [simp]: "ascii (lower_char c) \<longleftrightarrow> ascii c"
  by (auto simp: ascii_def of_char_lower_char)

lemma ToLower_idem_ascii: "list_all ascii s \<Longrightarrow> ToLower uni (ToLower uni s) = ToLower uni s"
  by (simp add: ToLower_def list.pred_map comp_def)

section \<open>Numbers\<close>

text \<open>
  \<open>strconv.Atoi\<close> on a 64-bit platform: an optional sign, at least one digit, nothing else,
  and a value in the range of \<open>int64\<close>; any other string is an error (\<^term>\<open>None\<close>).
\<close>

definition is_digit :: "char \<Rightarrow> bool" where
  "is_digit c \<longleftrightarrow> (of_char c :: nat) \<in> {48..57}"

definition digit_val :: "char \<Rightarrow> int" where
  "digit_val c = int (of_char c) - 48"

definition digits_val :: "string \<Rightarrow> int" where
  "digits_val ds = foldl (\<lambda>n c. 10 * n + digit_val c) 0 ds"

definition in_int64 :: "int \<Rightarrow> bool" where
  "in_int64 n \<longleftrightarrow> - (2 ^ 63) \<le> n \<and> n < 2 ^ 63"

definition Atoi :: "string \<Rightarrow> int option" where
  "Atoi s =
     (let neg = (s \<noteq> [] \<and> hd s = CHR ''-'');
          ds = (if s \<noteq> [] \<and> (hd s = CHR ''-'' \<or> hd s = CHR ''+'') then tl s else s);
          n = (if neg then - digits_val ds else digits_val ds)
      in if ds \<noteq> [] \<and> list_all is_digit ds \<and> in_int64 n then Some n else None)"

text \<open>Two's complement addition on \<open>int64\<close>.\<close>

definition add64 :: "int \<Rightarrow> int \<Rightarrow> int" where
  "add64 a b = (a + b + 2 ^ 63) mod 2 ^ 64 - 2 ^ 63"

lemma add64_range: "in_int64 (add64 a b)"
  by (simp add: add64_def in_int64_def)

lemma add64_exact: "in_int64 (a + b) \<Longrightarrow> add64 a b = a + b"
  by (simp add: add64_def in_int64_def)

lemma Atoi_range: "Atoi s = Some n \<Longrightarrow> in_int64 n"
  by (auto simp: Atoi_def Let_def split: if_splits)

text \<open>\<open>strconv.Itoa\<close>, also what the verb \<open>%d\<close> prints.\<close>

definition digit_char :: "nat \<Rightarrow> char" where
  "digit_char d = char_of (48 + d)"

function (sequential) nat_digits :: "nat \<Rightarrow> string" where
  "nat_digits n = (if n < 10 then [digit_char n] else nat_digits (n div 10) @ [digit_char (n mod 10)])"
  by pat_completeness auto
termination
  by (relation "measure id") auto

declare nat_digits.simps [simp del]

definition Itoa :: "int \<Rightarrow> string" where
  "Itoa n = (if n < 0 then CHR ''-'' # nat_digits (nat (- n)) else nat_digits (nat n))"

lemma is_digit_digit_char [simp]: "d < 10 \<Longrightarrow> is_digit (digit_char d)"
  by (simp add: is_digit_def digit_char_def)

lemma digit_val_digit_char [simp]: "d < 10 \<Longrightarrow> digit_val (digit_char d) = int d"
  by (simp add: digit_val_def digit_char_def)

lemma digits_val_snoc [simp]: "digits_val (ds @ [c]) = 10 * digits_val ds + digit_val c"
  by (simp add: digits_val_def)

lemma digits_val_single [simp]: "digits_val [c] = digit_val c"
  by (simp add: digits_val_def)

lemma nat_digits_correct:
  "nat_digits n \<noteq> [] \<and> list_all is_digit (nat_digits n) \<and> digits_val (nat_digits n) = int n"
proof (induction n rule: nat_digits.induct)
  case (1 n)
  show ?case
  proof (cases "n < 10")
    case True
    then show ?thesis by (simp add: nat_digits.simps)
  next
    case False
    have "10 * int (n div 10) + int (n mod 10) = int n"
      by (metis mult_div_mod_eq of_nat_add of_nat_mult of_nat_numeral)
    with False 1 show ?thesis by (subst (1 2 3) nat_digits.simps) simp
  qed
qed

lemma nat_digits_is_digit: "c \<in> set (nat_digits n) \<Longrightarrow> is_digit c"
  using nat_digits_correct [of n] by (auto simp: list_all_iff)

lemma is_digit_not_sign: "is_digit c \<Longrightarrow> c \<noteq> CHR ''-'' \<and> c \<noteq> CHR ''+'' \<and> c \<noteq> CHR ''.''"
  by (auto simp: is_digit_def)

lemma is_digit_graphic: "is_digit c \<Longrightarrow> graphic c"
  by (auto simp: is_digit_def graphic_def)

lemma Itoa_nonempty [simp]: "Itoa n \<noteq> []"
  using nat_digits_correct by (auto simp: Itoa_def)

lemma Itoa_chars: "c \<in> set (Itoa n) \<Longrightarrow> is_digit c \<or> c = CHR ''-''"
  by (auto simp: Itoa_def dest: nat_digits_is_digit split: if_splits)

lemma Atoi_Itoa:
  assumes "in_int64 n"
  shows "Atoi (Itoa n) = Some n"
proof (cases "n < 0")
  case True
  then show ?thesis
    using assms nat_digits_correct [of "nat (- n)"] by (simp add: Itoa_def Atoi_def)
next
  case False
  let ?d = "nat_digits (nat n)"
  have d: "?d \<noteq> []" "list_all is_digit ?d" "digits_val ?d = n"
    using nat_digits_correct [of "nat n"] False by auto
  then have "hd ?d \<noteq> CHR ''-''" "hd ?d \<noteq> CHR ''+''"
    using is_digit_not_sign [of "hd ?d"] by (auto simp: list_all_iff)
  with d False assms show ?thesis by (simp add: Itoa_def Atoi_def)
qed

section \<open>Quoting\<close>

text \<open>
  \<open>strconv.Quote\<close>, which the verb \<open>%q\<close> prints: exact on ASCII strings; a string with other
  bytes is quoted by the Unicode tables, taken as an argument.
\<close>

definition hex_digit :: "nat \<Rightarrow> char" where
  "hex_digit d = (if d < 10 then char_of (48 + d) else char_of (87 + d))"

definition quote_char :: "char \<Rightarrow> string" where
  "quote_char c =
     (let n = (of_char c :: nat) in
      if n = 34 \<or> n = 92 then [CHR 0x5C, c]
      else if 32 \<le> n \<and> n \<le> 126 then [c]
      else if n = 7 then [CHR 0x5C, CHR ''a''] else if n = 8 then [CHR 0x5C, CHR ''b'']
      else if n = 12 then [CHR 0x5C, CHR ''f''] else if n = 10 then [CHR 0x5C, CHR ''n'']
      else if n = 13 then [CHR 0x5C, CHR ''r''] else if n = 9 then [CHR 0x5C, CHR ''t'']
      else if n = 11 then [CHR 0x5C, CHR ''v'']
      else [CHR 0x5C, CHR ''x'', hex_digit (n div 16), hex_digit (n mod 16)])"

definition Quote :: "(string \<Rightarrow> string) \<Rightarrow> string \<Rightarrow> string" where
  "Quote uni s =
     (if list_all ascii s then [CHR 0x22] @ concat (map quote_char s) @ [CHR 0x22] else uni s)"

end
