(* ===== verification/GoPath.thy ===== *)
theory GoPath
  imports GoStrings
begin

text \<open>
  The functions of package path/filepath on a Unix system. \<open>Clean\<close> works on the list of
  path elements: it drops empty and \<open>.\<close> elements and lets \<open>..\<close> remove the element
  before it, or stay when a relative path starts with it. Every cleaned path is the
  rendering of a flag (rooted or not) and a list of elements (\<open>render\<close>); the laws
  collected in \<open>go_path\<close> describe joining, splitting and comparing paths on that form.
\<close>

section \<open>Definitions\<close>

definition rooted :: "string \<Rightarrow> bool" where
  "rooted p \<longleftrightarrow> p \<noteq> [] \<and> hd p = CHR ''/''"

fun clean_elems :: "bool \<Rightarrow> string list \<Rightarrow> string list \<Rightarrow> string list" where
  "clean_elems r out [] = rev out"
| "clean_elems r out (c # cs) =
     (if c = [] \<or> c = ''.'' then clean_elems r out cs
      else if c = ''..'' then
        (case out of
           [] \<Rightarrow> clean_elems r (if r then [] else [''..'']) cs
         | x # xs \<Rightarrow> clean_elems r (if x = ''..'' then ''..'' # x # xs else xs) cs)
      else clean_elems r (c # out) cs)"

definition path_elems :: "string \<Rightarrow> string list" where
  "path_elems p = clean_elems (rooted p) [] (Split CHR ''/'' p)"

definition render :: "bool \<Rightarrow> string list \<Rightarrow> string" where
  "render r cs =
     (if r then CHR ''/'' # Join cs ''/'' else if cs = [] then ''.'' else Join cs ''/'')"

definition Clean :: "string \<Rightarrow> string" where
  "Clean p = render (rooted p) (path_elems p)"

definition FJoin :: "string list \<Rightarrow> string" where
  "FJoin es =
     (case dropWhile (\<lambda>e. e = []) es of [] \<Rightarrow> [] | e # es' \<Rightarrow> Clean (Join (e # es') ''/''))"

definition Dir :: "string \<Rightarrow> string" where
  "Dir p = Clean (rev (dropWhile (\<lambda>c. c \<noteq> CHR ''/'') (rev p)))"

definition Base :: "string \<Rightarrow> string" where
  "Base p =
     (if p = [] then ''.''
      else let q = dropWhile (\<lambda>c. c = CHR ''/'') (rev p)
           in if q = [] then ''/'' else rev (takeWhile (\<lambda>c. c \<noteq> CHR ''/'') q))"

text \<open>
  \<open>filepath.Rel\<close>: the common elements are dropped, each remaining element of the base becomes
  a \<open>..\<close>, unless that element is itself a \<open>..\<close>, which is an error, as is mixing a rooted
  and a relative path.
\<close>

fun strip_common :: "string list \<Rightarrow> string list \<Rightarrow> string list \<times> string list" where
  "strip_common (x # xs) (y # ys) = (if x = y then strip_common xs ys else (x # xs, y # ys))"
| "strip_common xs ys = (xs, ys)"

definition Rel :: "string \<Rightarrow> string \<Rightarrow> string option" where
  "Rel base targ =
     (if Clean targ = Clean base then Some ''.''
      else if rooted base \<noteq> rooted targ then None
      else let (bs, ts) = strip_common (path_elems base) (path_elems targ)
           in if bs \<noteq> [] \<and> hd bs = ''..'' then None
              else Some (Join (map (\<lambda>_. ''..'') bs @ ts) ''/''))"


section \<open>Elements\<close>

text \<open>A name a directory entry can have.\<close>

definition plain :: "string \<Rightarrow> bool" where
  "plain c \<longleftrightarrow> c \<noteq> [] \<and> c \<noteq> ''.'' \<and> c \<noteq> ''..'' \<and> CHR ''/'' \<notin> set c"

text \<open>The element lists \<open>Clean\<close> produces: \<open>..\<close> only in front, and only when relative.\<close>

fun cleaned :: "bool \<Rightarrow> string list \<Rightarrow> bool" where
  "cleaned r [] \<longleftrightarrow> True"
| "cleaned r (c # cs) \<longleftrightarrow>
     (if c = ''..'' then \<not> r \<and> cleaned r cs else plain c \<and> list_all plain cs)"

lemma cleaned_plain: "list_all plain cs \<Longrightarrow> cleaned r cs"
  by (cases cs) (auto simp: plain_def)

lemma cleaned_True: "cleaned True cs \<longleftrightarrow> list_all plain cs"
  by (cases cs) (auto simp: plain_def)

lemma cleaned_append_plain: "cleaned r cs \<Longrightarrow> plain c \<Longrightarrow> cleaned r (cs @ [c])"
  by (induction cs) (auto simp: plain_def)

lemma cleaned_append_iff:
  "cleaned r (cs @ ds) \<Longrightarrow> cleaned r cs"
  by (induction cs) auto

lemma cleaned_no_slash: "cleaned r cs \<Longrightarrow> c \<in> set cs \<Longrightarrow> CHR ''/'' \<notin> set c \<and> c \<noteq> []"
  by (induction cs) (auto simp: plain_def list_all_iff split: if_splits)

lemma Split_append_sep_gen: "Split c (a @ c # b) = Split c a @ Split c b"
proof (induction a)
  case (Cons x xs)
  then show ?case by (cases "Split c xs") auto
qed simp

lemma clean_elems_append:
  "clean_elems r out (xs @ ys) = clean_elems r (rev (clean_elems r out xs)) ys"
  by (induction xs arbitrary: out) (auto split: list.splits)

lemma clean_elems_plain: "list_all plain cs \<Longrightarrow> clean_elems r out cs = rev out @ cs"
  by (induction cs arbitrary: out) (auto simp: plain_def)

lemma cleaned_snoc_cases:
  assumes "cleaned r (cs @ [c])"
  shows "c = ''..'' \<and> \<not> r \<and> set cs \<subseteq> {''..''} \<or> plain c \<and> cleaned r cs"
  using assms by (induction cs) (auto simp: plain_def split: if_splits)

lemma cleaned_dotdots: "\<not> r \<Longrightarrow> set cs \<subseteq> {''..''} \<Longrightarrow> cleaned r (cs @ [''..''])"
  by (induction cs) auto

lemma cleaned_clean_elems:
  "cleaned r (rev out) \<Longrightarrow> \<forall>c\<in>set cs. CHR ''/'' \<notin> set c \<Longrightarrow> cleaned r (clean_elems r out cs)"
proof (induction cs arbitrary: out)
  case (Cons c cs)
  show ?case
  proof (cases "c = [] \<or> c = ''.''")
    case True
    with Cons show ?thesis by auto
  next
    case False
    show ?thesis
    proof (cases "c = ''..''")
      case dd: True
      show ?thesis
      proof (cases out)
        case Nil
        with Cons dd show ?thesis by auto
      next
        case (Cons x xs)
        with Cons.prems have "cleaned r (rev xs @ [x])" by simp
        then have "cleaned r (rev xs)" and "x = ''..'' \<Longrightarrow> cleaned r (rev (''..'' # x # xs))"
          using cleaned_append_iff cleaned_snoc_cases [of r "rev xs" x]
            cleaned_dotdots [of r "rev xs @ [x]"] by (auto simp: plain_def)
        with Cons Cons.IH Cons.prems dd show ?thesis by auto
      qed
    next
      case nd: False
      with False Cons.prems have "plain c" by (auto simp: plain_def)
      with Cons.prems have "cleaned r (rev (c # out))" by (simp add: cleaned_append_plain)
      with Cons False nd show ?thesis by auto
    qed
  qed
qed simp

lemma clean_elems_cleaned:
  "cleaned r cs \<Longrightarrow> set out \<subseteq> {''..''} \<Longrightarrow> r \<longrightarrow> out = [] \<Longrightarrow> clean_elems r out cs = rev out @ cs"
proof (induction cs arbitrary: out)
  case (Cons c cs)
  show ?case
  proof (cases "c = ''..''")
    case True
    with Cons show ?thesis by (cases out) auto
  next
    case False
    with Cons.prems have "list_all plain (c # cs)" by simp
    then show ?thesis by (rule clean_elems_plain)
  qed
qed simp

lemma path_elems_cleaned: "cleaned (rooted p) (path_elems p)"
  unfolding path_elems_def using Split_pieces by (intro cleaned_clean_elems) auto


section \<open>Rendered paths\<close>

lemma Split_render:
  assumes "cleaned r cs"
  shows "Split CHR ''/'' (render r cs) =
     (if r then [] # (if cs = [] then [[]] else cs) else if cs = [] then [''.''] else cs)"
proof (cases "cs = []")
  case True
  then show ?thesis by (simp add: render_def)
next
  case False
  then have "Split CHR ''/'' (Join cs ''/'') = cs"
    using assms cleaned_no_slash by (intro Split_Join) blast+
  with False show ?thesis by (simp add: render_def)
qed

lemma Join_first:
  "cs \<noteq> [] \<Longrightarrow> hd cs \<noteq> [] \<Longrightarrow> Join cs sep \<noteq> [] \<and> hd (Join cs sep) = hd (hd cs)"
  by (cases cs rule: remdups_adj.cases) auto

lemma rooted_render [simp]:
  assumes "cleaned r cs"
  shows "rooted (render r cs) = r"
proof (cases "r \<or> cs = []")
  case True
  then show ?thesis by (auto simp: render_def rooted_def)
next
  case False
  then obtain c ds where cs: "cs = c # ds" by (cases cs) auto
  with assms have c: "c \<noteq> []" "CHR ''/'' \<notin> set c" using cleaned_no_slash [of r cs c] by auto
  then have "hd c \<noteq> CHR ''/''" by (metis hd_in_set)
  with False c cs Join_first [of cs "''/''"] show ?thesis by (simp add: render_def rooted_def)
qed

lemma path_elems_render [simp]:
  assumes "cleaned r cs"
  shows "path_elems (render r cs) = cs"
  using assms clean_elems_cleaned [OF assms, of "[]"]
  by (auto simp: path_elems_def Split_render)

lemma Clean_render [go_path]: "cleaned r cs \<Longrightarrow> Clean (render r cs) = render r cs"
  by (simp add: Clean_def)

theorem Clean_idem: "Clean (Clean p) = Clean p"
  using path_elems_cleaned [of p] by (simp add: Clean_def Clean_render)

lemma rooted_append: "p \<noteq> [] \<Longrightarrow> rooted (p @ q) = rooted p"
  by (simp add: rooted_def)

lemma FJoin_plain [go_path]:
  assumes "p \<noteq> []" and "plain n"
  shows "FJoin [p, n] = render (rooted p) (path_elems p @ [n])"
proof -
  have "FJoin [p, n] = Clean (p @ CHR ''/'' # n)"
    using assms by (simp add: FJoin_def)
  moreover have "path_elems (p @ CHR ''/'' # n) = path_elems p @ [n]"
    using assms by (simp add: path_elems_def rooted_append Split_append_sep_gen Split_no_sep
        plain_def clean_elems_append)
  ultimately show ?thesis using assms by (simp add: Clean_def rooted_append)
qed

lemma FJoin_cons_plain:
  assumes "p \<noteq> []" and "ns \<noteq> []" and "list_all plain ns"
  shows "FJoin (p # ns) = render (rooted p) (path_elems p @ ns)"
proof -
  have "FJoin (p # ns) = Clean (p @ CHR ''/'' # Join ns ''/'')"
    using assms by (simp add: FJoin_def Join_Cons_neq)
  moreover have "Split CHR ''/'' (Join ns ''/'') = ns"
    using assms by (intro Split_Join) (auto simp: list_all_iff plain_def)
  then have "path_elems (p @ CHR ''/'' # Join ns ''/'') = path_elems p @ ns"
    using assms by (simp add: path_elems_def rooted_append Split_append_sep_gen
        clean_elems_append clean_elems_plain)
  ultimately show ?thesis using assms by (simp add: Clean_def rooted_append)
qed

lemma render_neq_Nil [simp]: "cleaned r cs \<Longrightarrow> render r cs \<noteq> []"
  using cleaned_no_slash [of r cs "hd cs"] Join_first [of cs "''/''"] by (auto simp: render_def)

lemma FJoin_render [go_path]:
  assumes "cleaned r cs" and "plain n"
  shows "FJoin [render r cs, n] = render r (cs @ [n])"
  using assms by (simp add: FJoin_plain)

lemma Join_snoc: "cs \<noteq> [] \<Longrightarrow> Join (cs @ [n]) sep = Join cs sep @ sep @ n"
proof (induction cs)
  case (Cons c cs)
  then show ?case by (cases cs) auto
qed simp

lemma render_snoc:
  "render r (cs @ [n]) =
     (if cs = [] then (if r then CHR ''/'' # n else n) else render r cs @ CHR ''/'' # n)"
  by (auto simp: render_def Join_snoc)

lemma dropWhile_neq_rev:
  "c \<notin> set n \<Longrightarrow> dropWhile (\<lambda>x. x \<noteq> c) (rev n @ ys) = dropWhile (\<lambda>x. x \<noteq> c) ys"
  by (rule dropWhile_append2) auto

lemma takeWhile_neq_rev:
  "c \<notin> set n \<Longrightarrow> takeWhile (\<lambda>x. x \<noteq> c) (rev n @ ys) = rev n @ takeWhile (\<lambda>x. x \<noteq> c) ys"
  by (rule takeWhile_append2) auto

lemma neq_rev_all:
  assumes "c \<notin> set n"
  shows dropWhile_neq_rev_all: "dropWhile (\<lambda>x. x \<noteq> c) (rev n) = []"
    and takeWhile_neq_rev_all: "takeWhile (\<lambda>x. x \<noteq> c) (rev n) = rev n"
  using dropWhile_neq_rev [OF assms, of "[]"] takeWhile_neq_rev [OF assms, of "[]"]
  by (simp_all only: append_Nil2 dropWhile.simps takeWhile.simps)

lemmas last_elem_simps =
  dropWhile_neq_rev takeWhile_neq_rev dropWhile_neq_rev_all takeWhile_neq_rev_all

lemma Dir_render [go_path]:
  assumes "cleaned r cs" and "plain n"
  shows "Dir (render r (cs @ [n])) = render r cs"
proof -
  have n: "CHR ''/'' \<notin> set n" using assms by (simp add: plain_def)
  show ?thesis
  proof (cases "cs = []")
    case True
    have "Dir (render r [n]) = Clean (if r then ''/'' else [])"
      using n by (cases r) (simp_all add: render_def Dir_def last_elem_simps)
    also have "\<dots> = render r []"
      by (simp add: Clean_def path_elems_def rooted_def render_def)
    finally show ?thesis using True by simp
  next
    case False
    have "Dir (render r (cs @ [n])) = Clean (render r cs @ ''/'')"
      using n False by (simp add: Dir_def render_snoc last_elem_simps)
    moreover have "path_elems (render r cs @ ''/'') = cs"
      using assms path_elems_render [OF assms(1)]
      by (simp add: path_elems_def rooted_append Split_append_sep_gen clean_elems_append)
    ultimately show ?thesis using assms by (simp add: Clean_def rooted_append)
  qed
qed

lemma Base_after_slash:
  assumes "n \<noteq> []" and "CHR ''/'' \<notin> set n"
  shows "Base n = n" and "Base (a @ CHR ''/'' # n) = n"
proof -
  have d: "dropWhile (\<lambda>c. c = CHR ''/'') (rev n @ ys) = rev n @ ys" for ys
    using assms by (cases "rev n") auto
  show "Base n = n"
    using assms d [of "[]"] by (simp add: Base_def Let_def last_elem_simps)
  show "Base (a @ CHR ''/'' # n) = n"
    using assms by (simp add: Base_def Let_def d last_elem_simps)
qed

lemma Base_render [go_path]:
  assumes "plain n"
  shows "Base (render r (cs @ [n])) = n"
proof -
  have "render r (cs @ [n]) = n \<or> (\<exists>a. render r (cs @ [n]) = a @ CHR ''/'' # n)"
    unfolding render_snoc by (metis append_Nil)
  then show ?thesis
    using assms Base_after_slash [of n] by (auto simp: plain_def)
qed

lemma strip_common_prefix: "strip_common cs (cs @ ds) = ([], ds)"
  by (induction cs) auto

lemma Rel_below [go_path]:
  assumes "cleaned r (cs @ ds)" and "ds \<noteq> []"
  shows "Rel (render r cs) (render r (cs @ ds)) = Some (Join ds ''/'')"
proof -
  have c: "cleaned r cs" using assms by (rule_tac cleaned_append_iff)
  have "path_elems (render r (cs @ ds)) \<noteq> path_elems (render r cs)"
    using assms c by simp
  then have "render r (cs @ ds) \<noteq> render r cs" by force
  then show ?thesis
    using assms c by (simp add: Rel_def Clean_render strip_common_prefix)
qed

end
