(* ===== verification/GoErrors.thy ===== *)
theory GoErrors
  imports Prelude
begin

text \<open>
  Error values. A Go function that can fail returns a pair of a value and an error, nil
  meaning success; here the error component is a \<open>goerr option\<close>. The constructors of
  \<open>goerr\<close> are the dynamic types of the errors the program creates or inspects:
  a message (\<open>fmt.Errorf\<close> without \<open>%w\<close>), a message in front of a wrapped error
  (\<open>fmt.Errorf\<close> ending in \<open>%w\<close>), a \<open>*PathError\<close> of the file system, a pointer
  to the program's own \<open>fatalValidationError\<close>, the same type as a value, and errors made
  by packages outside the repository, with or without an error they unwrap to.

  The package \<open>github.com/pkg/errors\<close> is not part of the repository. Its two functions
  are the fields of the record \<open>errors_lib\<close>, which the definitions take as an argument,
  and \<open>errors_lib_ok\<close> states their documented behaviour; \<open>Wrapf\<close> is \<open>Wrap\<close> with the
  formatted message.
\<close>

section \<open>Errors and their chains\<close>

datatype errno = ENOENT | ENOTDIR | EISDIR | EACCES | ELOOP

primrec errno_text :: "errno \<Rightarrow> string" where
  "errno_text ENOENT = ''no such file or directory''"
| "errno_text ENOTDIR = ''not a directory''"
| "errno_text EISDIR = ''is a directory''"
| "errno_text EACCES = ''permission denied''"
| "errno_text ELOOP = ''too many levels of symbolic links''"

datatype goerr =
    ErrorString string
  | WrapError string goerr
  | PathError string string errno
  | FatalPtr goerr
  | FatalVal goerr
  | LibError string
  | LibWrap string goerr

text \<open>The method \<open>Error() string\<close>.\<close>

primrec error_text :: "goerr \<Rightarrow> string" where
  "error_text (ErrorString s) = s"
| "error_text (WrapError s e) = s @ error_text e"
| "error_text (PathError op p n) = op @ '' '' @ p @ '': '' @ errno_text n"
| "error_text (FatalPtr e) = error_text e"
| "error_text (FatalVal e) = error_text e"
| "error_text (LibError s) = s"
| "error_text (LibWrap s e) = s"

text \<open>The method \<open>Unwrap() error\<close>; a \<open>*PathError\<close> unwraps to an errno, a leaf here.\<close>

fun unwrap :: "goerr \<Rightarrow> goerr option" where
  "unwrap (WrapError s e) = Some e"
| "unwrap (FatalPtr e) = Some e"
| "unwrap (FatalVal e) = Some e"
| "unwrap (LibWrap s e) = Some e"
| "unwrap _ = None"

text \<open>The chain \<open>errors.As\<close> walks: the error itself and what it repeatedly unwraps to.\<close>

fun error_chain :: "goerr \<Rightarrow> goerr list" where
  "error_chain (WrapError s e) = WrapError s e # error_chain e"
| "error_chain (FatalPtr e) = FatalPtr e # error_chain e"
| "error_chain (FatalVal e) = FatalVal e # error_chain e"
| "error_chain (LibWrap s e) = LibWrap s e # error_chain e"
| "error_chain e = [e]"

lemma error_chain_unwrap:
  "error_chain e = e # (case unwrap e of None \<Rightarrow> [] | Some e' \<Rightarrow> error_chain e')"
  by (cases e) simp_all

text \<open>\<open>os.IsNotExist\<close> looks at a \<open>*PathError\<close> only; it does not unwrap other errors.\<close>

definition IsNotExist :: "goerr \<Rightarrow> bool" where
  "IsNotExist e = (case e of PathError op p n \<Rightarrow> n = ENOENT | _ \<Rightarrow> False)"

lemma IsNotExist_PathError [simp]: "IsNotExist (PathError op p n) \<longleftrightarrow> n = ENOENT"
  by (simp add: IsNotExist_def)


section \<open>The package github.com/pkg/errors\<close>

record errors_lib =
  errors_New :: "string \<Rightarrow> goerr"
  errors_Wrap :: "goerr option \<Rightarrow> string \<Rightarrow> goerr option"

text \<open>
  Documented behaviour: \<open>Wrap\<close> of a nil error is nil; \<open>Wrap\<close> of an error annotates it,
  so that the result is an error of the package that unwraps to the given one; \<open>New\<close> makes
  an error of the package. \<open>lib_wraps e' e\<close> says that \<open>e'\<close> reaches \<open>e\<close> through
  errors of the package only.
\<close>

fun lib_wraps :: "goerr \<Rightarrow> goerr \<Rightarrow> bool" where
  "lib_wraps (LibWrap s e') e \<longleftrightarrow> e' = e \<or> lib_wraps e' e"
| "lib_wraps _ e \<longleftrightarrow> False"

definition errors_lib_ok :: "'a errors_lib_scheme \<Rightarrow> bool" where
  "errors_lib_ok L \<longleftrightarrow>
     (\<forall>m. errors_Wrap L None m = None) \<and>
     (\<forall>e m. \<exists>e'. errors_Wrap L (Some e) m = Some e' \<and> lib_wraps e' e) \<and>
     (\<forall>m. \<exists>s. errors_New L m = LibError s)"

lemma errors_lib_okD:
  assumes "errors_lib_ok L"
  shows errors_Wrap_None: "errors_Wrap L None m = None"
    and errors_Wrap_Some: "\<exists>e'. errors_Wrap L (Some e) m = Some e' \<and> lib_wraps e' e"
    and errors_New_leaf: "\<exists>s. errors_New L m = LibError s"
  using assms by (auto simp: errors_lib_ok_def)

lemma errors_Wrap_eq_None_iff:
  assumes "errors_lib_ok L"
  shows "errors_Wrap L eo m = None \<longleftrightarrow> eo = None"
proof (cases eo)
  case None
  then show ?thesis by (simp add: errors_Wrap_None [OF assms])
next
  case (Some e)
  then show ?thesis using errors_Wrap_Some [OF assms, of e m] by auto
qed

lemma None_eq_errors_Wrap_iff:
  assumes "errors_lib_ok L"
  shows "None = errors_Wrap L eo m \<longleftrightarrow> eo = None"
  using errors_Wrap_eq_None_iff [OF assms, of eo m] by auto

lemma errors_Wrap_ex:
  assumes "errors_lib_ok L"
  shows "\<exists>y. errors_Wrap L (Some e) m = Some y"
  using errors_Wrap_Some [OF assms, of e m] by blast

lemmas errors_Wrap_None_iffs = errors_Wrap_eq_None_iff None_eq_errors_Wrap_iff errors_Wrap_ex

lemma lib_wraps_chain:
  "lib_wraps e' e \<Longrightarrow> \<exists>ws. error_chain e' = ws @ error_chain e \<and> (\<forall>w\<in>set ws. \<exists>s x. w = LibWrap s x)"
proof (induction e')
  case (LibWrap s e'')
  then consider "e'' = e" | "lib_wraps e'' e" by auto
  then show ?case
  proof cases
    case 1
    then show ?thesis by (intro exI [of _ "[LibWrap s e]"]) simp
  next
    case 2
    with LibWrap.IH obtain ws where "error_chain e'' = ws @ error_chain e"
      and "\<forall>w\<in>set ws. \<exists>s x. w = LibWrap s x" by blast
    then show ?thesis by (intro exI [of _ "LibWrap s e'' # ws"]) simp
  qed
qed simp_all

text \<open>A concrete instance, used where a theorem about any such library is applied.\<close>

definition sample_errors_lib :: errors_lib where
  "sample_errors_lib =
     \<lparr>errors_New = LibError,
      errors_Wrap = (\<lambda>eo m. map_option (\<lambda>e. LibWrap (m @ '': '' @ error_text e) e) eo)\<rparr>"

lemma sample_errors_lib_ok: "errors_lib_ok sample_errors_lib"
  by (simp add: errors_lib_ok_def sample_errors_lib_def)

end
