(* ===== verification/GoFS.thy ===== *)
theory GoFS
  imports GoPath GoErrors
begin

text \<open>
  The file system as the program sees it through package os: a tree of regular files,
  directories, symbolic links and other files, with the permissions that decide whether an
  operation fails. Directory entries are kept in the lexical order in which
  \<open>os.ReadDir\<close> returns them. A symbolic link carries the node it resolves to, or nothing
  when it is dangling, so reading follows links without a loop; the operations that write
  refuse a path that goes through a link (\<open>ELOOP\<close>), which bounds the model to
  paths without links where it writes.

  \<open>Walk\<close> and \<open>WalkDir\<close> are the two traversals of package path/filepath, with the state
  of the callback passed along and its return value as \<open>wret\<close>. A callback that never
  asks to skip a directory sees exactly the events of \<open>walk_events\<close> or
  \<open>walkdir_events\<close>, in order, up to the first error.
\<close>

section \<open>Nodes\<close>

datatype perm = Perm (rd: bool) (wr: bool)

datatype fnode =
    Reg perm string
  | DirN perm "(string \<times> fnode) list"
  | Link "fnode option"
  | Special

datatype fmode = ModeRegular | ModeDir | ModeSymlink | ModeIrregular

fun node_mode :: "fnode \<Rightarrow> fmode" where
  "node_mode (Reg pm b) = ModeRegular"
| "node_mode (DirN pm es) = ModeDir"
| "node_mode (Link t) = ModeSymlink"
| "node_mode Special = ModeIrregular"

record finfo =
  fi_name :: string
  fi_mode :: fmode

abbreviation IsDir :: "finfo \<Rightarrow> bool" where
  "IsDir fi \<equiv> fi_mode fi = ModeDir"

abbreviation IsRegular :: "finfo \<Rightarrow> bool" where
  "IsRegular fi \<equiv> fi_mode fi = ModeRegular"

definition info_of :: "string \<Rightarrow> fnode \<Rightarrow> finfo" where
  "info_of nm n = \<lparr>fi_name = nm, fi_mode = node_mode n\<rparr>"

lemma info_of_simps [simp]: "fi_name (info_of nm n) = nm" "fi_mode (info_of nm n) = node_mode n"
  by (simp_all add: info_of_def)

fun follow :: "fnode \<Rightarrow> fnode option" where
  "follow (Link None) = None"
| "follow (Link (Some n)) = follow n"
| "follow n = Some n"

lemma follow_not_link: "follow n = Some m \<Longrightarrow> m \<noteq> Link t"
  by (induction n rule: follow.induct) auto

lemma follow_eq_self: "node_mode n \<noteq> ModeSymlink \<Longrightarrow> follow n = Some n"
  by (cases n) auto

fun lookup_at :: "fnode \<Rightarrow> string list \<Rightarrow> errno + fnode" where
  "lookup_at n [] = Inr n"
| "lookup_at n (c # cs) =
     (case follow n of
        None \<Rightarrow> Inl ENOENT
      | Some (DirN pm es) \<Rightarrow>
          (case map_of es c of None \<Rightarrow> Inl ENOENT | Some m \<Rightarrow> lookup_at m cs)
      | Some m \<Rightarrow> Inl ENOTDIR)"

lemma lookup_at_append:
  "lookup_at n cs = Inr m \<Longrightarrow> lookup_at n (cs @ ds) = lookup_at m ds"
  by (induction n cs rule: lookup_at.induct) (auto split: option.splits fnode.splits)

lemma lookup_at_child:
  "lookup_at n cs = Inr (DirN pm es) \<Longrightarrow> map_of es c = Some m \<Longrightarrow> lookup_at n (cs @ [c]) = Inr m"
  by (simp add: lookup_at_append)


section \<open>Reading\<close>

text \<open>The file system and the working directory, given by its elements.\<close>

record fsys =
  fs_root :: fnode
  fs_cwd :: "string list"

definition abs_elems :: "fsys \<Rightarrow> string \<Rightarrow> string list" where
  "abs_elems w p =
     (if rooted p then path_elems p else path_elems (render True (fs_cwd w) @ ''/'' @ p))"

definition find_node :: "fsys \<Rightarrow> string \<Rightarrow> errno + fnode" where
  "find_node w p = (if p = [] then Inl ENOENT else lookup_at (fs_root w) (abs_elems w p))"

definition Lstat :: "fsys \<Rightarrow> string \<Rightarrow> goerr + finfo" where
  "Lstat w p =
     (case find_node w p of
        Inl e \<Rightarrow> Inl (PathError ''lstat'' p e)
      | Inr n \<Rightarrow> Inr (info_of (Base p) n))"

definition find_followed :: "fsys \<Rightarrow> string \<Rightarrow> errno + fnode" where
  "find_followed w p =
     (case find_node w p of
        Inl e \<Rightarrow> Inl e
      | Inr n \<Rightarrow> (case follow n of None \<Rightarrow> Inl ENOENT | Some m \<Rightarrow> Inr m))"

definition Stat :: "fsys \<Rightarrow> string \<Rightarrow> goerr + finfo" where
  "Stat w p =
     (case find_followed w p of
        Inl e \<Rightarrow> Inl (PathError ''stat'' p e)
      | Inr n \<Rightarrow> Inr (info_of (Base p) n))"

text \<open>
  An open file as an \<open>io.Reader\<close>: the bytes it delivers and the error it ends with, if
  any. Opening a directory succeeds, and reading it fails.
\<close>

type_synonym reader = "string \<times> goerr option"

definition Open :: "fsys \<Rightarrow> string \<Rightarrow> goerr + reader" where
  "Open w p =
     (case find_followed w p of
        Inl e \<Rightarrow> Inl (PathError ''open'' p e)
      | Inr (Reg pm b) \<Rightarrow> if rd pm then Inr (b, None) else Inl (PathError ''open'' p EACCES)
      | Inr (DirN pm es) \<Rightarrow>
          if rd pm then Inr ([], Some (PathError ''read'' p EISDIR))
          else Inl (PathError ''open'' p EACCES)
      | Inr n \<Rightarrow> Inl (PathError ''open'' p EACCES))"

definition ReadFile :: "fsys \<Rightarrow> string \<Rightarrow> goerr + string" where
  "ReadFile w p =
     (case Open w p of
        Inl e \<Rightarrow> Inl e
      | Inr (b, None) \<Rightarrow> Inr b
      | Inr (b, Some e) \<Rightarrow> Inl e)"

definition Getwd :: "fsys \<Rightarrow> goerr + string" where
  "Getwd w =
     (case lookup_at (fs_root w) (fs_cwd w) of
        Inr (DirN pm es) \<Rightarrow> Inr (render True (fs_cwd w))
      | _ \<Rightarrow> Inl (PathError ''getwd'' [] ENOENT))"

lemma ReadFile_NotExist_iff:
  "(\<exists>e. ReadFile w p = Inl e \<and> IsNotExist e) \<longleftrightarrow> find_followed w p = Inl ENOENT"
  by (auto simp: ReadFile_def Open_def split: sum.splits fnode.splits option.splits prod.splits
      if_splits)


section \<open>Writing\<close>

fun put :: "string \<Rightarrow> 'a \<Rightarrow> (string \<times> 'a) list \<Rightarrow> (string \<times> 'a) list" where
  "put c m [] = [(c, m)]"
| "put c m ((d, n) # es) =
     (if c = d then (c, m) # es else if c < d then (c, m) # (d, n) # es else (d, n) # put c m es)"

lemma map_of_put [simp]: "map_of (put c m es) = (map_of es)(c \<mapsto> m)"
  by (induction c m es rule: put.induct) auto

lemma set_fst_put: "fst ` set (put c m es) = insert c (fst ` set es)"
  by (induction c m es rule: put.induct) auto

lemma sorted_put:
  "sorted_wrt (<) (map fst es) \<Longrightarrow> sorted_wrt (<) (map fst (put c m es))"
proof (induction c m es rule: put.induct)
  case (2 c m d n es)
  then have es: "\<forall>x\<in>fst ` set es. d < x" by auto
  consider "c = d" | "c < d" | "d < c" by (rule linorder_cases)
  then show ?case
  proof cases
    case 3
    then have "\<forall>x\<in>fst ` set (put c m es). d < x"
      using es by (simp add: set_fst_put)
    moreover have "sorted_wrt (<) (map fst (put c m es))"
      using 2 3 by auto
    ultimately show ?thesis using 3 by auto
  qed (use "2.prems" es in auto)
qed simp

lemma set_put_subset: "(x, n) \<in> set (put c m es) \<Longrightarrow> (x, n) = (c, m) \<or> (x, n) \<in> set es"
  by (induction c m es rule: put.induct) (auto split: if_splits)

text \<open>Permissions of the files and directories the program creates (\<open>os.ModePerm\<close>).\<close>

abbreviation mode_perm :: perm where
  "mode_perm \<equiv> Perm True True"

fun write_at :: "fnode \<Rightarrow> string list \<Rightarrow> string \<Rightarrow> errno + fnode" where
  "write_at n [] b =
     (case n of
        Reg pm b' \<Rightarrow> if wr pm then Inr (Reg pm b) else Inl EACCES
      | DirN pm es \<Rightarrow> Inl EISDIR
      | Link t \<Rightarrow> Inl ELOOP
      | Special \<Rightarrow> Inl EACCES)"
| "write_at n (c # cs) b =
     (case n of
        DirN pm es \<Rightarrow>
          (case map_of es c of
             Some m \<Rightarrow>
               (case write_at m cs b of
                  Inl e \<Rightarrow> Inl e
                | Inr m' \<Rightarrow> Inr (DirN pm (put c m' es)))
           | None \<Rightarrow>
               if cs \<noteq> [] then Inl ENOENT
               else if wr pm then Inr (DirN pm (put c (Reg mode_perm b) es))
               else Inl EACCES)
      | Link t \<Rightarrow> Inl ELOOP
      | _ \<Rightarrow> Inl ENOTDIR)"

fun mkdir_at :: "fnode \<Rightarrow> string list \<Rightarrow> errno + fnode" where
  "mkdir_at n [] =
     (case n of DirN pm es \<Rightarrow> Inr n | Link t \<Rightarrow> Inl ELOOP | _ \<Rightarrow> Inl ENOTDIR)"
| "mkdir_at n (c # cs) =
     (case n of
        DirN pm es \<Rightarrow>
          (case map_of es c of
             Some m \<Rightarrow>
               (case mkdir_at m cs of
                  Inl e \<Rightarrow> Inl e
                | Inr m' \<Rightarrow> Inr (DirN pm (put c m' es)))
           | None \<Rightarrow>
               if wr pm then
                 (case mkdir_at (DirN mode_perm []) cs of
                    Inl e \<Rightarrow> Inl e
                  | Inr m' \<Rightarrow> Inr (DirN pm (put c m' es)))
               else Inl EACCES)
      | Link t \<Rightarrow> Inl ELOOP
      | _ \<Rightarrow> Inl ENOTDIR)"

definition WriteFile :: "fsys \<Rightarrow> string \<Rightarrow> string \<Rightarrow> fsys \<times> goerr option" where
  "WriteFile w p b =
     (if p = [] then (w, Some (PathError ''open'' p ENOENT))
      else case write_at (fs_root w) (abs_elems w p) b of
             Inl e \<Rightarrow> (w, Some (PathError ''open'' p e))
           | Inr n \<Rightarrow> (w\<lparr>fs_root := n\<rparr>, None))"

text \<open>\<open>os.Create\<close> opens for reading and writing, so an existing file must allow both.\<close>

definition os_Create :: "fsys \<Rightarrow> string \<Rightarrow> fsys \<times> goerr option" where
  "os_Create w p =
     (case find_node w p of
        Inr (Reg pm b) \<Rightarrow> if rd pm then WriteFile w p [] else (w, Some (PathError ''open'' p EACCES))
      | _ \<Rightarrow> WriteFile w p [])"

definition MkdirAll :: "fsys \<Rightarrow> string \<Rightarrow> fsys \<times> goerr option" where
  "MkdirAll w p =
     (case Stat w p of
        Inr fi \<Rightarrow> if IsDir fi then (w, None) else (w, Some (PathError ''mkdir'' p ENOTDIR))
      | Inl _ \<Rightarrow>
          if p = [] then (w, Some (PathError ''mkdir'' p ENOENT))
          else (case mkdir_at (fs_root w) (abs_elems w p) of
                  Inl e \<Rightarrow> (w, Some (PathError ''mkdir'' p e))
                | Inr n \<Rightarrow> (w\<lparr>fs_root := n\<rparr>, None)))"

lemma write_at_lookup:
  "write_at n cs b = Inr n' \<Longrightarrow> \<exists>pm. lookup_at n' cs = Inr (Reg pm b) \<and>
     (pm = mode_perm \<or> (\<exists>b'. lookup_at n cs = Inr (Reg pm b')))"
proof (induction n cs b arbitrary: n' rule: write_at.induct)
  case (2 n c cs b)
  then show ?case
    by (auto split: fnode.splits option.splits sum.splits if_splits)
qed (auto split: fnode.splits if_splits)

lemma write_at_frame:
  "write_at n cs b = Inr n' \<Longrightarrow> \<not> prefix ds cs \<Longrightarrow> \<not> prefix cs ds \<Longrightarrow>
   lookup_at n' ds = lookup_at n ds"
proof (induction n cs b arbitrary: n' ds rule: write_at.induct)
  case (2 n c cs b)
  then obtain d ds' where "ds = d # ds'" by (cases ds) auto
  with 2 show ?case
    by (auto split: fnode.splits option.splits sum.splits if_splits)
qed simp

lemma mkdir_at_frame:
  "mkdir_at n cs = Inr n' \<Longrightarrow> \<not> prefix ds cs \<Longrightarrow> \<not> prefix cs ds \<Longrightarrow>
   lookup_at n' ds = lookup_at n ds"
proof (induction n cs arbitrary: n' ds rule: mkdir_at.induct)
  case (2 n c cs)
  then obtain d ds' where d: "ds = d # ds'" by (cases ds) auto
  from 2 d have "c = d \<Longrightarrow> lookup_at (DirN mode_perm []) ds' = Inl ENOENT"
    by (cases ds') auto
  with 2 d show ?case
    by (cases "c = d") (auto split: fnode.splits option.splits sum.splits if_splits)
qed simp

text \<open>Creating directories neither makes nor changes regular files; writing changes one.\<close>

lemma mkdir_at_new_reg:
  "mkdir_at n cs = Inr n' \<Longrightarrow> lookup_at n' ds = Inr (Reg pm b) \<Longrightarrow> lookup_at n ds = Inr (Reg pm b)"
proof (induction n cs arbitrary: n' ds rule: mkdir_at.induct)
  case (2 n c cs)
  have new: "lookup_at (DirN mode_perm []) es \<noteq> Inr (Reg pm b)" for es by (cases es) auto
  from 2 obtain pd es where n: "n = DirN pd es" by (auto split: fnode.splits)
  with 2 obtain m' where n': "n' = DirN pd (put c m' es)"
    and m': "(\<exists>m. map_of es c = Some m \<and> mkdir_at m cs = Inr m') \<or>
      (map_of es c = None \<and> mkdir_at (DirN mode_perm []) cs = Inr m')"
    by (auto split: option.splits sum.splits if_splits)
  from "2.prems"(2) n' obtain d ds' where ds: "ds = d # ds'" by (cases ds) auto
  show ?case
  proof (cases "d = c")
    case True
    with "2.prems"(2) n' ds have "lookup_at m' ds' = Inr (Reg pm b)" by simp
    with m' 2 n new show ?thesis using True ds
      by (auto split: if_splits)
  next
    case False
    with "2.prems"(2) n n' ds show ?thesis by (auto split: option.splits)
  qed
qed (auto split: fnode.splits)

lemma mkdir_at_keeps_reg:
  "mkdir_at n cs = Inr n' \<Longrightarrow> lookup_at n ds = Inr (Reg pm b) \<Longrightarrow> lookup_at n' ds = Inr (Reg pm b)"
proof (induction n cs arbitrary: n' ds rule: mkdir_at.induct)
  case (2 n c cs)
  then obtain pd es where n: "n = DirN pd es" by (auto split: fnode.splits)
  with "2.prems"(2) obtain d ds' where "ds = d # ds'" by (cases ds) auto
  with 2 n show ?case
    by (auto split: option.splits sum.splits if_splits)
qed (auto split: fnode.splits)

lemma write_at_reg_iff:
  "write_at n cs b = Inr n' \<Longrightarrow> ds \<noteq> cs \<Longrightarrow>
   lookup_at n' ds = Inr (Reg pm c) \<longleftrightarrow> lookup_at n ds = Inr (Reg pm c)"
proof (induction n cs b arbitrary: n' ds rule: write_at.induct)
  case (1 n b)
  then obtain pn b' where "n = Reg pn b'" "n' = Reg pn b" by (auto split: fnode.splits if_splits)
  moreover obtain d ds' where "ds = d # ds'" using 1 by (cases ds) auto
  ultimately show ?case by simp
next
  case (2 n x cs b)
  then obtain pd es where n: "n = DirN pd es" by (auto split: fnode.splits)
  with 2 obtain m' where n': "n' = DirN pd (put x m' es)"
    and m': "(\<exists>m. map_of es x = Some m \<and> write_at m cs b = Inr m') \<or>
      (map_of es x = None \<and> cs = [] \<and> m' = Reg mode_perm b)"
    by (auto split: option.splits sum.splits if_splits)
  show ?case
  proof (cases ds)
    case Nil
    with n n' show ?thesis by simp
  next
    case (Cons d ds')
    show ?thesis
    proof (cases "d = x")
      case True
      from m' show ?thesis
      proof
        assume "\<exists>m. map_of es x = Some m \<and> write_at m cs b = Inr m'"
        with 2 n n' Cons True show ?thesis by auto
      next
        assume "map_of es x = None \<and> cs = [] \<and> m' = Reg mode_perm b"
        moreover obtain e ds'' where "ds' = e # ds''" using Cons True 2 calculation by (cases ds') auto
        ultimately show ?thesis using n n' Cons True by simp
      qed
    next
      case False
      with n n' Cons show ?thesis by simp
    qed
  qed
qed


section \<open>Files written\<close>

lemma find_node_update:
  "find_node (w\<lparr>fs_root := n\<rparr>) q = (if q = [] then Inl ENOENT else lookup_at n (abs_elems w q))"
  by (simp add: find_node_def abs_elems_def)

lemma ReadFile_Reg: "find_node w p = Inr (Reg pm b) \<Longrightarrow> rd pm \<Longrightarrow> ReadFile w p = Inr b"
  by (simp add: ReadFile_def Open_def find_followed_def)

text \<open>The path of the last element of a path, from the root of the file system.\<close>

lemma abs_elems_snoc:
  assumes "cleaned r cs" and "plain c"
  shows "abs_elems w (render r (cs @ [c])) = abs_elems w (render r cs) @ [c]"
proof -
  have c: "cleaned r (cs @ [c])" using assms by (rule cleaned_append_plain)
  show ?thesis
  proof (cases r)
    case True
    with assms c show ?thesis by (simp add: abs_elems_def)
  next
    case False
    let ?a = "Split CHR ''/'' (render True (fs_cwd w))"
    have rel: "abs_elems w (render False ds) = clean_elems True [] (?a @ (if ds = [] then [''.''] else ds))"
      if "cleaned False ds" for ds
    proof -
      have "rooted (render True (fs_cwd w) @ ''/'' @ render False ds)" by (simp add: render_def rooted_def)
      with that show ?thesis by (simp add: abs_elems_def path_elems_def Split_append_sep_gen Split_render)
    qed
    have "clean_elems True [] (?a @ cs @ [c]) = clean_elems True [] (?a @ cs) @ [c]"
      using clean_elems_append [of True "[]" "?a @ cs" "[c]"] clean_elems_plain [of "[c]"] assms(2)
      by simp
    moreover have "clean_elems True [] (?a @ [''.'']) = clean_elems True [] ?a"
      by (simp add: clean_elems_append)
    ultimately show ?thesis
      using False assms c by (cases "cs = []") (simp_all add: rel)
  qed
qed

lemma WriteFile_effect:
  assumes "WriteFile w q b = (w', None)"
  shows "q \<noteq> [] \<and> (\<exists>n. write_at (fs_root w) (abs_elems w q) b = Inr n \<and> w' = w\<lparr>fs_root := n\<rparr>)"
  using assms by (auto simp: WriteFile_def split: if_splits sum.splits)

lemma WriteFile_node:
  assumes "WriteFile w q b = (w', None)" and "\<forall>pm b. find_node w q = Inr (Reg pm b) \<longrightarrow> rd pm"
  shows "\<exists>pm. find_node w' q = Inr (Reg pm b) \<and> rd pm"
proof -
  from WriteFile_effect [OF assms(1)] obtain n where q: "q \<noteq> []" and n: "write_at (fs_root w) (abs_elems w q) b = Inr n"
    and w': "w' = w\<lparr>fs_root := n\<rparr>" by blast
  from write_at_lookup [OF n] assms(2) q show ?thesis by (auto simp: w' find_node_update) (auto simp: find_node_def)
qed

lemma os_Create_node:
  assumes "os_Create w q = (w', None)"
  shows "WriteFile w q [] = (w', None) \<and> (\<exists>pm. find_node w' q = Inr (Reg pm []) \<and> rd pm)"
proof -
  from assms have "WriteFile w q [] = (w', None)" and "\<forall>pm b. find_node w q = Inr (Reg pm b) \<longrightarrow> rd pm"
    by (auto simp: os_Create_def split: sum.splits fnode.splits if_splits)
  with WriteFile_node [of w q "[]" w'] show ?thesis by blast
qed

lemma WriteFile_other:
  assumes "WriteFile w q b = (w', None)" and "abs_elems w p \<noteq> abs_elems w q"
  shows "find_node w' p = Inr (Reg pm c) \<longleftrightarrow> find_node w p = Inr (Reg pm c)"
proof -
  from WriteFile_effect [OF assms(1)] obtain n where n: "write_at (fs_root w) (abs_elems w q) b = Inr n"
    and w': "w' = w\<lparr>fs_root := n\<rparr>" by blast
  from write_at_reg_iff [OF n assms(2)] show ?thesis by (simp add: w' find_node_update) (simp add: find_node_def)
qed

end
