(* ===== verification/GoWalk.thy ===== *)
theory GoWalk
  imports GoFS
begin

text \<open>
  The two traversals of package path/filepath. Both visit a directory before its entries
  and the entries in lexical order. The callback's state is passed along; its return value
  is a \<open>wret\<close>: nil, the sentinel \<open>SkipDir\<close>, another error, or a panic of the
  callback, which ends the traversal. \<open>Walk\<close> reports a directory it cannot list by
  calling the callback once, with the error; \<open>WalkDir\<close> calls it a second time.
  A \<open>SkipDir\<close> returned for a file skips the rest of the file's directory.
\<close>

section \<open>Definitions\<close>

datatype wret = WNil | WSkipDir | WErr goerr | WPanic

type_synonym 's walkfn = "'s \<Rightarrow> string \<Rightarrow> finfo option \<Rightarrow> goerr option \<Rightarrow> 's \<times> wret"

fun walk :: "'s walkfn \<Rightarrow> string \<Rightarrow> string \<Rightarrow> fnode \<Rightarrow> 's \<Rightarrow> 's \<times> wret"
  and walk_entries :: "'s walkfn \<Rightarrow> string \<Rightarrow> (string \<times> fnode) list \<Rightarrow> 's \<Rightarrow> 's \<times> wret" where
  "walk f p nm (DirN pm es) s =
     (if rd pm then
        (case f s p (Some (info_of nm (DirN pm es))) None of
           (s', WNil) \<Rightarrow> walk_entries f p es s'
         | r \<Rightarrow> r)
      else f s p (Some (info_of nm (DirN pm es))) (Some (PathError ''open'' p EACCES)))"
| "walk f p nm n s = f s p (Some (info_of nm n)) None"
| "walk_entries f p [] s = (s, WNil)"
| "walk_entries f p ((nm, n) # es) s =
     (case walk f (FJoin [p, nm]) nm n s of
        (s', WNil) \<Rightarrow> walk_entries f p es s'
      | (s', WSkipDir) \<Rightarrow>
          if node_mode n = ModeDir then walk_entries f p es s' else (s', WSkipDir)
      | r \<Rightarrow> r)"

definition Walk :: "fsys \<Rightarrow> string \<Rightarrow> 's walkfn \<Rightarrow> 's \<Rightarrow> 's \<times> wret" where
  "Walk w p f s =
     (case (case find_node w p of
              Inl e \<Rightarrow> f s p None (Some (PathError ''lstat'' p e))
            | Inr n \<Rightarrow> walk f p (Base p) n s) of
        (s', WSkipDir) \<Rightarrow> (s', WNil)
      | r \<Rightarrow> r)"

fun walkdir :: "'s walkfn \<Rightarrow> string \<Rightarrow> string \<Rightarrow> fnode \<Rightarrow> 's \<Rightarrow> 's \<times> wret"
  and walkdir_entries :: "'s walkfn \<Rightarrow> string \<Rightarrow> (string \<times> fnode) list \<Rightarrow> 's \<Rightarrow> 's \<times> wret" where
  "walkdir f p nm (DirN pm es) s =
     (case f s p (Some (info_of nm (DirN pm es))) None of
        (s', WNil) \<Rightarrow>
          if rd pm then walkdir_entries f p es s'
          else
            (case f s' p (Some (info_of nm (DirN pm es))) (Some (PathError ''open'' p EACCES)) of
               (s'', WSkipDir) \<Rightarrow> (s'', WNil)
             | r \<Rightarrow> r)
      | (s', WSkipDir) \<Rightarrow> (s', WNil)
      | r \<Rightarrow> r)"
| "walkdir f p nm n s = f s p (Some (info_of nm n)) None"
| "walkdir_entries f p [] s = (s, WNil)"
| "walkdir_entries f p ((nm, n) # es) s =
     (case walkdir f (FJoin [p, nm]) nm n s of
        (s', WNil) \<Rightarrow> walkdir_entries f p es s'
      | (s', WSkipDir) \<Rightarrow> (s', WNil)
      | r \<Rightarrow> r)"

definition WalkDir :: "fsys \<Rightarrow> string \<Rightarrow> 's walkfn \<Rightarrow> 's \<Rightarrow> 's \<times> wret" where
  "WalkDir w p f s =
     (case (case find_node w p of
              Inl e \<Rightarrow> f s p None (Some (PathError ''lstat'' p e))
            | Inr n \<Rightarrow> walkdir f p (Base p) n s) of
        (s', WSkipDir) \<Rightarrow> (s', WNil)
      | r \<Rightarrow> r)"


section \<open>Traversals without skipping\<close>

text \<open>The calls a traversal makes when no call asks to skip or to stop.\<close>

type_synonym wevent = "string \<times> finfo option \<times> goerr option"

fun walk_events :: "string \<Rightarrow> string \<Rightarrow> fnode \<Rightarrow> wevent list"
  and walk_entry_events :: "string \<Rightarrow> (string \<times> fnode) list \<Rightarrow> wevent list" where
  "walk_events p nm (DirN pm es) =
     (if rd pm then (p, Some (info_of nm (DirN pm es)), None) # walk_entry_events p es
      else [(p, Some (info_of nm (DirN pm es)), Some (PathError ''open'' p EACCES))])"
| "walk_events p nm n = [(p, Some (info_of nm n), None)]"
| "walk_entry_events p [] = []"
| "walk_entry_events p ((nm, n) # es) = walk_events (FJoin [p, nm]) nm n @ walk_entry_events p es"

fun walkdir_events :: "string \<Rightarrow> string \<Rightarrow> fnode \<Rightarrow> wevent list"
  and walkdir_entry_events :: "string \<Rightarrow> (string \<times> fnode) list \<Rightarrow> wevent list" where
  "walkdir_events p nm (DirN pm es) =
     (p, Some (info_of nm (DirN pm es)), None) #
     (if rd pm then walkdir_entry_events p es
      else [(p, Some (info_of nm (DirN pm es)), Some (PathError ''open'' p EACCES))])"
| "walkdir_events p nm n = [(p, Some (info_of nm n), None)]"
| "walkdir_entry_events p [] = []"
| "walkdir_entry_events p ((nm, n) # es) =
     walkdir_events (FJoin [p, nm]) nm n @ walkdir_entry_events p es"

text \<open>Feeding events to a callback until it returns anything but nil.\<close>

fun run_events :: "'s walkfn \<Rightarrow> wevent list \<Rightarrow> 's \<Rightarrow> 's \<times> wret" where
  "run_events f [] s = (s, WNil)"
| "run_events f ((p, fi, e) # evs) s =
     (case f s p fi e of (s', WNil) \<Rightarrow> run_events f evs s' | r \<Rightarrow> r)"

definition never_skips :: "'s walkfn \<Rightarrow> bool" where
  "never_skips f \<longleftrightarrow> (\<forall>s p fi e. snd (f s p fi e) \<noteq> WSkipDir)"

lemma never_skipsD: "never_skips f \<Longrightarrow> f s p fi e \<noteq> (s', WSkipDir)"
  by (auto simp: never_skips_def dest: spec [of _ s]) (metis snd_conv)

lemma run_events_append:
  "run_events f (xs @ ys) s =
     (case run_events f xs s of (s', WNil) \<Rightarrow> run_events f ys s' | r \<Rightarrow> r)"
  by (induction f xs s rule: run_events.induct) (auto split: prod.splits wret.splits)

lemma run_events_never_skips: "never_skips f \<Longrightarrow> run_events f evs s \<noteq> (s', WSkipDir)"
  by (induction f evs s rule: run_events.induct) (auto split: prod.splits wret.splits dest: never_skipsD)

lemma walk_run_events:
  shows "never_skips f \<Longrightarrow> walk f p nm n s = run_events f (walk_events p nm n) s"
    and "never_skips f \<Longrightarrow> walk_entries f p es s = run_events f (walk_entry_events p es) s"
proof (induction f p nm n s and f p es s rule: walk_walk_entries.induct)
  case (4 f p nm n es s)
  then show ?case
    by (auto simp: run_events_append split: prod.splits wret.splits dest: run_events_never_skips)
qed (auto split: prod.splits wret.splits)

lemma walkdir_run_events:
  shows "never_skips f \<Longrightarrow> walkdir f p nm n s = run_events f (walkdir_events p nm n) s"
    and "never_skips f \<Longrightarrow>
      walkdir_entries f p es s = run_events f (walkdir_entry_events p es) s"
proof (induction f p nm n s and f p es s rule: walkdir_walkdir_entries.induct)
  case (1 f p nm pm es s)
  then show ?case by (auto split: prod.splits wret.splits dest: never_skipsD)
next
  case (4 f p nm n es s)
  then show ?case
    by (auto simp: run_events_append split: prod.splits wret.splits dest: run_events_never_skips)
qed (auto split: prod.splits wret.splits)

definition root_events :: "(string \<Rightarrow> string \<Rightarrow> fnode \<Rightarrow> wevent list) \<Rightarrow> fsys \<Rightarrow> string \<Rightarrow> wevent list" where
  "root_events evs w p =
     (case find_node w p of
        Inl e \<Rightarrow> [(p, None, Some (PathError ''lstat'' p e))]
      | Inr n \<Rightarrow> evs p (Base p) n)"

lemma Walk_run_events:
  "never_skips f \<Longrightarrow> Walk w p f s = run_events f (root_events walk_events w p) s"
  by (auto simp: Walk_def root_events_def walk_run_events split: sum.splits prod.splits wret.splits
      dest: run_events_never_skips never_skipsD)

lemma WalkDir_run_events:
  "never_skips f \<Longrightarrow> WalkDir w p f s = run_events f (root_events walkdir_events w p) s"
  by (auto simp: WalkDir_def root_events_def walkdir_run_events split: sum.splits prod.splits
      wret.splits dest: run_events_never_skips never_skipsD)

text \<open>A traversal that only collects: each event either contributes to a list or fails.\<close>

fun collect_events :: "(wevent \<Rightarrow> goerr + 'a list) \<Rightarrow> wevent list \<Rightarrow> goerr + 'a list" where
  "collect_events g [] = Inr []"
| "collect_events g (ev # evs) =
     (case g ev of
        Inl e \<Rightarrow> Inl e
      | Inr xs \<Rightarrow> (case collect_events g evs of Inl e \<Rightarrow> Inl e | Inr ys \<Rightarrow> Inr (xs @ ys)))"

lemma collect_events_Inr_iff:
  "collect_events g evs = Inr zs \<longleftrightarrow>
     (\<forall>ev\<in>set evs. \<exists>xs. g ev = Inr xs) \<and> zs = concat (map (\<lambda>ev. projr (g ev)) evs)"
  by (induction evs arbitrary: zs) (fastforce split: sum.splits)+

lemma run_events_collect:
  assumes "\<And>s p fi e. (p, fi, e) \<in> set evs \<Longrightarrow> f s p fi e =
    (case g (p, fi, e) of Inl err \<Rightarrow> (s, WErr err) | Inr xs \<Rightarrow> (s @ xs, WNil))"
  shows "case collect_events g evs of
       Inl err \<Rightarrow> \<exists>s'. run_events f evs s = (s', WErr err)
     | Inr xs \<Rightarrow> run_events f evs s = (s @ xs, WNil)"
  using assms
proof (induction evs arbitrary: s)
  case (Cons ev evs)
  obtain p fi e where "ev = (p, fi, e)" by (cases ev)
  with Cons.prems have f: "f s p fi e =
      (case g ev of Inl err \<Rightarrow> (s, WErr err) | Inr xs \<Rightarrow> (s @ xs, WNil))" for s by simp
  show ?case
  proof (cases "g ev")
    case (Inl err)
    with f \<open>ev = (p, fi, e)\<close> show ?thesis by simp
  next
    case (Inr xs)
    have "case collect_events g evs of
        Inl err \<Rightarrow> \<exists>s'. run_events f evs (s @ xs) = (s', WErr err)
      | Inr ys \<Rightarrow> run_events f evs (s @ xs) = ((s @ xs) @ ys, WNil)"
      by (rule Cons.IH) (simp add: Cons.prems)
    with Inr f \<open>ev = (p, fi, e)\<close> show ?thesis by (auto split: sum.splits)
  qed
qed simp

text \<open>Every event carries a file's information or an error; only a missing root lacks the first.\<close>

definition informed :: "wevent \<Rightarrow> bool" where
  "informed ev = (case ev of (p, fi, e) \<Rightarrow> fi \<noteq> None \<or> e \<noteq> None)"

lemma walk_events_informed:
  shows "ev \<in> set (walk_events p nm n) \<Longrightarrow> informed ev"
    and "ev \<in> set (walk_entry_events p es) \<Longrightarrow> informed ev"
  by (induction p nm n and p es rule: walk_events_walk_entry_events.induct)
     (auto simp: informed_def split: if_splits)

lemma walkdir_events_informed:
  shows "ev \<in> set (walkdir_events p nm n) \<Longrightarrow> informed ev"
    and "ev \<in> set (walkdir_entry_events p es) \<Longrightarrow> informed ev"
  by (induction p nm n and p es rule: walkdir_events_walkdir_entry_events.induct)
     (auto simp: informed_def split: if_splits)

lemma root_events_informed:
  "(\<And>p nm n. ev \<in> set (evs p nm n) \<Longrightarrow> informed ev) \<Longrightarrow> ev \<in> set (root_events evs w r) \<Longrightarrow> informed ev"
  by (auto simp: root_events_def informed_def split: sum.splits)

text \<open>
  The nodes a traversal reaches: through directories that can be listed, never through a
  link. With plain entry names, \<open>WalkDir\<close> visits exactly these, each under its path.
\<close>

inductive below :: "fnode \<Rightarrow> string list \<Rightarrow> fnode \<Rightarrow> bool" where
  here: "below n [] n"
| into: "(c, m) \<in> set es \<Longrightarrow> rd pm \<Longrightarrow> below m ds k \<Longrightarrow> below (DirN pm es) (c # ds) k"

inductive_cases below_NilE: "below n [] k"
inductive_cases below_ConsE: "below n (c # ds) k"
inductive_simps below_Nil_iff [simp]: "below n [] k"
inductive_simps below_Dir_iff: "below (DirN pm es) (c # ds) k"

fun plain_names :: "fnode \<Rightarrow> bool" where
  "plain_names (DirN pm es) \<longleftrightarrow> (\<forall>e\<in>set es. plain (fst e) \<and> plain_names (snd e))"
| "plain_names n \<longleftrightarrow> True"

definition visits :: "string \<Rightarrow> finfo \<Rightarrow> wevent list \<Rightarrow> bool" where
  "visits p fi evs \<longleftrightarrow> (p, Some fi, None) \<in> set evs"

lemma walkdir_entry_events_visits:
  "visits p fi (walkdir_entry_events q es) \<longleftrightarrow>
     (\<exists>(nm, n)\<in>set es. visits p fi (walkdir_events (FJoin [q, nm]) nm n))"
  by (induction es) (auto simp: visits_def)

lemma below_leaf: "below n ds k \<Longrightarrow> node_mode n \<noteq> ModeDir \<Longrightarrow> ds = [] \<and> k = n"
  by (cases rule: below.cases) auto

lemma walkdir_events_below:
  assumes "plain_names n" and "cleaned r cs"
  shows "visits p fi (walkdir_events (render r cs) nm n) \<longleftrightarrow>
    (\<exists>ds k. below n ds k \<and> p = render r (cs @ ds) \<and> fi = info_of (last (nm # ds)) k)"
  using assms
proof (induction n arbitrary: cs nm)
  case (DirN pm es)
  let ?R = "\<lambda>n nm cs ds k. below n ds k \<and> p = render r (cs @ ds) \<and> fi = info_of (last (nm # ds)) k"
  have IH: "visits p fi (walkdir_events (FJoin [render r cs, c]) c m) \<longleftrightarrow>
      (\<exists>ds k. ?R m c (cs @ [c]) ds k)" if "(c, m) \<in> set es" for c m
  proof -
    have "plain c" "plain_names m" using that DirN.prems by auto
    then have "FJoin [render r cs, c] = render r (cs @ [c])" "cleaned r (cs @ [c])"
      using DirN.prems by (simp_all add: FJoin_render cleaned_append_plain)
    then show ?thesis
      using DirN.IH [of "(c, m)" m "cs @ [c]" c] that \<open>plain_names m\<close> by simp
  qed
  have "visits p fi (walkdir_entry_events (render r cs) es) \<longleftrightarrow>
      (\<exists>(c, m)\<in>set es. \<exists>ds k. ?R m c (cs @ [c]) ds k)"
    unfolding walkdir_entry_events_visits
  proof (rule bex_cong [OF refl])
    fix e assume "e \<in> set es"
    moreover obtain c m where e: "e = (c, m)" by (cases e)
    ultimately have "(c, m) \<in> set es" by simp
    then show "(case e of (nm, n) \<Rightarrow> visits p fi (walkdir_events (FJoin [render r cs, nm]) nm n)) =
        (case e of (c, m) \<Rightarrow> \<exists>ds k. ?R m c (cs @ [c]) ds k)"
      unfolding e prod.case by (rule IH)
  qed
  then have "visits p fi (walkdir_events (render r cs) nm (DirN pm es)) \<longleftrightarrow>
      (p = render r cs \<and> fi = info_of nm (DirN pm es)) \<or>
      (rd pm \<and> (\<exists>(c, m)\<in>set es. \<exists>ds k. ?R m c (cs @ [c]) ds k))"
    by (auto simp: visits_def)
  also have "\<dots> \<longleftrightarrow> (\<exists>ds k. ?R (DirN pm es) nm cs ds k)" (is "?A \<or> ?B \<longleftrightarrow> ?C")
  proof
    assume "?A \<or> ?B"
    then show ?C
    proof
      assume ?A
      then show ?C by (intro exI [of _ "[]"]) (auto intro: below.here)
    next
      assume ?B
      then obtain c m ds k where "(c, m) \<in> set es" "rd pm" "?R m c (cs @ [c]) ds k" by auto
      then show ?C by (intro exI [of _ "c # ds"] exI [of _ k]) (auto intro: below.into)
    qed
  next
    assume ?C
    then obtain ds k where R: "?R (DirN pm es) nm cs ds k" by blast
    show "?A \<or> ?B"
    proof (cases ds)
      case Nil
      with R show ?thesis by simp
    next
      case (Cons c ds')
      with R obtain m where "(c, m) \<in> set es" "rd pm" "below m ds' k"
        by (auto simp: below_Dir_iff)
      moreover have "?R m c (cs @ [c]) ds' k"
        using R Cons \<open>below m ds' k\<close> by simp
      ultimately show ?thesis by blast
    qed
  qed
  finally show ?case .
qed (auto simp: visits_def below_leaf dest: below_leaf intro: below.here)


section \<open>The files below a directory\<close>

text \<open>
  The files of a tree whose names satisfy a predicate, as paths relative to its root, depth first
  and in the order of the entries: what a traversal selects by name when every directory can be
  listed.
\<close>

fun listable :: "fnode \<Rightarrow> bool" where
  "listable (DirN pm es) \<longleftrightarrow> rd pm \<and> (\<forall>e\<in>set es. listable (snd e))"
| "listable n \<longleftrightarrow> True"

fun tree_files :: "(string \<Rightarrow> bool) \<Rightarrow> string \<Rightarrow> fnode \<Rightarrow> string list list"
  and entry_files :: "(string \<Rightarrow> bool) \<Rightarrow> (string \<times> fnode) list \<Rightarrow> string list list" where
  "tree_files P nm (DirN pm es) = entry_files P es"
| "tree_files P nm n = (if P nm then [[]] else [])"
| "entry_files P [] = []"
| "entry_files P ((c, n) # es) = map ((#) c) (tree_files P c n) @ entry_files P es"

lemma entry_files_concat: "entry_files P es = concat (map (\<lambda>(c, n). map ((#) c) (tree_files P c n)) es)"
  by (induction es) auto

text \<open>The calls of a traversal that report such a file.\<close>

definition selects :: "(string \<Rightarrow> bool) \<Rightarrow> wevent \<Rightarrow> bool" where
  "selects P ev =
     (case ev of
        (p, Some fi, None) \<Rightarrow> \<not> IsDir fi \<and> P (fi_name fi)
      | _ \<Rightarrow> False)"

lemma walkdir_events_files:
  shows "listable n \<Longrightarrow> plain_names n \<Longrightarrow> cleaned r cs \<Longrightarrow>
      map fst (filter (selects P) (walkdir_events (render r cs) nm n)) =
      map (\<lambda>ds. render r (cs @ ds)) (tree_files P nm n)"
    and "\<forall>e\<in>set es. listable (snd e) \<and> plain (fst e) \<and> plain_names (snd e) \<Longrightarrow> cleaned r cs \<Longrightarrow>
      map fst (filter (selects P) (walkdir_entry_events (render r cs) es)) =
      map (\<lambda>ds. render r (cs @ ds)) (entry_files P es)"
proof (induction P nm n and P es arbitrary: cs and cs rule: tree_files_entry_files.induct)
  case (4 P c n es)
  then have "FJoin [render r cs, c] = render r (cs @ [c])" "cleaned r (cs @ [c])"
    by (simp_all add: FJoin_render cleaned_append_plain)
  with 4 show ?case by (simp add: comp_def)
qed (auto simp: selects_def)

lemma tree_files_below:
  "listable n \<Longrightarrow> ds \<in> set (tree_files P nm n) \<longleftrightarrow>
     (\<exists>k. below n ds k \<and> node_mode k \<noteq> ModeDir \<and> P (last (nm # ds)))"
proof (induction n arbitrary: ds nm)
  case (DirN pm es)
  have IH: "ds \<in> set (tree_files P c m) \<longleftrightarrow> (\<exists>k. below m ds k \<and> node_mode k \<noteq> ModeDir \<and> P (last (c # ds)))"
    if "(c, m) \<in> set es" for c m ds
    using that DirN.prems by (intro DirN.IH) auto
  have "ds \<in> set (entry_files P es) \<longleftrightarrow>
      (\<exists>c m ds'. (c, m) \<in> set es \<and> ds = c # ds' \<and> ds' \<in> set (tree_files P c m))"
    by (auto simp: entry_files_concat)
  also have "\<dots> \<longleftrightarrow> (\<exists>c m ds' k. (c, m) \<in> set es \<and> ds = c # ds' \<and>
      below m ds' k \<and> node_mode k \<noteq> ModeDir \<and> P (last (c # ds')))"
    using IH by blast
  also have "\<dots> \<longleftrightarrow> (\<exists>k. below (DirN pm es) ds k \<and> node_mode k \<noteq> ModeDir \<and> P (last (nm # ds)))"
    using DirN.prems by (cases ds) (auto simp: below_Dir_iff)
  finally show ?case by simp
qed (auto dest: below_leaf)

text \<open>A traversal reports an error exactly when a directory cannot be listed.\<close>

lemma walkdir_events_errors:
  shows "(\<forall>(q, fi, e)\<in>set (walkdir_events p nm n). e = None) \<longleftrightarrow> listable n"
    and "(\<forall>(q, fi, e)\<in>set (walkdir_entry_events p es). e = None) \<longleftrightarrow> (\<forall>e\<in>set es. listable (snd e))"
  by (induction p nm n and p es rule: walkdir_events_walkdir_entry_events.induct) (simp_all add: ball_Un)

text \<open>Where every directory can be listed, the two traversals meet the same files.\<close>

lemma walk_events_listable:
  shows "listable n \<Longrightarrow> walk_events p nm n = walkdir_events p nm n"
    and "\<forall>e\<in>set es. listable (snd e) \<Longrightarrow> walk_entry_events p es = walkdir_entry_events p es"
  by (induction p nm n and p es rule: walk_events_walk_entry_events.induct) auto

lemma walkdir_events_found:
  assumes "listable n" and "ev \<in> set (walkdir_events p nm n)"
  shows "\<exists>q fi. ev = (q, Some fi, None)"
  using walkdir_events_errors(1) [of p nm n] walkdir_events_informed(1) [OF assms(2)] assms
  by (cases ev) (fastforce simp: informed_def)

end
