(* ===== verification/GoUTF8.thy ===== *)
theory GoUTF8
  imports GoStrings
begin

text \<open>
  UTF-8 as package unicode/utf8 reads it: how many bytes the rune at the head of a string takes,
  none when the bytes are not valid, and the encoding of a code point.
\<close>

abbreviation byte :: "char \<Rightarrow> nat" where
  "byte c \<equiv> of_char c"

text \<open>Whether the byte at an index is there and in a range.\<close>

definition within :: "string \<Rightarrow> nat \<Rightarrow> nat \<Rightarrow> nat \<Rightarrow> bool" where
  "within s i lo hi \<longleftrightarrow> i < length s \<and> lo \<le> byte (s ! i) \<and> byte (s ! i) \<le> hi"

text \<open>
  The ranges of the second byte by the first one exclude overlong encodings, surrogates and code
  points beyond the last one.
\<close>

definition rune1 :: "string \<Rightarrow> bool" where
  "rune1 s \<longleftrightarrow> within s 0 0 0x7F"

definition rune2 :: "string \<Rightarrow> bool" where
  "rune2 s \<longleftrightarrow> within s 0 0xC2 0xDF \<and> within s 1 0x80 0xBF"

definition rune3 :: "string \<Rightarrow> bool" where
  "rune3 s \<longleftrightarrow>
     (within s 0 0xE0 0xE0 \<and> within s 1 0xA0 0xBF \<or>
      within s 0 0xE1 0xEC \<and> within s 1 0x80 0xBF \<or>
      within s 0 0xED 0xED \<and> within s 1 0x80 0x9F \<or>
      within s 0 0xEE 0xEF \<and> within s 1 0x80 0xBF) \<and> within s 2 0x80 0xBF"

definition rune4 :: "string \<Rightarrow> bool" where
  "rune4 s \<longleftrightarrow>
     (within s 0 0xF0 0xF0 \<and> within s 1 0x90 0xBF \<or>
      within s 0 0xF1 0xF3 \<and> within s 1 0x80 0xBF \<or>
      within s 0 0xF4 0xF4 \<and> within s 1 0x80 0x8F) \<and> within s 2 0x80 0xBF \<and> within s 3 0x80 0xBF"

definition rune_len :: "string \<Rightarrow> nat" where
  "rune_len s = (if rune1 s then 1 else if rune2 s then 2 else if rune3 s then 3 else if rune4 s then 4 else 0)"

definition encode_rune :: "nat \<Rightarrow> string" where
  "encode_rune r =
     (if r < 0x80 then [char_of r]
      else if r < 0x800 then [char_of (0xC0 + r div 64), char_of (0x80 + r mod 64)]
      else if r < 0x10000 then
        [char_of (0xE0 + r div 4096), char_of (0x80 + r div 64 mod 64), char_of (0x80 + r mod 64)]
      else
        [char_of (0xF0 + r div 262144), char_of (0x80 + r div 4096 mod 64),
         char_of (0x80 + r div 64 mod 64), char_of (0x80 + r mod 64)])"

text \<open>The replacement character.\<close>

definition RuneError :: string where
  "RuneError = encode_rune 0xFFFD"

text \<open>
  The rune at the head of a string and what follows it; an invalid byte is one rune of its own.
\<close>

definition first_rune :: "string \<Rightarrow> string" where
  "first_rune s = take (max 1 (rune_len s)) s"

definition after_rune :: "string \<Rightarrow> string" where
  "after_rune s = drop (max 1 (rune_len s)) s"

lemma rune_split: "first_rune s @ after_rune s = s"
  by (simp add: first_rune_def after_rune_def)

lemma after_rune_shorter [termination_simp]: "length (after_rune (c # s)) < Suc (length s)"
  by (simp add: after_rune_def)

lemma within_append: "i < length s \<Longrightarrow> within (s @ t) i lo hi = within s i lo hi"
  by (simp add: within_def nth_append)

lemma rune_bounds:
  "rune1 s \<Longrightarrow> 1 \<le> length s" "rune2 s \<Longrightarrow> 2 \<le> length s" "rune3 s \<Longrightarrow> 3 \<le> length s" "rune4 s \<Longrightarrow> 4 \<le> length s"
  by (auto simp: rune1_def rune2_def rune3_def rune4_def within_def Suc_le_eq)

lemma rune_append:
  "1 \<le> length s \<Longrightarrow> rune1 (s @ t) = rune1 s" "2 \<le> length s \<Longrightarrow> rune2 (s @ t) = rune2 s"
  "3 \<le> length s \<Longrightarrow> rune3 (s @ t) = rune3 s" "4 \<le> length s \<Longrightarrow> rune4 (s @ t) = rune4 s"
proof -
  note w = within_append
  show "1 \<le> length s \<Longrightarrow> rune1 (s @ t) = rune1 s"
    using w [of 0 s t] by (simp add: rune1_def Suc_le_eq)
  show "2 \<le> length s \<Longrightarrow> rune2 (s @ t) = rune2 s"
    using w [of 0 s t] w [of 1 s t] by (cases "s = []") (simp_all add: rune2_def)
  show "3 \<le> length s \<Longrightarrow> rune3 (s @ t) = rune3 s"
    using w [of 0 s t] w [of 1 s t] w [of 2 s t] by (cases "s = []") (simp_all add: rune3_def)
  show "4 \<le> length s \<Longrightarrow> rune4 (s @ t) = rune4 s"
    using w [of 0 s t] w [of 1 s t] w [of 2 s t] w [of 3 s t] by (cases "s = []") (simp_all add: rune4_def)
qed

lemma rune_len_le: "rune_len s \<le> length s"
  using rune_bounds by (simp add: rune_len_def)

text \<open>What follows a valid rune does not matter.\<close>

lemma rune_len_append: "rune_len s \<noteq> 0 \<Longrightarrow> rune_len (s @ t) = rune_len s"
  using rune_bounds [of s] by (auto simp: rune_len_def rune_append split: if_splits)

lemma rune1_Cons: "rune1 (c # s) \<longleftrightarrow> ascii c"
  by (auto simp: rune1_def within_def ascii_def)

lemma rune_len_ascii: "ascii c \<Longrightarrow> rune_len (c # s) = 1"
  by (simp add: rune_len_def rune1_Cons)

lemma rune_len_not_ascii: "\<not> ascii c \<Longrightarrow> rune_len (c # s) \<noteq> 1"
  by (simp add: rune_len_def rune1_Cons)

text \<open>Valid strings, and strings with every invalid byte replaced.\<close>

function valid_utf8 :: "string \<Rightarrow> bool" where
  "valid_utf8 [] = True"
| "valid_utf8 (c # s) = (rune_len (c # s) \<noteq> 0 \<and> valid_utf8 (after_rune (c # s)))"
  by pat_completeness auto
termination by (relation "measure length") (simp_all add: after_rune_shorter)

function to_valid :: "string \<Rightarrow> string" where
  "to_valid [] = []"
| "to_valid (c # s) =
     (if rune_len (c # s) = 0 then RuneError else first_rune (c # s)) @ to_valid (after_rune (c # s))"
  by pat_completeness auto
termination by (relation "measure length") (simp_all add: after_rune_shorter)

lemma to_valid_eq: "valid_utf8 s \<Longrightarrow> to_valid s = s"
  by (induction s rule: to_valid.induct) (simp_all add: rune_split)

lemma valid_ascii: "list_all ascii s \<Longrightarrow> valid_utf8 s"
proof (induction s)
  case (Cons c s)
  then have "rune_len (c # s) = 1" by (simp add: rune_len_ascii)
  with Cons show ?case by (simp add: after_rune_def)
qed simp

end
