(* ===== verification/GoIO.thy ===== *)
theory GoIO
  imports GoFS
begin

text \<open>
  Readers: \<open>io.ReadAll\<close>, the response of \<open>http.Get\<close>, and \<open>bufio.Scanner\<close> with its
  default split function. The scanner delivers the lines of the input without their line
  ends, one carriage return before a line end included in it; it stops with an error at a line
  of 64 KiB or more, and an error of the reader is reported after the last (partial) line.
\<close>

section \<open>Responses\<close>

record http_response =
  StatusCode :: int
  Body :: reader

definition ReadAll :: "reader \<Rightarrow> goerr + string" where
  "ReadAll r = (case snd r of None \<Rightarrow> Inr (fst r) | Some e \<Rightarrow> Inl e)"


section \<open>Scanning lines\<close>

definition newline :: char where
  "newline = CHR 0x0A"

definition carriage_return :: char where
  "carriage_return = CHR 0x0D"

definition drop_cr :: "string \<Rightarrow> string" where
  "drop_cr s = (if s \<noteq> [] \<and> last s = carriage_return then butlast s else s)"

definition MaxScanTokenSize :: nat where
  "MaxScanTokenSize = 65536"

definition ErrTooLong :: goerr where
  "ErrTooLong = ErrorString ''bufio.Scanner: token too long''"

definition raw_lines :: "string \<Rightarrow> string list" where
  "raw_lines s = (let ps = Split newline s in if last ps = [] then butlast ps else ps)"

definition token_fits :: "string \<Rightarrow> bool" where
  "token_fits l \<longleftrightarrow> length l < MaxScanTokenSize"

definition scan_text :: "reader \<Rightarrow> string list" where
  "scan_text r = map drop_cr (takeWhile token_fits (raw_lines (fst r)))"

definition scan_err :: "reader \<Rightarrow> goerr option" where
  "scan_err r = (if list_all token_fits (raw_lines (fst r)) then snd r else Some ErrTooLong)"

text \<open>A text line: no line end in it, no carriage return at its end, and short enough.\<close>

definition text_line :: "string \<Rightarrow> bool" where
  "text_line l \<longleftrightarrow>
     newline \<notin> set l \<and> (l \<noteq> [] \<longrightarrow> last l \<noteq> carriage_return) \<and> length l < MaxScanTokenSize"

definition unlines :: "string list \<Rightarrow> string" where
  "unlines ls = concat (map (\<lambda>l. l @ [newline]) ls)"

lemma unlines_simps [simp]:
  "unlines [] = []" "unlines (l # ls) = l @ newline # unlines ls"
  "unlines (ls @ ls') = unlines ls @ unlines ls'"
  by (simp_all add: unlines_def)

lemma Split_unlines: "list_all text_line ls \<Longrightarrow> Split newline (unlines ls) = ls @ [[]]"
  by (induction ls) (simp_all add: text_line_def Split_append_sep)

lemma raw_lines_unlines: "list_all text_line ls \<Longrightarrow> raw_lines (unlines ls) = ls"
  by (simp add: raw_lines_def Split_unlines Let_def)

lemma text_line_fits: "text_line l \<Longrightarrow> token_fits l" "text_line l \<Longrightarrow> drop_cr l = l"
  by (auto simp: text_line_def token_fits_def drop_cr_def)

text \<open>Scanning what was written line by line gives the lines back.\<close>

lemma scan_unlines:
  assumes "list_all text_line ls"
  shows "scan_text (unlines ls, e) = ls" and "scan_err (unlines ls, e) = e"
proof -
  have fits: "takeWhile token_fits ls = ls" and same: "map drop_cr ls = ls"
    using assms by (auto simp: list_all_iff text_line_fits takeWhile_eq_all_conv intro: map_idI)
  show "scan_text (unlines ls, e) = ls"
    unfolding scan_text_def fst_conv raw_lines_unlines [OF assms] fits by (rule same)
  show "scan_err (unlines ls, e) = e"
    using assms by (auto simp: scan_err_def raw_lines_unlines list_all_iff text_line_fits)
qed

lemma raw_lines_no_newline: "l \<in> set (raw_lines s) \<Longrightarrow> newline \<notin> set l"
  using Split_pieces [of l newline s]
  by (auto simp: raw_lines_def Let_def split: if_splits dest: in_set_butlastD)

lemma scan_text_no_newline:
  assumes "l \<in> set (scan_text r)"
  shows "newline \<notin> set l"
proof -
  from assms obtain l' where "l' \<in> set (raw_lines (fst r))" and "l = drop_cr l'"
    by (auto simp: scan_text_def dest: set_takeWhile_subset)
  then show ?thesis
    using raw_lines_no_newline [of l' "fst r"] by (auto simp: drop_cr_def dest: in_set_butlastD)
qed

text \<open>Nothing is lost: without a carriage return the lines spell the input, up to a final line end.\<close>

lemma Join_butlast_last: "xs \<noteq> [] \<Longrightarrow> Join xs [c] @ [c] = concat (map (\<lambda>l. l @ [c]) xs)"
proof (induction xs)
  case (Cons x xs)
  then show ?case by (cases xs) simp_all
qed simp

lemma unlines_raw_lines: "unlines (raw_lines s) = s \<or> unlines (raw_lines s) = s @ [newline]"
proof -
  let ?ps = "Split newline s"
  have all: "unlines ?ps = s @ [newline]"
    using Join_butlast_last [of ?ps newline] by (simp add: unlines_def Join_Split)
  show ?thesis
  proof (cases "last ?ps = []")
    case True
    then have "?ps = butlast ?ps @ [[]]" by (metis Split_neq_Nil append_butlast_last_id)
    then have "unlines (butlast ?ps) @ [newline] = s @ [newline]"
      using all by (metis append_Nil unlines_simps)
    with True show ?thesis by (simp add: raw_lines_def Let_def)
  next
    case False
    with all show ?thesis by (simp add: raw_lines_def Let_def)
  qed
qed

end
