(* ===== verification/GoJSON.thy ===== *)
theory GoJSON
  imports GoUTF8 GoIO
begin

text \<open>
  Package encoding/json on the documents the program writes and reads: values, their text, and
  the reading of one value from the text, with what follows it. Strings are byte sequences, so
  both directions handle UTF-8 as the package does: invalid bytes become the replacement
  character, the two line separators of Unicode are escaped. Numbers keep their text. The text
  of a syntax error is not modelled.
\<close>

datatype json = JNull | JBool bool | JNum string | JStr string | JArr "json list"
  | JObj "(string \<times> json) list"

definition quote_mark :: char where
  "quote_mark = CHR 0x22"

definition json_backslash :: char where
  "json_backslash = CHR 0x5C"


section \<open>Writing\<close>

definition json_char :: "char \<Rightarrow> string" where
  "json_char c =
     (let n = (of_char c :: nat) in
      if n = 34 \<or> n = 92 then [CHR 0x5C, c]
      else if n = 8 then [CHR 0x5C, CHR ''b'']
      else if n = 12 then [CHR 0x5C, CHR ''f'']
      else if n = 10 then [CHR 0x5C, CHR ''n'']
      else if n = 13 then [CHR 0x5C, CHR ''r'']
      else if n = 9 then [CHR 0x5C, CHR ''t'']
      else if n < 32 \<or> n = 60 \<or> n = 62 \<or> n = 38
      then [CHR 0x5C, CHR ''u'', CHR ''0'', CHR ''0'', hex_digit (n div 16), hex_digit (n mod 16)]
      else [c])"

definition LineSeparator :: string where
  "LineSeparator = encode_rune 0x2028"

definition ParagraphSeparator :: string where
  "ParagraphSeparator = encode_rune 0x2029"

text \<open>The text for the rune at the head of a string.\<close>

definition json_rune :: "string \<Rightarrow> string" where
  "json_rune s =
     (if ascii (hd s) then json_char (hd s)
      else if rune_len s = 0 then json_backslash # ''ufffd''
      else if first_rune s = LineSeparator then json_backslash # ''u2028''
      else if first_rune s = ParagraphSeparator then json_backslash # ''u2029''
      else first_rune s)"

function json_escape :: "string \<Rightarrow> string" where
  "json_escape [] = []"
| "json_escape (c # s) = json_rune (c # s) @ json_escape (after_rune (c # s))"
  by pat_completeness auto
termination by (relation "measure length") (simp_all add: after_rune_shorter)

definition json_string :: "string \<Rightarrow> string" where
  "json_string s = [quote_mark] @ json_escape s @ [quote_mark]"

definition json_array :: "string list \<Rightarrow> string" where
  "json_array xs = ''['' @ Join xs '','' @ '']''"

definition json_object :: "(string \<times> string) list \<Rightarrow> string" where
  "json_object kvs = ''{'' @ Join (map (\<lambda>(k, v). json_string k @ '':'' @ v) kvs) '','' @ ''}''"

fun show_json :: "json \<Rightarrow> string" where
  "show_json JNull = ''null''"
| "show_json (JBool b) = (if b then ''true'' else ''false'')"
| "show_json (JNum t) = t"
| "show_json (JStr s) = json_string s"
| "show_json (JArr js) = json_array (map show_json js)"
| "show_json (JObj kvs) = json_object (map (\<lambda>(k, j). (k, show_json j)) kvs)"


section \<open>Reading strings\<close>

text \<open>Input that ends too early, and input that cannot be continued to a value.\<close>

datatype jerr = JTruncated | JSyntax

definition hex_val :: "char \<Rightarrow> nat option" where
  "hex_val c =
     (let n = byte c in
      if 48 \<le> n \<and> n \<le> 57 then Some (n - 48)
      else if 97 \<le> n \<and> n \<le> 102 then Some (n - 87)
      else if 65 \<le> n \<and> n \<le> 70 then Some (n - 55)
      else None)"

definition hex4 :: "string \<Rightarrow> jerr + nat \<times> string" where
  "hex4 s =
     (case those (map hex_val (take 4 s)) of
        None \<Rightarrow> Inl JSyntax
      | Some ds \<Rightarrow>
          if length ds < 4 then Inl JTruncated
          else Inr (foldl (\<lambda>a d. a * 16 + d) 0 ds, drop 4 s))"

definition is_surrogate :: "nat \<Rightarrow> bool" where
  "is_surrogate n \<longleftrightarrow> 0xD800 \<le> n \<and> n < 0xE000"

text \<open>A high and a low surrogate make one code point; any other surrogate is replaced.\<close>

definition surrogate_item :: "nat \<Rightarrow> string \<Rightarrow> string \<times> string" where
  "surrogate_item n r =
     (case r of
        a # b # r2 \<Rightarrow>
          (case hex4 r2 of
             Inr (m, r3) \<Rightarrow>
               if a = json_backslash \<and> b = CHR ''u'' \<and> n < 0xDC00 \<and> 0xDC00 \<le> m \<and> m < 0xE000
               then (encode_rune (0x10000 + (n - 0xD800) * 1024 + (m - 0xDC00)), r3)
               else (RuneError, r)
           | Inl e \<Rightarrow> (RuneError, r))
      | _ \<Rightarrow> (RuneError, r))"

definition unicode_item :: "string \<Rightarrow> jerr + string \<times> string" where
  "unicode_item s =
     (case hex4 s of
        Inl e \<Rightarrow> Inl e
      | Inr (n, r) \<Rightarrow> Inr (if is_surrogate n then surrogate_item n r else (encode_rune n, r)))"

definition escape_item :: "string \<Rightarrow> jerr + string \<times> string" where
  "escape_item s =
     (case s of
        [] \<Rightarrow> Inl JTruncated
      | e # r \<Rightarrow>
          if e = quote_mark \<or> e = json_backslash \<or> e = CHR ''/'' then Inr ([e], r)
          else if e = CHR ''b'' then Inr ([char_of (8 :: nat)], r)
          else if e = CHR ''f'' then Inr ([char_of (12 :: nat)], r)
          else if e = CHR ''n'' then Inr ([char_of (10 :: nat)], r)
          else if e = CHR ''r'' then Inr ([char_of (13 :: nat)], r)
          else if e = CHR ''t'' then Inr ([char_of (9 :: nat)], r)
          else if e = CHR ''u'' then unicode_item r
          else Inl JSyntax)"

text \<open>One item of a string literal: the end, or the bytes it stands for.\<close>

definition string_item :: "string \<Rightarrow> jerr + string option \<times> string" where
  "string_item s =
     (case s of
        [] \<Rightarrow> Inl JTruncated
      | c # r \<Rightarrow>
          if c = quote_mark then Inr (None, r)
          else if c = json_backslash
          then (case escape_item r of Inl e \<Rightarrow> Inl e | Inr (b, r) \<Rightarrow> Inr (Some b, r))
          else if byte c < 32 then Inl JSyntax
          else Inr (Some (if rune_len s = 0 then RuneError else first_rune s), after_rune s))"

text \<open>Every item shortens the input; the test on lengths never fails.\<close>

function read_string :: "string \<Rightarrow> jerr + string \<times> string" where
  "read_string s =
     (case string_item s of
        Inl e \<Rightarrow> Inl e
      | Inr (None, r) \<Rightarrow> Inr ([], r)
      | Inr (Some b, r) \<Rightarrow>
          if length r < length s
          then (case read_string r of Inl e \<Rightarrow> Inl e | Inr (t, r) \<Rightarrow> Inr (b @ t, r))
          else Inl JSyntax)"
  by pat_completeness auto
termination by (relation "measure length") auto

declare read_string.simps [simp del]

lemma hex4_shorter: "hex4 s = Inr (n, r) \<Longrightarrow> length r < length s"
proof -
  assume h: "hex4 s = Inr (n, r)"
  have "those xs = Some ds \<Longrightarrow> length ds = length xs" for xs :: "nat option list" and ds
    by (induction xs arbitrary: ds) (auto split: option.splits)
  with h show ?thesis by (fastforce simp: hex4_def split: option.splits if_splits)
qed

lemma surrogate_item_shorter: "surrogate_item n r = (b, r') \<Longrightarrow> length r' \<le> length r"
  by (auto simp: surrogate_item_def split: list.splits sum.splits if_splits dest!: hex4_shorter)

lemma string_item_shorter: "string_item s = Inr (b, r) \<Longrightarrow> length r < length s"
  using after_rune_shorter
  by (auto simp: string_item_def escape_item_def unicode_item_def
      split: list.splits if_splits sum.splits dest!: hex4_shorter surrogate_item_shorter)

lemma read_string_shorter: "read_string s = Inr (b, r) \<Longrightarrow> length r < length s"
proof (induction s arbitrary: b r rule: read_string.induct)
  case (1 s)
  from "1.prems" obtain bo r1 where item: "string_item s = Inr (bo, r1)"
    by (subst (asm) read_string.simps) (auto split: sum.splits)
  show ?case
  proof (cases bo)
    case None
    with item "1.prems" string_item_shorter [OF item] show ?thesis by (subst (asm) read_string.simps) simp
  next
    case (Some b1)
    with item "1.prems" obtain t where "read_string r1 = Inr (t, r)" "length r1 < length s"
      by (subst (asm) read_string.simps) (auto split: sum.splits if_splits)
    with "1.IH" [OF item refl Some this(2)] show ?thesis by fastforce
  qed
qed


section \<open>Reading values\<close>

definition json_space :: "char \<Rightarrow> bool" where
  "json_space c \<longleftrightarrow> byte c \<in> {32, 9, 10, 13}"

definition skip_ws :: "string \<Rightarrow> string" where
  "skip_ws s = dropWhile json_space s"

text \<open>A literal word.\<close>

fun read_word :: "string \<Rightarrow> string \<Rightarrow> jerr + string" where
  "read_word [] s = Inr s"
| "read_word (c # w) [] = Inl JTruncated"
| "read_word (c # w) (d # s) = (if c = d then read_word w s else Inl JSyntax)"

text \<open>
  A number: an optional sign, digits without a leading zero, an optional fraction and an optional
  exponent, each with at least one digit.
\<close>

definition read_digits :: "string \<Rightarrow> jerr + string \<times> string" where
  "read_digits s =
     (case s of
        [] \<Rightarrow> Inl JTruncated
      | c # r \<Rightarrow> if is_digit c then Inr (takeWhile is_digit s, dropWhile is_digit s) else Inl JSyntax)"

definition read_natural :: "string \<Rightarrow> jerr + string \<times> string" where
  "read_natural s =
     (case s of
        c # r \<Rightarrow> if c = CHR ''0'' then Inr ([c], r) else read_digits s
      | [] \<Rightarrow> Inl JTruncated)"

definition read_fraction :: "string \<Rightarrow> jerr + string \<times> string" where
  "read_fraction s =
     (case s of
        c # r \<Rightarrow>
          if c = CHR ''.'' then (case read_digits r of Inl e \<Rightarrow> Inl e | Inr (t, r) \<Rightarrow> Inr (c # t, r))
          else Inr ([], s)
      | [] \<Rightarrow> Inr ([], s))"

definition read_exponent :: "string \<Rightarrow> jerr + string \<times> string" where
  "read_exponent s =
     (case s of
        c # r \<Rightarrow>
          if c = CHR ''e'' \<or> c = CHR ''E'' then
            (case r of
               d # r2 \<Rightarrow>
                 if d = CHR ''+'' \<or> d = CHR ''-''
                 then (case read_digits r2 of Inl e \<Rightarrow> Inl e | Inr (t, r) \<Rightarrow> Inr (c # d # t, r))
                 else (case read_digits r of Inl e \<Rightarrow> Inl e | Inr (t, r) \<Rightarrow> Inr (c # t, r))
             | [] \<Rightarrow> Inl JTruncated)
          else Inr ([], s)
      | [] \<Rightarrow> Inr ([], s))"

definition read_number :: "string \<Rightarrow> jerr + string \<times> string" where
  "read_number s =
     (let (sign, s) = (case s of c # r \<Rightarrow> if c = CHR ''-'' then ([c], r) else ([], s) | [] \<Rightarrow> ([], s)) in
      case read_natural s of
        Inl e \<Rightarrow> Inl e
      | Inr (n, s) \<Rightarrow>
          (case read_fraction s of
             Inl e \<Rightarrow> Inl e
           | Inr (f, s) \<Rightarrow>
               (case read_exponent s of
                  Inl e \<Rightarrow> Inl e
                | Inr (x, s) \<Rightarrow> Inr (sign @ n @ f @ x, s))))"

lemma skip_ws_Cons: "skip_ws s = c # t \<Longrightarrow> length t < length s"
  using length_dropWhile_le [of json_space s] by (simp add: skip_ws_def)

text \<open>
  One value and the rest of the input; the first argument bounds the nesting of arrays and
  objects. The tests on lengths, which never fail, make the recursion terminate.
\<close>

function (sequential) read_json :: "nat \<Rightarrow> string \<Rightarrow> jerr + json \<times> string"
  and read_elems :: "nat \<Rightarrow> string \<Rightarrow> jerr + json list \<times> string"
  and read_members :: "nat \<Rightarrow> string \<Rightarrow> jerr + (string \<times> json) list \<times> string" where
  "read_json d s =
     (case skip_ws s of
        [] \<Rightarrow> Inl JTruncated
      | c # t \<Rightarrow>
          if c = quote_mark
          then (case read_string t of Inl e \<Rightarrow> Inl e | Inr (b, r) \<Rightarrow> Inr (JStr b, r))
          else if c = CHR ''['' then
            (if d = 0 then Inl JSyntax
             else case skip_ws t of
               [] \<Rightarrow> Inl JTruncated
             | k # r \<Rightarrow>
                 if k = CHR '']'' then Inr (JArr [], r)
                 else (case read_elems (d - 1) t of Inl e \<Rightarrow> Inl e | Inr (js, r) \<Rightarrow> Inr (JArr js, r)))
          else if c = CHR ''{'' then
            (if d = 0 then Inl JSyntax
             else case skip_ws t of
               [] \<Rightarrow> Inl JTruncated
             | k # r \<Rightarrow>
                 if k = CHR ''}'' then Inr (JObj [], r)
                 else (case read_members (d - 1) t of Inl e \<Rightarrow> Inl e | Inr (kvs, r) \<Rightarrow> Inr (JObj kvs, r)))
          else if c = CHR ''n'' then (case read_word ''ull'' t of Inl e \<Rightarrow> Inl e | Inr r \<Rightarrow> Inr (JNull, r))
          else if c = CHR ''t'' then (case read_word ''rue'' t of Inl e \<Rightarrow> Inl e | Inr r \<Rightarrow> Inr (JBool True, r))
          else if c = CHR ''f'' then (case read_word ''alse'' t of Inl e \<Rightarrow> Inl e | Inr r \<Rightarrow> Inr (JBool False, r))
          else (case read_number (c # t) of Inl e \<Rightarrow> Inl e | Inr (n, r) \<Rightarrow> Inr (JNum n, r)))"
| "read_elems d s =
     (case read_json d s of
        Inl e \<Rightarrow> Inl e
      | Inr (j, r) \<Rightarrow>
          (case skip_ws r of
             [] \<Rightarrow> Inl JTruncated
           | k # r2 \<Rightarrow>
               if k = CHR '']'' then Inr ([j], r2)
               else if k = CHR '','' \<and> length r2 < length s
               then (case read_elems d r2 of Inl e \<Rightarrow> Inl e | Inr (js, r) \<Rightarrow> Inr (j # js, r))
               else Inl JSyntax))"
| "read_members d s =
     (case skip_ws s of
        [] \<Rightarrow> Inl JTruncated
      | c # t \<Rightarrow>
          if c \<noteq> quote_mark then Inl JSyntax
          else (case read_string t of
             Inl e \<Rightarrow> Inl e
           | Inr (key, r) \<Rightarrow>
               (case skip_ws r of
                  [] \<Rightarrow> Inl JTruncated
                | k # r1 \<Rightarrow>
                    if k \<noteq> CHR '':'' \<or> length r1 \<ge> length s then Inl JSyntax
                    else (case read_json d r1 of
                       Inl e \<Rightarrow> Inl e
                     | Inr (j, r) \<Rightarrow>
                         (case skip_ws r of
                            [] \<Rightarrow> Inl JTruncated
                          | k # r2 \<Rightarrow>
                              if k = CHR ''}'' then Inr ([(key, j)], r2)
                              else if k = CHR '','' \<and> length r2 < length s
                              then (case read_members d r2 of
                                      Inl e \<Rightarrow> Inl e | Inr (kvs, r) \<Rightarrow> Inr ((key, j) # kvs, r))
                              else Inl JSyntax)))))"
  by pat_completeness auto
termination
  by (relation "measure (\<lambda>x. case x of Inl (d, s) \<Rightarrow> 2 * length s
        | Inr (Inl (d, s)) \<Rightarrow> 2 * length s + 1 | Inr (Inr (d, s)) \<Rightarrow> 2 * length s + 1)")
    (auto dest!: skip_ws_Cons)

declare read_json.simps [simp del] read_elems.simps [simp del] read_members.simps [simp del]


section \<open>Strings read back\<close>

lemma hex_val_digit: "k < 16 \<Longrightarrow> hex_val (hex_digit k) = Some k"
  by (simp add: hex_digit_def hex_val_def)

lemma hex4_Cons:
  "hex_val a = Some i \<Longrightarrow> hex_val b = Some j \<Longrightarrow> hex_val c = Some k \<Longrightarrow> hex_val d = Some l \<Longrightarrow>
   hex4 (a # b # c # d # t) = Inr (((i * 16 + j) * 16 + k) * 16 + l, t)"
  by (simp add: hex4_def)

lemma hex_val_chars:
  "hex_val CHR ''0'' = Some 0" "hex_val CHR ''2'' = Some 2" "hex_val CHR ''8'' = Some 8" "hex_val CHR ''9'' = Some 9"
  "hex_val CHR ''d'' = Some 13" "hex_val CHR ''f'' = Some 15"
  by (simp_all add: hex_val_def)

lemma hex4_digits:
  "a < 16 \<Longrightarrow> b < 16 \<Longrightarrow> hex4 (CHR ''0'' # CHR ''0'' # hex_digit a # hex_digit b # t) = Inr (a * 16 + b, t)"
  using hex4_Cons [OF hex_val_chars(1,1) hex_val_digit hex_val_digit] by simp

lemma hex4_separators:
  "hex4 (CHR ''f'' # CHR ''f'' # CHR ''f'' # CHR ''d'' # t) = Inr (0xFFFD, t)"
  "hex4 (CHR ''2'' # CHR ''0'' # CHR ''2'' # CHR ''8'' # t) = Inr (0x2028, t)"
  "hex4 (CHR ''2'' # CHR ''0'' # CHR ''2'' # CHR ''9'' # t) = Inr (0x2029, t)"
  by (simp_all add: hex4_Cons hex_val_chars)

lemma rune_len_first: "rune_len s \<noteq> 0 \<Longrightarrow> rune_len (first_rune s) = rune_len s"
proof -
  assume n: "rune_len s \<noteq> 0"
  let ?n = "rune_len s" let ?a = "take ?n s"
  have len: "length ?a = ?n" using rune_len_le [of s] by simp
  have s: "s = ?a @ drop ?n s" by simp
  have "rune_len ?a = ?n"
    using rune_append [of ?a "drop ?n s"] len n
    by (auto simp: rune_len_def split: if_splits)
  with n show ?thesis by (simp add: first_rune_def max_def Suc_le_eq)
qed

lemma rune_first_append:
  assumes "rune_len s \<noteq> 0"
  shows "rune_len (first_rune s @ t) = rune_len s" and "first_rune (first_rune s @ t) = first_rune s"
    and "after_rune (first_rune s @ t) = t"
proof -
  show r: "rune_len (first_rune s @ t) = rune_len s"
    using rune_len_append [of "first_rune s" t] rune_len_first [OF assms] assms by simp
  have len: "length (first_rune s) = rune_len s"
    using rune_len_le [of s] assms by (simp add: first_rune_def max_def)
  show "first_rune (first_rune s @ t) = first_rune s"
    using assms len by (subst first_rune_def) (simp add: r max_def)
  show "after_rune (first_rune s @ t) = t"
    using assms len by (subst after_rune_def) (simp add: r max_def)
qed

lemma string_item_plain:
  assumes "c \<noteq> quote_mark" and "c \<noteq> json_backslash" and "\<not> byte c < 32"
  shows "string_item (c # r) =
    Inr (Some (if rune_len (c # r) = 0 then RuneError else first_rune (c # r)), after_rune (c # r))"
  using assms by (simp add: string_item_def)

lemma string_item_escape:
  "string_item (json_backslash # r) =
    (case escape_item r of Inl e \<Rightarrow> Inl e | Inr (b, r) \<Rightarrow> Inr (Some b, r))"
proof -
  have "json_backslash \<noteq> quote_mark" by (simp add: json_backslash_def quote_mark_def)
  then show ?thesis by (simp add: string_item_def)
qed

lemma unicode_item_hex4:
  "hex4 s = Inr (n, r) \<Longrightarrow> \<not> is_surrogate n \<Longrightarrow> escape_item (CHR ''u'' # s) = Inr (encode_rune n, r)"
  by (simp add: escape_item_def unicode_item_def quote_mark_def json_backslash_def)

lemma char_of_byte: "byte c = n \<Longrightarrow> c = char_of n"
  by auto

lemma marks: "byte c = 34 \<Longrightarrow> c = quote_mark" "byte c = 92 \<Longrightarrow> c = json_backslash"
proof -
  have "byte quote_mark = 34" "byte json_backslash = 92" by (simp_all add: quote_mark_def json_backslash_def)
  then show "byte c = 34 \<Longrightarrow> c = quote_mark" "byte c = 92 \<Longrightarrow> c = json_backslash"
    using char_of_byte [of c] char_of_byte [of quote_mark] char_of_byte [of json_backslash] by auto
qed

lemma string_item_short_escape:
  "e \<in> {quote_mark, json_backslash} \<Longrightarrow> string_item (json_backslash # e # t) = Inr (Some [e], t)"
  "string_item (json_backslash # CHR ''b'' # t) = Inr (Some [char_of (8 :: nat)], t)"
  "string_item (json_backslash # CHR ''f'' # t) = Inr (Some [char_of (12 :: nat)], t)"
  "string_item (json_backslash # CHR ''n'' # t) = Inr (Some [char_of (10 :: nat)], t)"
  "string_item (json_backslash # CHR ''r'' # t) = Inr (Some [char_of (13 :: nat)], t)"
  "string_item (json_backslash # CHR ''t'' # t) = Inr (Some [char_of (9 :: nat)], t)"
  unfolding string_item_escape by (auto simp: escape_item_def quote_mark_def json_backslash_def)

lemma string_item_unicode:
  "hex4 s = Inr (n, t) \<Longrightarrow> \<not> is_surrogate n \<Longrightarrow>
   string_item (json_backslash # CHR ''u'' # s) = Inr (Some (encode_rune n), t)"
  by (simp add: string_item_escape unicode_item_hex4)

lemma string_item_json_char:
  assumes "ascii c"
  shows "string_item (json_char c @ t) = Inr (Some [c], t)"
proof -
  let ?n = "byte c"
  have n: "?n < 128" using assms by (simp add: ascii_def)
  consider "?n = 34 \<or> ?n = 92" | "?n = 8" | "?n = 12" | "?n = 10" | "?n = 13" | "?n = 9"
    | "?n \<noteq> 34" "?n \<noteq> 92" "?n \<notin> {8, 12, 10, 13, 9}" "?n < 32 \<or> ?n = 60 \<or> ?n = 62 \<or> ?n = 38"
    | "?n \<noteq> 34" "?n \<noteq> 92" "\<not> ?n < 32" "?n \<noteq> 60" "?n \<noteq> 62" "?n \<noteq> 38" by auto
  then show ?thesis
  proof cases
    case 1
    then have "c \<in> {quote_mark, json_backslash}" using marks [of c] by auto
    with 1 string_item_short_escape(1) [of c t] show ?thesis
      by (simp only: json_char_def Let_def json_backslash_def if_True append.simps)
  next
    case 7
    have hex: "hex4 (CHR ''0'' # CHR ''0'' # hex_digit (?n div 16) # hex_digit (?n mod 16) # t) = Inr (?n, t)"
      using hex4_digits [of "?n div 16" "?n mod 16" t] n by simp
    have "\<not> is_surrogate ?n" "encode_rune ?n = [c]" using n by (simp_all add: is_surrogate_def encode_rune_def)
    with 7 string_item_unicode [OF hex] show ?thesis by (simp add: json_char_def json_backslash_def Let_def)
  next
    case 8
    then have "c \<noteq> quote_mark" "c \<noteq> json_backslash" by (auto simp: quote_mark_def json_backslash_def)
    with 8 string_item_plain [of c t] rune_len_ascii [OF assms, of t] show ?thesis
      by (auto simp: json_char_def first_rune_def after_rune_def)
  qed (use char_of_byte [of c] string_item_short_escape in \<open>simp_all add: json_char_def json_backslash_def Let_def\<close>)
qed

lemma string_item_json_rune:
  "string_item (json_rune (c # s) @ t) =
    Inr (Some (if rune_len (c # s) = 0 then RuneError else first_rune (c # s)), t)"
proof -
  let ?s = "c # s"
  consider "ascii c" | "\<not> ascii c" "rune_len ?s = 0" | "\<not> ascii c" "rune_len ?s \<noteq> 0" "first_rune ?s = LineSeparator"
    | "\<not> ascii c" "rune_len ?s \<noteq> 0" "first_rune ?s \<noteq> LineSeparator" "first_rune ?s = ParagraphSeparator"
    | "\<not> ascii c" "rune_len ?s \<noteq> 0" "first_rune ?s \<noteq> LineSeparator" "first_rune ?s \<noteq> ParagraphSeparator"
    by blast
  then show ?thesis
  proof cases
    case 1
    then show ?thesis
      using string_item_json_char [OF 1] by (simp add: json_rune_def rune_len_ascii first_rune_def)
  next
    case 2
    then show ?thesis
      using string_item_unicode [OF hex4_separators(1)] by (simp add: json_rune_def is_surrogate_def RuneError_def)
  next
    case 3
    then show ?thesis
      using string_item_unicode [OF hex4_separators(2)] by (simp add: json_rune_def is_surrogate_def LineSeparator_def)
  next
    case 4
    then show ?thesis
      using string_item_unicode [OF hex4_separators(3)]
      by (simp add: json_rune_def is_surrogate_def ParagraphSeparator_def)
  next
    case 5
    from 5(1) have c: "c \<noteq> quote_mark" "c \<noteq> json_backslash" "\<not> byte c < 32"
      by (auto simp: ascii_def quote_mark_def json_backslash_def)
    have "first_rune ?s = c # tl (first_rune ?s)" by (simp add: first_rune_def take_Cons')
    then obtain r where r: "first_rune ?s @ t = c # r" by (metis append_Cons)
    have "string_item (first_rune ?s @ t) = Inr (Some (first_rune ?s), t)"
      using string_item_plain [OF c, of r] rune_first_append [OF 5(2), of t] 5(2) by (simp add: r)
    with 5 show ?thesis by (simp add: json_rune_def)
  qed
qed

lemma read_string_step:
  "string_item s = Inr (Some b, r) \<Longrightarrow> read_string r = Inr (u, t) \<Longrightarrow> read_string s = Inr (b @ u, t)"
  using string_item_shorter [of s "Some b" r] by (subst read_string.simps) simp

lemma read_string_escape: "read_string (json_escape s @ quote_mark # t) = Inr (to_valid s, t)"
proof (induction s rule: json_escape.induct)
  case 1
  then show ?case by (subst read_string.simps) (simp add: string_item_def)
next
  case (2 c s)
  show ?case
    using read_string_step [OF string_item_json_rune 2] by (simp only: json_escape.simps to_valid.simps append_assoc)
qed


section \<open>Values read back\<close>

text \<open>A value with the invalid bytes of its strings replaced, and values of a bounded nesting without numbers.\<close>

fun clean_json :: "json \<Rightarrow> json" where
  "clean_json (JStr s) = JStr (to_valid s)"
| "clean_json (JArr js) = JArr (map clean_json js)"
| "clean_json (JObj kvs) = JObj (map (\<lambda>(k, j). (to_valid k, clean_json j)) kvs)"
| "clean_json j = j"

fun fits :: "nat \<Rightarrow> json \<Rightarrow> bool" where
  "fits d (JNum t) = False"
| "fits d (JArr js) = (0 < d \<and> (\<forall>j \<in> set js. fits (d - 1) j))"
| "fits d (JObj kvs) = (0 < d \<and> (\<forall>kv \<in> set kvs. fits (d - 1) (snd kv)))"
| "fits d j = True"

definition starts_value :: "string \<Rightarrow> bool" where
  "starts_value s \<longleftrightarrow> (\<exists>c t. s = c # t \<and> c \<in> {quote_mark, CHR ''['', CHR ''{'', CHR ''n'', CHR ''t'', CHR ''f''})"

lemma skip_ws_start: "starts_value s \<Longrightarrow> skip_ws (s @ t) = s @ t"
  by (auto simp: starts_value_def skip_ws_def json_space_def quote_mark_def)

lemma show_json_start: "fits d j \<Longrightarrow> starts_value (show_json j)"
  by (cases j) (auto simp: starts_value_def json_string_def json_array_def json_object_def)

lemma skip_ws_marks:
  "skip_ws (quote_mark # t) = quote_mark # t" "skip_ws (CHR '','' # t) = CHR '','' # t"
  "skip_ws (CHR '']'' # t) = CHR '']'' # t" "skip_ws (CHR ''}'' # t) = CHR ''}'' # t"
  "skip_ws (CHR '':'' # t) = CHR '':'' # t" "skip_ws (CHR ''['' # t) = CHR ''['' # t"
  "skip_ws (CHR ''{'' # t) = CHR ''{'' # t" "skip_ws (CHR ''n'' # t) = CHR ''n'' # t"
  "skip_ws (CHR ''t'' # t) = CHR ''t'' # t" "skip_ws (CHR ''f'' # t) = CHR ''f'' # t"
  by (simp_all add: skip_ws_def json_space_def quote_mark_def)

lemma quote_mark_distinct [simp]:
  "CHR ''['' \<noteq> quote_mark" "CHR ''{'' \<noteq> quote_mark" "CHR ''n'' \<noteq> quote_mark" "CHR ''t'' \<noteq> quote_mark"
  "CHR ''f'' \<noteq> quote_mark" "CHR '']'' \<noteq> quote_mark" "CHR ''}'' \<noteq> quote_mark"
  "quote_mark \<noteq> CHR '']''" "quote_mark \<noteq> CHR ''}''"
  by (simp_all add: quote_mark_def)

lemma read_elems_Join:
  assumes "js \<noteq> []" and "\<And>j t. j \<in> set js \<Longrightarrow> read_json d (show_json j @ t) = Inr (clean_json j, t)"
  shows "read_elems d (Join (map show_json js) '','' @ CHR '']'' # rest) = Inr (map clean_json js, rest)"
  using assms
proof (induction js)
  case (Cons j js)
  show ?case
  proof (cases "js = []")
    case True
    with Cons.prems(2) [of j] show ?thesis by (subst read_elems.simps) (simp add: skip_ws_marks)
  next
    case False
    then obtain k ks where js: "js = k # ks" by (cases js) auto
    have ih: "read_elems d (Join (map show_json js) '','' @ CHR '']'' # rest) = Inr (map clean_json js, rest)"
      using Cons.IH [OF False] Cons.prems(2) by simp
    have "Join (map show_json (j # js)) '','' @ CHR '']'' # rest =
        show_json j @ CHR '','' # Join (map show_json js) '','' @ CHR '']'' # rest"
      by (simp add: js)
    with Cons.prems(2) [of j] ih show ?thesis
      by (simp only:) (subst read_elems.simps, simp add: skip_ws_marks)
  qed
qed simp

definition show_member :: "string \<times> json \<Rightarrow> string" where
  "show_member kv = json_string (fst kv) @ '':'' @ show_json (snd kv)"

lemma read_member:
  assumes "\<And>t. read_json d (show_json j @ t) = Inr (clean_json j, t)"
  shows "read_members d (show_member (k, j) @ CHR ''}'' # t) = Inr ([(to_valid k, clean_json j)], t)"
    and "read_members d u = Inr (kvs, t) \<Longrightarrow>
      read_members d (show_member (k, j) @ CHR '','' # u) = Inr ((to_valid k, clean_json j) # kvs, t)"
  using assms by (subst read_members.simps,
      simp add: show_member_def json_string_def skip_ws_marks read_string_escape)+

lemma read_members_Join:
  assumes "kvs \<noteq> []" and "\<And>kv t. kv \<in> set kvs \<Longrightarrow> read_json d (show_json (snd kv) @ t) = Inr (clean_json (snd kv), t)"
  shows "read_members d (Join (map show_member kvs) '','' @ CHR ''}'' # rest) =
    Inr (map (\<lambda>(k, j). (to_valid k, clean_json j)) kvs, rest)"
  using assms
proof (induction kvs)
  case (Cons kv kvs)
  obtain k j where kv: "kv = (k, j)" by (cases kv)
  have head: "read_json d (show_json j @ t) = Inr (clean_json j, t)" for t
    using Cons.prems(2) [of kv] kv by simp
  show ?case
  proof (cases "kvs = []")
    case True
    with read_member(1) [OF head] show ?thesis by (simp add: kv)
  next
    case False
    have ih: "read_members d (Join (map show_member kvs) '','' @ CHR ''}'' # rest) =
        Inr (map (\<lambda>(k, j). (to_valid k, clean_json j)) kvs, rest)"
      using Cons.IH [OF False] Cons.prems(2) by simp
    have "Join (map show_member (kv # kvs)) '','' @ CHR ''}'' # rest =
        show_member (k, j) @ CHR '','' # Join (map show_member kvs) '','' @ CHR ''}'' # rest"
      using False by (cases kvs) (simp_all add: kv)
    with read_member(2) [OF head ih] show ?thesis by (simp add: kv)
  qed
qed simp

lemma Join_start: "starts_value x \<Longrightarrow> starts_value (Join (x # xs) sep)"
  by (cases xs) (auto simp: starts_value_def)

theorem read_json_show: "fits d j \<Longrightarrow> read_json d (show_json j @ t) = Inr (clean_json j, t)"
proof (induction j arbitrary: d t rule: show_json.induct)
  case 1
  then show ?case by (subst read_json.simps) (simp add: skip_ws_marks)
next
  case (2 b)
  then show ?case by (subst read_json.simps) (simp add: skip_ws_marks)
next
  case (4 s)
  then show ?case by (subst read_json.simps) (simp add: skip_ws_marks json_string_def read_string_escape)
next
  case (5 js)
  show ?case
  proof (cases js)
    case Nil
    with 5 show ?thesis by (subst read_json.simps) (simp add: skip_ws_marks json_array_def)
  next
    case (Cons k ks)
    let ?t = "Join (map show_json js) '','' @ CHR '']'' # t"
    have "read_elems (d - 1) ?t = Inr (map clean_json js, t)"
      by (rule read_elems_Join) (use Cons 5 in auto)
    moreover have "starts_value (Join (map show_json js) '','')"
      using Cons Join_start show_json_start [of "d - 1" k] 5 by simp
    then obtain c u where "skip_ws ?t = c # u" "c \<noteq> CHR '']''"
      using skip_ws_start by (force simp: starts_value_def quote_mark_def)
    ultimately show ?thesis using 5
      by (subst read_json.simps) (simp add: skip_ws_marks json_array_def)
  qed
next
  case (6 kvs)
  show ?case
  proof (cases kvs)
    case Nil
    with 6 show ?thesis by (subst read_json.simps) (simp add: skip_ws_marks json_object_def)
  next
    case (Cons kv ks)
    let ?t = "Join (map show_member kvs) '','' @ CHR ''}'' # t"
    have o: "show_json (JObj kvs) @ t = CHR ''{'' # ?t"
      by (simp add: json_object_def show_member_def [abs_def] comp_def case_prod_beta)
    have "read_members (d - 1) ?t = Inr (map (\<lambda>(k, j). (to_valid k, clean_json j)) kvs, t)"
      by (rule read_members_Join) (use Cons 6 in force)+
    moreover have "starts_value (Join (map show_member kvs) '','')"
      using Cons Join_start [of "show_member kv"] by (simp add: starts_value_def show_member_def json_string_def)
    then obtain c u where "skip_ws ?t = c # u" "c \<noteq> CHR ''}''"
      using skip_ws_start by (force simp: starts_value_def quote_mark_def)
    ultimately show ?thesis using 6(2)
      unfolding o by (subst read_json.simps) (simp add: skip_ws_marks)
  qed
qed simp


section \<open>Decoding a stream\<close>

definition maxNestingDepth :: nat where
  "maxNestingDepth = 10000"

definition EOF :: goerr where
  "EOF = ErrorString ''EOF''"

definition ErrUnexpectedEOF :: goerr where
  "ErrUnexpectedEOF = ErrorString ''unexpected EOF''"

definition self_delimiting :: "json \<Rightarrow> bool" where
  "self_delimiting j = (case j of JArr js \<Rightarrow> True | JObj kvs \<Rightarrow> True | _ \<Rightarrow> False)"

text \<open>
  The first value of a stream. An array or an object ends with its bracket; after any other value
  the decoder looks at what comes next, and only the end of the input may be missing.
\<close>

definition json_Decode :: "reader \<Rightarrow> goerr + json" where
  "json_Decode r =
     (case read_json maxNestingDepth (fst r) of
        Inr (j, rest) \<Rightarrow>
          if self_delimiting j \<or> rest \<noteq> [] then Inr j
          else (case snd r of None \<Rightarrow> Inr j | Some e \<Rightarrow> Inl e)
      | Inl JTruncated \<Rightarrow>
          Inl (case snd r of
                 Some e \<Rightarrow> e
               | None \<Rightarrow> if skip_ws (fst r) = [] then EOF else ErrUnexpectedEOF)
      | Inl JSyntax \<Rightarrow> Inl (ErrorString ''invalid character''))"

lemma json_Decode_show:
  "fits maxNestingDepth j \<Longrightarrow> self_delimiting j \<or> rest \<noteq> [] \<Longrightarrow>
   json_Decode (show_json j @ rest, e) = Inr (clean_json j)"
  by (cases j) (simp_all add: json_Decode_def read_json_show self_delimiting_def del: show_json.simps fits.simps)

text \<open>Valid strings are read back as they are.\<close>

fun valid_json :: "json \<Rightarrow> bool" where
  "valid_json (JStr s) = valid_utf8 s"
| "valid_json (JArr js) = (\<forall>j \<in> set js. valid_json j)"
| "valid_json (JObj kvs) = (\<forall>kv \<in> set kvs. valid_utf8 (fst kv) \<and> valid_json (snd kv))"
| "valid_json j = True"

lemma clean_json_eq: "valid_json j \<Longrightarrow> clean_json j = j"
  by (induction j rule: clean_json.induct) (auto simp: to_valid_eq intro!: map_idI)


section \<open>No control characters\<close>

definition printable :: "char \<Rightarrow> bool" where
  "printable c \<longleftrightarrow> 32 \<le> byte c"

lemma hex_digit_printable: "d < 16 \<Longrightarrow> printable (hex_digit d)"
  by (auto simp: hex_digit_def printable_def)

lemma json_char_printable: "list_all printable (json_char c)"
proof -
  have "byte c < 16 * 16" by simp
  then have "byte c div 16 < 16" by (rule less_mult_imp_div_less)
  then have "printable (hex_digit (byte c div 16))" "printable (hex_digit (byte c mod 16))"
    by (simp_all add: hex_digit_printable)
  then show ?thesis by (auto simp: json_char_def Let_def printable_def)
qed

lemma all_below_printable:
  "n \<le> length s \<Longrightarrow> (\<And>i. i < n \<Longrightarrow> 32 \<le> byte (s ! i)) \<Longrightarrow> list_all printable (take n s)"
  by (simp add: list_all_length printable_def)

lemma within_printable: "within s i lo hi \<Longrightarrow> 32 \<le> lo \<Longrightarrow> 32 \<le> byte (s ! i)"
  by (simp add: within_def)

lemma rune_printable:
  "rune2 s \<Longrightarrow> i < 2 \<Longrightarrow> 32 \<le> byte (s ! i)"
  "rune3 s \<Longrightarrow> i < 3 \<Longrightarrow> 32 \<le> byte (s ! i)"
  "rune4 s \<Longrightarrow> i < 4 \<Longrightarrow> 32 \<le> byte (s ! i)"
proof -
  note w = within_printable [of s]
  assume "i < 2"
  then have "i = 0 \<or> i = 1" by auto
  then show "rune2 s \<Longrightarrow> 32 \<le> byte (s ! i)" by (auto simp: rune2_def dest!: w)
next
  note w = within_printable [of s]
  assume "i < 3"
  then have "i = 0 \<or> i = 1 \<or> i = 2" by auto
  then show "rune3 s \<Longrightarrow> 32 \<le> byte (s ! i)" by (auto simp: rune3_def dest!: w)
next
  note w = within_printable [of s]
  assume "i < 4"
  then have "i = 0 \<or> i = 1 \<or> i = 2 \<or> i = 3" by auto
  then show "rune4 s \<Longrightarrow> 32 \<le> byte (s ! i)" by (auto simp: rune4_def dest!: w)
qed

lemma first_rune_printable:
  assumes "\<not> ascii c" and "rune_len (c # s) \<noteq> 0"
  shows "list_all printable (first_rune (c # s))"
proof -
  let ?s = "c # s"
  have "i < rune_len ?s \<Longrightarrow> 32 \<le> byte (?s ! i)" for i
    using assms rune_printable [of ?s i] by (simp add: rune_len_def rune1_Cons del: nth_Cons_numeral split: if_splits)
  then have "list_all printable (take (rune_len ?s) ?s)"
    by (rule all_below_printable [OF rune_len_le])
  with assms(2) show ?thesis by (simp add: first_rune_def max_def Suc_le_eq)
qed

lemma printable_marks:
  "printable CHR ''[''" "printable CHR '']''" "printable CHR ''{''" "printable CHR ''}''" "printable CHR '':''"
  "list_all printable '',''"
  by (simp_all add: printable_def)

lemma json_rune_printable: "list_all printable (json_rune (c # s))"
proof -
  have "printable json_backslash" by (simp add: printable_def json_backslash_def)
  then show ?thesis
    using json_char_printable [of c] first_rune_printable [of c s] by (simp add: json_rune_def printable_def)
qed

lemma json_string_printable: "list_all printable (json_string s)"
proof -
  have "printable quote_mark" by (simp add: printable_def quote_mark_def)
  moreover have "list_all printable (json_escape s)"
    by (induction s rule: json_escape.induct) (simp_all add: json_rune_printable)
  ultimately show ?thesis by (simp add: json_string_def)
qed

lemma printable_Join:
  "list_all (list_all printable) xs \<Longrightarrow> list_all printable sep \<Longrightarrow> list_all printable (Join xs sep)"
  by (induction xs sep rule: Join.induct) auto

lemma show_json_printable: "fits d j \<Longrightarrow> list_all printable (show_json j)"
proof (induction j arbitrary: d rule: show_json.induct)
  case (5 js)
  have "list_all (list_all printable) (map show_json js)"
    using 5 by (fastforce simp: list_all_iff)
  from printable_Join [OF this printable_marks(6)] show ?case by (simp add: json_array_def printable_marks)
next
  case (6 kvs)
  have "list_all printable (show_member kv)" if "kv \<in> set kvs" for kv
    using 6 that json_string_printable [of "fst kv"]
    by (cases kv) (fastforce simp: show_member_def printable_marks)
  then have "list_all (list_all printable) (map show_member kvs)" by (simp add: list_all_iff)
  from printable_Join [OF this printable_marks(6)] show ?case
    by (simp add: json_object_def printable_marks show_member_def [abs_def] comp_def case_prod_beta)
qed (simp_all add: json_string_printable printable_def)

end
