(* ===== verification/NodeApprovers.thy ===== *)
theory NodeApprovers
  imports GoWalk GoJSON
begin

text \<open>
  Package \<open>pkg/nodeapprovers\<close> (verify.go): the check that the reviewers and approvers
  annotated in a kep.yaml agree with the neighbouring OWNERS file, the stage-dependent
  tech-lead rule, the traversal that aggregates their violations, and the computation of the
  upcoming Kubernetes minor version from the tags of the repository.

  Outside the repository, and so arguments of the definitions (the fields of \<open>node_lib\<close>):
  the decoders of gopkg.in/yaml.v3, the Unicode tables behind \<open>strings.ToLower\<close> and \<open>%q\<close>,
  and the HTTP service. A \<open>yaml.Node\<close> is the datatype
  \<open>ynode\<close>; a nil pointer to one is \<^term>\<open>None\<close>.
\<close>

section \<open>Types\<close>

datatype ykind = ZeroNode | DocumentNode | SequenceNode | MappingNode | ScalarNode | AliasNode

datatype ynode =
  YNode (Kind: ykind) (Value: string) (LineComment: string) (Content: "ynode list")

record Violation =
  KEPPath :: string
  Role :: string
  User :: string
  Reason :: string

record ownersFile =
  Reviewers :: "string list"
  Approvers :: "string list"

record ownersAliasesFile =
  Aliases :: "string \<Rightarrow> string list option"

record approverEntry =
  EUser :: string
  Marked :: bool

record kepMetadata =
  status :: string
  stage :: string
  latestMilestone :: string
  entries :: "approverEntry list"

record node_lib =
  unicode_ToLower :: "string \<Rightarrow> string"
  unicode_Quote :: "string \<Rightarrow> string"
  yaml_Node :: "string \<Rightarrow> goerr + ynode"
  yaml_OwnersFile :: "string \<Rightarrow> goerr + ownersFile"
  yaml_AliasesFile :: "string \<Rightarrow> goerr + ownersAliasesFile"
  http_Get :: "string \<Rightarrow> goerr + http_response"

section \<open>Constants and helpers\<close>

definition minEnforcedMinor :: int where
  "minEnforcedMinor = 36"

definition reviewerMarker :: string where
  "reviewerMarker = ''sig-node-assigned-reviewer''"

definition approverMarker :: string where
  "approverMarker = ''sig-node-assigned-approver''"

definition reviewerRole :: string where
  "reviewerRole = ''reviewer''"

definition approverRole :: string where
  "approverRole = ''approver''"

definition techLeadsAlias :: string where
  "techLeadsAlias = ''sig-node-tech-leads''"

definition Violation_String :: "'a node_lib_scheme \<Rightarrow> Violation \<Rightarrow> string" where
  "Violation_String L v =
     (if User v = [] then KEPPath v @ '': '' @ Role v @ '' '' @ Reason v
      else KEPPath v @ '': assigned '' @ Role v @ '' '' @ Quote (unicode_Quote L) (User v) @
           '' '' @ Reason v)"

definition normalizeUser :: "'a node_lib_scheme \<Rightarrow> string \<Rightarrow> string" where
  "normalizeUser L name = ToLower (unicode_ToLower L) (TrimPrefix (TrimSpace name) ''@'')"

definition markerOf :: "string \<Rightarrow> string" where
  "markerOf lineComment = TrimSpace (TrimPrefix (TrimSpace lineComment) ''#'')"

definition assignedUsers ::
  "'a node_lib_scheme \<Rightarrow> ynode option \<Rightarrow> string \<Rightarrow> string list" where
  "assignedUsers L seq marker =
     (case seq of
        None \<Rightarrow> []
      | Some n \<Rightarrow>
          if Kind n \<noteq> SequenceNode then []
          else map (\<lambda>item. normalizeUser L (Value item))
                 (filter (\<lambda>item. Kind item = ScalarNode \<and> markerOf (LineComment item) = marker)
                    (Content n)))"

definition parseKEPRoot :: "'a node_lib_scheme \<Rightarrow> fsys \<Rightarrow> string \<Rightarrow> goerr + ynode" where
  "parseKEPRoot L w p =
     (case ReadFile w p of
        Inl e \<Rightarrow> Inl (WrapError (''reading '' @ p @ '': '') e)
      | Inr data \<Rightarrow>
          (case yaml_Node L data of
             Inl e \<Rightarrow> Inl (WrapError (''parsing '' @ p @ '': '') e)
           | Inr doc \<Rightarrow>
               if Kind doc = DocumentNode \<and> Content doc \<noteq> [] then Inr (hd (Content doc))
               else Inr doc))"

fun mapping_lookup :: "ynode list \<Rightarrow> string \<Rightarrow> ynode option" where
  "mapping_lookup (k # v # rest) key = (if Value k = key then Some v else mapping_lookup rest key)"
| "mapping_lookup _ key = None"

definition mappingValue :: "ynode option \<Rightarrow> string \<Rightarrow> ynode option" where
  "mappingValue m key =
     (case m of
        None \<Rightarrow> None
      | Some n \<Rightarrow> if Kind n \<noteq> MappingNode then None else mapping_lookup (Content n) key)"

fun containsNormalized :: "'a node_lib_scheme \<Rightarrow> string list \<Rightarrow> string \<Rightarrow> bool" where
  "containsNormalized L [] user = False"
| "containsNormalized L (item # items) user =
     (if normalizeUser L item = user then True else containsNormalized L items user)"

section \<open>Walking the KEPs\<close>

definition walkKEPs_fn ::
  "(string \<Rightarrow> goerr + Violation list) \<Rightarrow> Violation list walkfn" where
  "walkKEPs_fn verify violations path d err =
     (case err of
        Some e \<Rightarrow> (violations, WErr e)
      | None \<Rightarrow>
          (case d of
             None \<Rightarrow> (violations, WPanic)
           | Some fi \<Rightarrow>
               if IsDir fi \<or> fi_name fi \<noteq> ''kep.yaml'' then (violations, WNil)
               else (case verify path of
                       Inl e \<Rightarrow> (violations, WErr e)
                     | Inr v \<Rightarrow> (violations @ v, WNil))))"

definition walkKEPs ::
  "fsys \<Rightarrow> string \<Rightarrow> (string \<Rightarrow> goerr + Violation list) \<Rightarrow> (goerr + Violation list) outcome" where
  "walkKEPs w rootDir verify =
     (case WalkDir w rootDir (walkKEPs_fn verify) [] of
        (violations, WErr e) \<Rightarrow> Ret (Inl e)
      | (violations, WPanic) \<Rightarrow> Panic
      | (violations, _) \<Rightarrow> Ret (Inr violations))"

section \<open>Assigned reviewers and approvers against OWNERS\<close>

definition violation :: "string \<Rightarrow> string \<Rightarrow> string \<Rightarrow> string \<Rightarrow> Violation" where
  "violation p role user reason = \<lparr>KEPPath = p, Role = role, User = user, Reason = reason\<rparr>"

definition listedApprovers :: "'a node_lib_scheme \<Rightarrow> ynode option \<Rightarrow> string list" where
  "listedApprovers L approvers =
     (case approvers of
        None \<Rightarrow> []
      | Some n \<Rightarrow>
          if Kind n = SequenceNode
          then map (\<lambda>a. normalizeUser L (Value a)) (filter (\<lambda>a. Kind a = ScalarNode) (Content n))
          else [])"

definition ownersViolations ::
  "'a node_lib_scheme \<Rightarrow> string \<Rightarrow> string set \<Rightarrow> string list \<Rightarrow> string list \<Rightarrow> string list \<Rightarrow>
   ownersFile \<Rightarrow> Violation list" where
  "ownersViolations L p techLeads assignedReviewers assignedApprovers listed owners =
     map (\<lambda>u. violation p reviewerRole u ''not listed under reviewers in OWNERS'')
       (filter (\<lambda>u. \<not> containsNormalized L (Reviewers owners) u) assignedReviewers) @
     map (\<lambda>u. violation p approverRole u ''not listed under approvers in OWNERS'')
       (filter (\<lambda>u. \<not> containsNormalized L (Approvers owners) u) assignedApprovers) @
     map (\<lambda>u. violation p reviewerRole (normalizeUser L u)
                ''listed in OWNERS but not annotated as sig-node-assigned-reviewer in kep.yaml'')
       (filter (\<lambda>u. \<not> containsNormalized L assignedReviewers (normalizeUser L u))
          (Reviewers owners)) @
     map (\<lambda>u. violation p approverRole (normalizeUser L u)
                ''listed in OWNERS but not annotated as sig-node-assigned-approver in kep.yaml'')
       (filter (\<lambda>u. let user = normalizeUser L u
                    in \<not> containsNormalized L assignedApprovers user \<and>
                       (user \<notin> techLeads \<or> \<not> containsNormalized L listed user))
          (Approvers owners))"

definition verifyKEP ::
  "'a node_lib_scheme \<Rightarrow> fsys \<Rightarrow> string \<Rightarrow> string set \<Rightarrow> goerr + Violation list" where
  "verifyKEP L w p techLeads =
     (case parseKEPRoot L w p of
        Inl e \<Rightarrow> Inl e
      | Inr root \<Rightarrow>
          let assignedReviewers =
                assignedUsers L (mappingValue (Some root) ''reviewers'') reviewerMarker;
              approvers = mappingValue (Some root) ''approvers'';
              assignedApprovers = assignedUsers L approvers approverMarker;
              listed = listedApprovers L approvers;
              ownersPath = FJoin [Dir p, ''OWNERS'']
          in case ReadFile w ownersPath of
               Inl e \<Rightarrow>
                 if IsNotExist e then
                   (if assignedReviewers = [] \<and> assignedApprovers = [] then Inr []
                    else Inr
                      (map (\<lambda>u. violation p reviewerRole u ''OWNERS file not found'')
                         assignedReviewers @
                       map (\<lambda>u. violation p approverRole u ''OWNERS file not found'')
                         assignedApprovers))
                 else Inl (WrapError (''reading '' @ ownersPath @ '': '') e)
             | Inr ownersData \<Rightarrow>
                 (case yaml_OwnersFile L ownersData of
                    Inl e \<Rightarrow> Inl (WrapError (''parsing '' @ ownersPath @ '': '') e)
                  | Inr owners \<Rightarrow>
                      Inr (ownersViolations L p techLeads assignedReviewers assignedApprovers
                             listed owners)))"

definition VerifyKEP :: "'a node_lib_scheme \<Rightarrow> fsys \<Rightarrow> string \<Rightarrow> goerr + Violation list" where
  "VerifyKEP L w p = verifyKEP L w p {}"

definition VerifyAll ::
  "'a node_lib_scheme \<Rightarrow> fsys \<Rightarrow> string \<Rightarrow> (goerr + Violation list) outcome" where
  "VerifyAll L w rootDir = walkKEPs w rootDir (VerifyKEP L w)"

section \<open>Tech leads\<close>

definition loadTechLeads :: "'a node_lib_scheme \<Rightarrow> fsys \<Rightarrow> string \<Rightarrow> goerr + string set" where
  "loadTechLeads L w p =
     (case ReadFile w p of
        Inl e \<Rightarrow> Inl (WrapError (''reading '' @ p @ '': '') e)
      | Inr data \<Rightarrow>
          (case yaml_AliasesFile L data of
             Inl e \<Rightarrow> Inl (WrapError (''parsing '' @ p @ '': '') e)
           | Inr aliases \<Rightarrow>
               (case Aliases aliases techLeadsAlias of
                  None \<Rightarrow>
                    Inl (ErrorString (p @ '': alias '' @
                      Quote (unicode_Quote L) techLeadsAlias @ '' not found''))
                | Some members \<Rightarrow>
                    let techLeads = set (map (normalizeUser L) members)
                    in if techLeads = {}
                       then Inl (ErrorString (p @ '': alias '' @
                              Quote (unicode_Quote L) techLeadsAlias @ '' has no members''))
                       else Inr techLeads)))"

definition VerifyAllWithTechLeads ::
  "'a node_lib_scheme \<Rightarrow> fsys \<Rightarrow> string \<Rightarrow> string \<Rightarrow> (goerr + Violation list) outcome" where
  "VerifyAllWithTechLeads L w rootDir ownersAliasesPath =
     (case loadTechLeads L w ownersAliasesPath of
        Inl e \<Rightarrow> Ret (Inl e)
      | Inr techLeads \<Rightarrow> walkKEPs w rootDir (\<lambda>path. verifyKEP L w path techLeads))"

definition parseMilestoneMinor :: "string \<Rightarrow> int" where
  "parseMilestoneMinor milestone =
     (let m = TrimPrefix (TrimSpace (Trim milestone [CHR 0x22])) ''v'';
          parts = SplitN 3 CHR ''.'' m
      in if length parts < 2 then 0
         else case Atoi (parts ! 1) of None \<Rightarrow> 0 | Some minor \<Rightarrow> minor)"

definition scalarField :: "ynode \<Rightarrow> string \<Rightarrow> string" where
  "scalarField root key =
     (case mappingValue (Some root) key of
        None \<Rightarrow> []
      | Some n \<Rightarrow> if Kind n = ScalarNode then TrimSpace (Value n) else [])"

definition approverEntries :: "'a node_lib_scheme \<Rightarrow> ynode \<Rightarrow> approverEntry list" where
  "approverEntries L root =
     (case mappingValue (Some root) ''approvers'' of
        None \<Rightarrow> []
      | Some n \<Rightarrow>
          if Kind n \<noteq> SequenceNode then []
          else map (\<lambda>item. \<lparr>EUser = normalizeUser L (Value item),
                            Marked = (markerOf (LineComment item) = approverMarker)\<rparr>)
                 (filter (\<lambda>item. Kind item = ScalarNode) (Content n)))"

definition parseKEPMetadata :: "'a node_lib_scheme \<Rightarrow> fsys \<Rightarrow> string \<Rightarrow> goerr + kepMetadata" where
  "parseKEPMetadata L w p =
     (case parseKEPRoot L w p of
        Inl e \<Rightarrow> Inl e
      | Inr root \<Rightarrow>
          Inr \<lparr>status = scalarField root ''status'', stage = scalarField root ''stage'',
               latestMilestone = scalarField root ''latest-milestone'',
               entries = approverEntries L root\<rparr>)"

definition techLeadViolations ::
  "string \<Rightarrow> kepMetadata \<Rightarrow> string set \<Rightarrow> int \<Rightarrow> Violation list" where
  "techLeadViolations p meta techLeads upcomingMinor =
     (if status meta \<in> {''withdrawn'', ''rejected'', ''replaced''} then []
      else if parseMilestoneMinor (latestMilestone meta) < minEnforcedMinor then []
      else if entries meta = [] then [violation p approverRole [] ''no approvers listed'']
      else
        let hasTechLead = list_ex (\<lambda>e. EUser e \<in> techLeads) (entries meta);
            hasMarked = list_ex Marked (entries meta);
            activelyAlpha = (stage meta = ''alpha'' \<and>
              parseMilestoneMinor (latestMilestone meta) \<ge> upcomingMinor)
        in if activelyAlpha then
             (if \<not> hasTechLead
              then [violation p approverRole []
                ''alpha-stage KEP must list at least one sig-node-tech-leads member as approver'']
              else []) @
             map (\<lambda>e. violation p approverRole (EUser e)
                ''alpha-stage KEP must not use # sig-node-assigned-approver marker for a non-tech-lead approver'')
               (filter (\<lambda>e. Marked e \<and> EUser e \<notin> techLeads) (entries meta))
           else if \<not> hasTechLead \<and> \<not> hasMarked
           then [violation p approverRole []
             ''non-alpha KEP must list a sig-node-tech-leads member or an approver marked # sig-node-assigned-approver'']
           else [])"

definition VerifyTechLeadApprovers ::
  "'a node_lib_scheme \<Rightarrow> fsys \<Rightarrow> string \<Rightarrow> string set \<Rightarrow> int \<Rightarrow> goerr + Violation list" where
  "VerifyTechLeadApprovers L w p techLeads upcomingMinor =
     (case parseKEPMetadata L w p of
        Inl e \<Rightarrow> Inl e
      | Inr meta \<Rightarrow> Inr (techLeadViolations p meta techLeads upcomingMinor))"

definition VerifyAllTechLeadApprovers ::
  "'a node_lib_scheme \<Rightarrow> fsys \<Rightarrow> string \<Rightarrow> string \<Rightarrow> int \<Rightarrow> (goerr + Violation list) outcome" where
  "VerifyAllTechLeadApprovers L w kepsRootDir ownersAliasesPath upcomingMinor =
     (case loadTechLeads L w ownersAliasesPath of
        Inl e \<Rightarrow> Ret (Inl e)
      | Inr techLeads \<Rightarrow>
          walkKEPs w kepsRootDir (\<lambda>path. VerifyTechLeadApprovers L w path techLeads upcomingMinor))"

section \<open>The upcoming minor version\<close>

definition k8sTagsURL :: string where
  "k8sTagsURL = ''https://api.github.com/repos/kubernetes/kubernetes/tags?per_page=100''"

text \<open>
  Decoding a JSON value into a slice of structs with one string field tagged \<open>name\<close>, as
  package encoding/json does: keys match up to case, null leaves a field as it is, a value
  of another type is an error.
\<close>

fun decode_tag_fields :: "(string \<times> json) list \<Rightarrow> string \<Rightarrow> string option" where
  "decode_tag_fields [] acc = Some acc"
| "decode_tag_fields ((k, v) # kvs) acc =
     (if map lower_char k = ''name'' then
        (case v of
           JStr s \<Rightarrow> decode_tag_fields kvs s
         | JNull \<Rightarrow> decode_tag_fields kvs acc
         | _ \<Rightarrow> None)
      else decode_tag_fields kvs acc)"

fun decode_tag :: "json \<Rightarrow> string option" where
  "decode_tag JNull = Some []"
| "decode_tag (JObj kvs) = decode_tag_fields kvs []"
| "decode_tag _ = None"

fun decode_tags :: "json \<Rightarrow> string list option" where
  "decode_tags JNull = Some []"
| "decode_tags (JArr xs) = those (map decode_tag xs)"
| "decode_tags _ = None"

text \<open>
  One iteration of the loop over the tags: the minor version a tag name counts for, and
  whether the tag marks that version as released.
\<close>

definition tag_minor :: "string \<Rightarrow> int option" where
  "tag_minor t =
     (let name = TrimPrefix t ''v'' in
      if name = t then None
      else let minor = parseMilestoneMinor name in if minor = 0 then None else Some minor)"

definition tag_released :: "string \<Rightarrow> int \<Rightarrow> bool" where
  "tag_released t minor =
     (let name = TrimPrefix t ''v'';
          suffix = TrimPrefix name (''1.'' @ Itoa minor @ ''.'')
      in suffix = ''0'' \<or> HasPrefix suffix ''0-rc.'')"

fun tags_loop :: "string list \<Rightarrow> int list \<Rightarrow> int list \<Rightarrow> int list \<times> int list" where
  "tags_loop [] seen released = (seen, released)"
| "tags_loop (t # ts) seen released =
     (case tag_minor t of
        None \<Rightarrow> tags_loop ts seen released
      | Some minor \<Rightarrow>
          tags_loop ts (List.insert minor seen)
            (if tag_released t minor then List.insert minor released else released))"

definition max_loop :: "int list \<Rightarrow> int" where
  "max_loop ms = foldl (\<lambda>maxMinor m. if m > maxMinor then m else maxMinor) 0 ms"

text \<open>
  The argument \<open>order\<close> is the unspecified order in which Go ranges over the keys of a map.
\<close>

definition FetchUpcomingMinor :: "'a node_lib_scheme \<Rightarrow> (int list \<Rightarrow> int list) \<Rightarrow> goerr + int" where
  "FetchUpcomingMinor L order =
     (case http_Get L k8sTagsURL of
        Inl e \<Rightarrow> Inl (WrapError ''fetching kubernetes tags: '' e)
      | Inr resp \<Rightarrow>
          if StatusCode resp \<noteq> 200
          then Inl (ErrorString (''fetching kubernetes tags: HTTP '' @ Itoa (StatusCode resp)))
          else
            (case (case json_Decode (Body resp) of
                     Inl e \<Rightarrow> Inl e
                   | Inr j \<Rightarrow>
                       (case decode_tags j of
                          None \<Rightarrow> Inl (ErrorString ''json: cannot unmarshal'')
                        | Some tags \<Rightarrow> Inr tags)) of
               Inl e \<Rightarrow> Inl (WrapError ''decoding kubernetes tags: '' e)
             | Inr tags \<Rightarrow>
                 let (seen, released) = tags_loop tags [] [];
                     maxMinor = max_loop (order seen)
                 in if maxMinor = 0
                    then Inl (ErrorString ''no v1.X.Y tags found in kubernetes/kubernetes'')
                    else if maxMinor \<in> set released then Inr (add64 maxMinor 1)
                    else Inr maxMinor))"


section \<open>Normalised handles\<close>

lemma containsNormalized_iff: "containsNormalized L xs u \<longleftrightarrow> u \<in> normalizeUser L ` set xs"
  by (induction L xs u rule: containsNormalized.induct) auto

interpretation norm_search: string_search "containsNormalized L" "normalizeUser L"
  for L :: "'a node_lib_scheme"
  by unfold_locales (rule containsNormalized_iff)

text \<open>A GitHub handle: printable ASCII, not empty, not starting with an \<open>@\<close>.\<close>

definition handle :: "string \<Rightarrow> bool" where
  "handle h \<longleftrightarrow> h \<noteq> [] \<and> list_all graphic h \<and> hd h \<noteq> CHR ''@''"

lemma graphic_ascii: "graphic c \<Longrightarrow> ascii c"
  by (auto simp: graphic_def ascii_def)

lemma handle_ends: "handle h \<Longrightarrow> graphic (hd h) \<and> graphic (last h)"
  by (auto simp: handle_def list_all_iff)

lemma ToLower_handle: "handle h \<Longrightarrow> ToLower uni h = map lower_char h"
  by (auto simp: handle_def ToLower_def list_all_iff graphic_ascii)

lemma TrimPrefix_handle: "handle h \<Longrightarrow> TrimPrefix h ''@'' = h"
  by (auto simp: handle_def TrimPrefix_def HasPrefix_def prefix_def)

lemma normalizeUser_plain:
  assumes "handle h"
  shows "normalizeUser L (replicate m CHR '' '' @ h @ replicate n CHR '' '') = map lower_char h"
  using assms handle_ends [OF assms] TrimSpace_padded [of h m n]
  by (simp add: normalizeUser_def TrimPrefix_handle ToLower_handle handle_def)

lemma normalizeUser_at:
  assumes "handle h"
  shows "normalizeUser L (replicate m CHR '' '' @ CHR ''@'' # h @ replicate n CHR '' '') =
    map lower_char h"
proof -
  have "TrimSpace (replicate m CHR '' '' @ (CHR ''@'' # h) @ replicate n CHR '' '') = CHR ''@'' # h"
    using assms handle_ends [OF assms]
    by (intro TrimSpace_padded) (auto simp: handle_def graphic_def)
  then show ?thesis using assms by (simp add: normalizeUser_def ToLower_handle)
qed

lemma lower_char_graphic: "graphic c \<Longrightarrow> graphic (lower_char c)"
  by (auto simp: graphic_def of_char_lower_char)

lemma lower_char_eq_at: "lower_char c = CHR ''@'' \<longleftrightarrow> c = CHR ''@''"
proof
  assume "lower_char c = CHR ''@''"
  then have "(of_char (lower_char c) :: nat) = 64" by simp
  then have "(of_char c :: nat) = of_char (CHR ''@'')"
    by (auto simp: of_char_lower_char split: if_splits)
  then show "c = CHR ''@''" by (simp only: of_char_eq_iff)
qed (simp add: lower_char_def)

lemma handle_lower: "handle h \<Longrightarrow> handle (map lower_char h)"
  by (auto simp: handle_def list_all_iff lower_char_graphic hd_map lower_char_eq_at)

lemma normalizeUser_lower: "handle h \<Longrightarrow> normalizeUser L (map lower_char h) = map lower_char h"
  using normalizeUser_plain [OF handle_lower, of h L 0 0] by simp

end
