(* ===== verification/NodeApproversProps.thy ===== *)
theory NodeApproversProps
  imports NodeApprovers
begin

text \<open>
  Properties of package \<open>pkg/nodeapprovers\<close>: what an empty list of violations means for a
  single KEP, for a whole tree of KEPs and for the tech-lead rule, and what the computation
  of the upcoming minor version returns.
\<close>

section \<open>One KEP against its OWNERS file\<close>

definition assignedReviewersOf :: "'a node_lib_scheme \<Rightarrow> ynode \<Rightarrow> string list" where
  "assignedReviewersOf L kep =
     assignedUsers L (mappingValue (Some kep) ''reviewers'') reviewerMarker"

definition assignedApproversOf :: "'a node_lib_scheme \<Rightarrow> ynode \<Rightarrow> string list" where
  "assignedApproversOf L kep =
     assignedUsers L (mappingValue (Some kep) ''approvers'') approverMarker"

definition listedApproversOf :: "'a node_lib_scheme \<Rightarrow> ynode \<Rightarrow> string list" where
  "listedApproversOf L kep = listedApprovers L (mappingValue (Some kep) ''approvers'')"

definition ownersPathOf :: "string \<Rightarrow> string" where
  "ownersPathOf p = FJoin [Dir p, ''OWNERS'']"

lemmas kep_parts = assignedReviewersOf_def assignedApproversOf_def listedApproversOf_def
  ownersPathOf_def

lemma verifyKEP_with_owners:
  assumes "parseKEPRoot L w p = Inr kep" and "ReadFile w (ownersPathOf p) = Inr d"
    and "yaml_OwnersFile L d = Inr owners"
  shows "verifyKEP L w p T =
    Inr (ownersViolations L p T (assignedReviewersOf L kep) (assignedApproversOf L kep)
           (listedApproversOf L kep) owners)"
  using assms by (simp add: verifyKEP_def kep_parts Let_def)

lemma ownersViolations_Nil_iff:
  "ownersViolations L p T R A Ls owners = [] \<longleftrightarrow>
     set R \<subseteq> normalizeUser L ` set (Reviewers owners) \<and>
     set A \<subseteq> normalizeUser L ` set (Approvers owners) \<and>
     normalizeUser L ` set (Reviewers owners) \<subseteq> normalizeUser L ` set R \<and>
     normalizeUser L ` set (Approvers owners) \<subseteq>
       normalizeUser L ` set A \<union> (T \<inter> normalizeUser L ` set Ls)"
proof -
  let ?N = "normalizeUser L"
  have "filter (\<lambda>u. let user = ?N u in \<not> containsNormalized L A user \<and>
      (user \<notin> T \<or> \<not> containsNormalized L Ls user)) (Approvers owners) = [] \<longleftrightarrow>
      ?N ` set (Approvers owners) \<subseteq> ?N ` set A \<union> (T \<inter> ?N ` set Ls)"
    unfolding filter_eq_Nil_iff Let_def containsNormalized_iff by blast
  then show ?thesis
    unfolding ownersViolations_def append_is_Nil_conv map_is_Nil_conv
    by (simp only: norm_search.filter_not_contains_Nil image_ident)
qed

text \<open>
  C1: when kep.yaml parses and the OWNERS file beside it can be read, \<open>verifyKEP\<close> reports
  nothing exactly when every annotated reviewer and approver is listed in OWNERS and, the
  other way round, every OWNERS reviewer is an annotated reviewer and every OWNERS approver
  is an annotated approver or a tech lead among the listed approvers; all comparisons are
  between normalised handles.
\<close>

theorem verifyKEP_accepts_iff:
  assumes "parseKEPRoot L w p = Inr kep" and "ReadFile w (ownersPathOf p) = Inr d"
    and "yaml_OwnersFile L d = Inr owners"
  shows "verifyKEP L w p T = Inr [] \<longleftrightarrow>
     set (assignedReviewersOf L kep) \<subseteq> normalizeUser L ` set (Reviewers owners) \<and>
     set (assignedApproversOf L kep) \<subseteq> normalizeUser L ` set (Approvers owners) \<and>
     normalizeUser L ` set (Reviewers owners)
       \<subseteq> normalizeUser L ` set (assignedReviewersOf L kep) \<and>
     normalizeUser L ` set (Approvers owners)
       \<subseteq> normalizeUser L ` set (assignedApproversOf L kep) \<union>
         (T \<inter> normalizeUser L ` set (listedApproversOf L kep))"
  using verifyKEP_with_owners [OF assms, of T] by (simp add: ownersViolations_Nil_iff)

text \<open>A sample repository: one annotated KEP beside its OWNERS file.\<close>

definition sample_scalar :: "string \<Rightarrow> string \<Rightarrow> ynode" where
  "sample_scalar v c = YNode ScalarNode v c []"

definition sample_kep :: ynode where
  "sample_kep =
     YNode MappingNode [] []
       [sample_scalar ''status'' [], sample_scalar ''implementable'' [],
        sample_scalar ''stage'' [], sample_scalar ''alpha'' [],
        sample_scalar ''latest-milestone'' [], sample_scalar ''v1.36'' [],
        sample_scalar ''reviewers'' [],
        YNode SequenceNode [] [] [sample_scalar ''@TallClair'' ''# sig-node-assigned-reviewer''],
        sample_scalar ''approvers'' [],
        YNode SequenceNode [] []
          [sample_scalar ''@dchen1107'' ''# sig-node-assigned-approver'',
           sample_scalar ''@mrunalp'' []]]"

definition sample_tags :: json where
  "sample_tags = JArr [JObj [(''name'', JStr ''v1.36.0-alpha.1'')], JObj [(''name'', JStr ''v1.35.0'')]]"

lemma sample_tags_read: "json_Decode (show_json sample_tags, None) = Inr sample_tags"
  by code_simp

definition sample_node_lib :: node_lib where
  "sample_node_lib =
     \<lparr>unicode_ToLower = id, unicode_Quote = id,
      yaml_Node = (\<lambda>d. if d = ''kep'' then Inr (YNode DocumentNode [] [] [sample_kep])
                        else Inl (LibError ''yaml'')),
      yaml_OwnersFile = (\<lambda>d. if d = ''owners''
        then Inr \<lparr>Reviewers = [''tallclair''], Approvers = [''dchen1107'', ''mrunalp'']\<rparr>
        else Inl (LibError ''yaml'')),
      yaml_AliasesFile = (\<lambda>d. if d = ''aliases''
        then Inr \<lparr>Aliases = (\<lambda>k. if k = ''sig-node-tech-leads''
                                  then Some [''mrunalp'', ''dchen1107''] else None)\<rparr>
        else Inl (LibError ''yaml'')),
      http_Get = (\<lambda>u. Inr \<lparr>StatusCode = 200, Body = (show_json sample_tags, None)\<rparr>)\<rparr>"

definition sample_fs :: fsys where
  "sample_fs =
     \<lparr>fs_root = DirN mode_perm
        [(''OWNERS_ALIASES'', Reg mode_perm ''aliases''),
         (''keps'', DirN mode_perm
            [(''a'', DirN mode_perm
               [(''OWNERS'', Reg mode_perm ''owners''), (''kep.yaml'', Reg mode_perm ''kep'')]),
             (''b'', DirN mode_perm [(''kep.yaml'', Reg mode_perm ''kep'')])])],
      fs_cwd = []\<rparr>"

lemma sample_parse:
  "parseKEPRoot sample_node_lib sample_fs ''keps/a/kep.yaml'' = Inr sample_kep"
  by code_simp

lemma sample_read_owners:
  "ReadFile sample_fs (ownersPathOf ''keps/a/kep.yaml'') = Inr ''owners''"
  by code_simp

lemma sample_owners:
  "yaml_OwnersFile sample_node_lib ''owners'' =
     Inr \<lparr>Reviewers = [''tallclair''], Approvers = [''dchen1107'', ''mrunalp'']\<rparr>"
  by code_simp

lemma sample_norm:
  "normalizeUser sample_node_lib ''tallclair'' = ''tallclair''"
  "normalizeUser sample_node_lib ''dchen1107'' = ''dchen1107''"
  "normalizeUser sample_node_lib ''mrunalp'' = ''mrunalp''"
  by code_simp+

lemma sample_assigned:
  "assignedReviewersOf sample_node_lib sample_kep = [''tallclair'']"
  "assignedApproversOf sample_node_lib sample_kep = [''dchen1107'']"
  "listedApproversOf sample_node_lib sample_kep = [''dchen1107'', ''mrunalp'']"
  by code_simp+

theorem verifyKEP_accepts_iff_witness:
  "verifyKEP sample_node_lib sample_fs ''keps/a/kep.yaml'' {''mrunalp''} = Inr [] \<and>
   verifyKEP sample_node_lib sample_fs ''keps/a/kep.yaml'' {} \<noteq> Inr []"
  by (simp add: verifyKEP_accepts_iff [OF sample_parse sample_read_owners sample_owners]
      sample_norm sample_assigned)

lemma map_filter_subseq:
  "(\<And>x. x \<in> set xs \<Longrightarrow> P x \<Longrightarrow> Q x) \<Longrightarrow> subseq (map f (filter P xs)) (map f (filter Q xs))"
  by (induction xs) auto

lemma verifyKEP_no_owners:
  assumes "parseKEPRoot L w p = Inr kep" and "find_followed w (ownersPathOf p) = Inl ENOENT"
  shows "verifyKEP L w p T =
    Inr (map (\<lambda>u. violation p reviewerRole u ''OWNERS file not found'')
           (assignedReviewersOf L kep) @
         map (\<lambda>u. violation p approverRole u ''OWNERS file not found'')
           (assignedApproversOf L kep))"
proof -
  have "ReadFile w (FJoin [Dir p, ''OWNERS'']) = Inl (PathError ''open'' (ownersPathOf p) ENOENT)"
    using assms(2) by (simp add: ReadFile_def Open_def ownersPathOf_def)
  then show ?thesis
    using assms(1) by (simp add: verifyKEP_def kep_parts Let_def)
qed

text \<open>
  C2: when the OWNERS file does not exist, \<open>verifyKEP\<close> reports one violation for each
  annotated reviewer and then one for each annotated approver, and none otherwise.
\<close>

theorem verifyKEP_missing_owners:
  assumes "parseKEPRoot L w p = Inr kep" and "find_followed w (ownersPathOf p) = Inl ENOENT"
  shows "verifyKEP L w p T =
    Inr (map (\<lambda>u. violation p reviewerRole u ''OWNERS file not found'')
           (assignedReviewersOf L kep) @
         map (\<lambda>u. violation p approverRole u ''OWNERS file not found'')
           (assignedApproversOf L kep))"
  using assms by (rule verifyKEP_no_owners)

lemma sample_parse_b:
  "parseKEPRoot sample_node_lib sample_fs ''keps/b/kep.yaml'' = Inr sample_kep"
  by code_simp

lemma sample_no_owners: "find_followed sample_fs (ownersPathOf ''keps/b/kep.yaml'') = Inl ENOENT"
  by code_simp

theorem verifyKEP_missing_owners_witness:
  "verifyKEP sample_node_lib sample_fs ''keps/b/kep.yaml'' {} =
     Inr [violation ''keps/b/kep.yaml'' reviewerRole ''tallclair'' ''OWNERS file not found'',
          violation ''keps/b/kep.yaml'' approverRole ''dchen1107'' ''OWNERS file not found'']"
  by (simp add: verifyKEP_missing_owners [OF sample_parse_b sample_no_owners] sample_assigned)

text \<open>
  A larger set of tech leads only removes violations: the report for it is a subsequence
  of the report for the smaller set. In particular every violation the check with tech leads
  reports is also reported by \<open>VerifyKEP\<close>, which knows none.
\<close>

theorem verifyKEP_techLeads_mono:
  assumes "T \<subseteq> T'" and "verifyKEP L w p T = Inr vs"
  shows "\<exists>vs'. verifyKEP L w p T' = Inr vs' \<and> subseq vs' vs"
proof -
  have "subseq (ownersViolations L p T' R A Ls owners) (ownersViolations L p T R A Ls owners)"
    for R A Ls owners
    unfolding ownersViolations_def
    by (intro list_emb_append_mono subseq_order.refl map_filter_subseq)
       (use assms(1) in \<open>auto simp: Let_def\<close>)
  then show ?thesis
    using assms(2) by (auto simp: verifyKEP_def Let_def split: sum.splits if_splits)
qed

theorem verifyKEP_techLeads_mono_witness:
  "\<exists>vs vs'. VerifyKEP sample_node_lib sample_fs ''keps/b/kep.yaml'' = Inr vs \<and> vs \<noteq> [] \<and>
     verifyKEP sample_node_lib sample_fs ''keps/b/kep.yaml'' {''mrunalp''} = Inr vs' \<and> subseq vs' vs"
  using verifyKEP_techLeads_mono [of "{}" "{''mrunalp''}" sample_node_lib sample_fs "''keps/b/kep.yaml''"]
  by (simp add: VerifyKEP_def verifyKEP_no_owners [OF sample_parse_b sample_no_owners] sample_assigned)

section \<open>The tech-lead rule\<close>

text \<open>
  C3: the tech-lead rule. A KEP passes exactly when it is no longer active, or its latest
  milestone predates v1.36, or it lists approvers such that: an alpha KEP of the upcoming
  release (or later) names a tech lead and marks tech leads only, and any other KEP names a
  tech lead or a marked approver.
\<close>

theorem VerifyTechLeadApprovers_accepts_iff:
  assumes "parseKEPMetadata L w p = Inr meta"
  shows "VerifyTechLeadApprovers L w p T upcoming = Inr [] \<longleftrightarrow>
    (let minor = parseMilestoneMinor (latestMilestone meta) in
     status meta \<in> {''withdrawn'', ''rejected'', ''replaced''} \<or> minor < 36 \<or>
     entries meta \<noteq> [] \<and>
     (if stage meta = ''alpha'' \<and> upcoming \<le> minor
      then (\<exists>e\<in>set (entries meta). EUser e \<in> T) \<and>
           (\<forall>e\<in>set (entries meta). Marked e \<longrightarrow> EUser e \<in> T)
      else \<exists>e\<in>set (entries meta). EUser e \<in> T \<or> Marked e))"
proof -
  have "VerifyTechLeadApprovers L w p T upcoming = Inr [] \<longleftrightarrow>
      techLeadViolations p meta T upcoming = []"
    using assms by (simp add: VerifyTechLeadApprovers_def)
  also have "\<dots> \<longleftrightarrow> (let minor = parseMilestoneMinor (latestMilestone meta) in
     status meta \<in> {''withdrawn'', ''rejected'', ''replaced''} \<or> minor < 36 \<or>
     entries meta \<noteq> [] \<and>
     (if stage meta = ''alpha'' \<and> upcoming \<le> minor
      then (\<exists>e\<in>set (entries meta). EUser e \<in> T) \<and>
           (\<forall>e\<in>set (entries meta). Marked e \<longrightarrow> EUser e \<in> T)
      else \<exists>e\<in>set (entries meta). EUser e \<in> T \<or> Marked e))"
    by (auto simp: techLeadViolations_def minEnforcedMinor_def Let_def list_ex_iff
        filter_eq_Nil_iff simp del: insert_iff)
  finally show ?thesis .
qed

definition sample_meta :: kepMetadata where
  "sample_meta = \<lparr>status = ''implementable'', stage = ''alpha'', latestMilestone = ''v1.36'',
     entries = [\<lparr>EUser = ''dchen1107'', Marked = True\<rparr>, \<lparr>EUser = ''mrunalp'', Marked = False\<rparr>]\<rparr>"

lemma sample_metadata:
  "parseKEPMetadata sample_node_lib sample_fs ''keps/a/kep.yaml'' = Inr sample_meta"
  by code_simp

lemma sample_milestone: "parseMilestoneMinor ''v1.36'' = 36"
  by code_simp

theorem VerifyTechLeadApprovers_accepts_iff_witness:
  "VerifyTechLeadApprovers sample_node_lib sample_fs ''keps/a/kep.yaml'' {''dchen1107''} 36 = Inr [] \<and>
   VerifyTechLeadApprovers sample_node_lib sample_fs ''keps/a/kep.yaml'' {''mrunalp''} 36 \<noteq> Inr [] \<and>
   VerifyTechLeadApprovers sample_node_lib sample_fs ''keps/a/kep.yaml'' {} 37 = Inr []"
  by (simp add: VerifyTechLeadApprovers_accepts_iff [OF sample_metadata] sample_meta_def
      sample_milestone Let_def)

section \<open>A tree of KEPs\<close>

definition kep_event :: "(string \<Rightarrow> goerr + Violation list) \<Rightarrow> wevent \<Rightarrow> goerr + Violation list" where
  "kep_event verify ev =
     (case ev of
        (path, d, Some e) \<Rightarrow> Inl e
      | (path, None, None) \<Rightarrow> Inr []
      | (path, Some fi, None) \<Rightarrow>
          if IsDir fi \<or> fi_name fi \<noteq> ''kep.yaml'' then Inr [] else verify path)"

abbreviation is_kep_yaml :: "string \<Rightarrow> bool" where
  "is_kep_yaml nm \<equiv> nm = ''kep.yaml''"

text \<open>The paths under which a traversal meets a file, not a directory, named kep.yaml.\<close>

definition kep_paths :: "fsys \<Rightarrow> string \<Rightarrow> string list" where
  "kep_paths w r = map fst (filter (selects is_kep_yaml) (root_events walkdir_events w r))"

lemma walkKEPs_never_skips: "never_skips (walkKEPs_fn verify)"
  by (auto simp: never_skips_def walkKEPs_fn_def split: option.splits sum.splits)

lemma walkKEPs_collect:
  "walkKEPs w r verify = Ret (collect_events (kep_event verify) (root_events walkdir_events w r))"
proof -
  let ?evs = "root_events walkdir_events w r"
  have "case collect_events (kep_event verify) ?evs of
         Inl err \<Rightarrow> \<exists>s'. run_events (walkKEPs_fn verify) ?evs [] = (s', WErr err)
       | Inr xs \<Rightarrow> run_events (walkKEPs_fn verify) ?evs [] = ([] @ xs, WNil)"
  proof (rule run_events_collect)
    fix s p fi e assume "(p, fi, e) \<in> set ?evs"
    then have "informed (p, fi, e)"
      by (rule root_events_informed [rotated]) (rule walkdir_events_informed)
    then show "walkKEPs_fn verify s p fi e =
        (case kep_event verify (p, fi, e) of Inl err \<Rightarrow> (s, WErr err) | Inr xs \<Rightarrow> (s @ xs, WNil))"
      by (auto simp: walkKEPs_fn_def kep_event_def informed_def split: option.splits sum.splits)
  qed
  then show ?thesis
    by (auto simp: walkKEPs_def WalkDir_run_events walkKEPs_never_skips split: sum.splits)
qed

lemma kep_event_concat:
  "concat (map (\<lambda>ev. projr (kep_event verify ev)) evs) =
   concat (map (projr \<circ> verify) (map fst (filter (selects is_kep_yaml) evs)))"
  if "\<forall>ev\<in>set evs. \<exists>xs. kep_event verify ev = Inr xs"
  using that
  by (induction evs) (auto simp: kep_event_def selects_def split: option.splits if_splits)

lemma walkKEPs_Inr_iff:
  "walkKEPs w r verify = Ret (Inr vs) \<longleftrightarrow>
     (\<forall>(p, d, e)\<in>set (root_events walkdir_events w r). e = None) \<and>
     (\<forall>p\<in>set (kep_paths w r). \<exists>xs. verify p = Inr xs) \<and>
     vs = concat (map (projr \<circ> verify) (kep_paths w r))"
proof -
  let ?evs = "root_events walkdir_events w r"
  have "(\<forall>ev\<in>set ?evs. \<exists>xs. kep_event verify ev = Inr xs) \<longleftrightarrow>
      (\<forall>(p, d, e)\<in>set ?evs. e = None) \<and> (\<forall>p\<in>set (kep_paths w r). \<exists>xs. verify p = Inr xs)"
    by (fastforce simp: kep_event_def kep_paths_def selects_def split: option.splits prod.splits)
  then show ?thesis
    using kep_event_concat [of ?evs verify]
    by (auto simp: walkKEPs_collect collect_events_Inr_iff kep_paths_def)
qed

lemma kep_paths_iff:
  assumes "cleaned rt cs" and "find_node w (render rt cs) = Inr n" and "plain_names n"
  shows "p \<in> set (kep_paths w (render rt cs)) \<longleftrightarrow>
    (\<exists>ds k. below n ds k \<and> node_mode k \<noteq> ModeDir \<and>
       last (Base (render rt cs) # ds) = ''kep.yaml'' \<and> p = render rt (cs @ ds))"
proof -
  have "p \<in> set (kep_paths w (render rt cs)) \<longleftrightarrow>
      (\<exists>fi. visits p fi (walkdir_events (render rt cs) (Base (render rt cs)) n) \<and>
         \<not> IsDir fi \<and> fi_name fi = ''kep.yaml'')"
    using assms(2)
    by (force simp: kep_paths_def selects_def root_events_def visits_def split: option.splits)
  then show ?thesis
    unfolding walkdir_events_below [OF assms(3,1)] by (metis info_of_simps)
qed

text \<open>
  The interface between the traversal and the checks it runs: a check reports violations of
  the file it was given. The two checks of the package keep that contract.
\<close>

locale kep_checker =
  fixes check :: "string \<Rightarrow> goerr + Violation list"
  assumes check_path: "check p = Inr vs \<Longrightarrow> v \<in> set vs \<Longrightarrow> KEPPath v = p"
begin

lemma report_of_path:
  assumes "walkKEPs w r check = Ret (Inr vs)" and "p \<in> set (kep_paths w r)"
  shows "\<exists>vsp. check p = Inr vsp \<and> {v \<in> set vs. KEPPath v = p} = set vsp"
proof -
  from assms obtain vsp where vsp: "check p = Inr vsp"
    and vs: "vs = concat (map (projr \<circ> check) (kep_paths w r))"
    and all: "\<forall>q\<in>set (kep_paths w r). \<exists>xs. check q = Inr xs"
    unfolding walkKEPs_Inr_iff by blast
  have "{v \<in> set vs. KEPPath v = p} = set vsp"
  proof
    show "set vsp \<subseteq> {v \<in> set vs. KEPPath v = p}"
      using assms(2) vsp check_path by (force simp: vs)
    show "{v \<in> set vs. KEPPath v = p} \<subseteq> set vsp"
    proof clarify
      fix v assume "v \<in> set vs" "p = KEPPath v"
      then obtain q where q: "q \<in> set (kep_paths w r)" "v \<in> set (projr (check q))"
        by (auto simp: vs)
      with all obtain xs where "check q = Inr xs" by blast
      with q check_path have "KEPPath v = q" by auto
      with q vsp \<open>p = KEPPath v\<close> show "v \<in> set vsp" by auto
    qed
  qed
  with vsp show ?thesis by blast
qed

lemma clean_report:
  "walkKEPs w r check = Ret (Inr []) \<longleftrightarrow>
     (\<forall>(p, d, e)\<in>set (root_events walkdir_events w r). e = None) \<and>
     (\<forall>p\<in>set (kep_paths w r). check p = Inr [])"
  by (fastforce simp: walkKEPs_Inr_iff)

end

lemma violation_path [simp]: "KEPPath (violation p role u reason) = p"
  by (simp add: violation_def)

lemma verifyKEP_path: "verifyKEP L w p T = Inr vs \<Longrightarrow> v \<in> set vs \<Longrightarrow> KEPPath v = p"
  by (auto simp: verifyKEP_def ownersViolations_def Let_def split: sum.splits if_splits)

lemma VerifyTechLeadApprovers_path:
  "VerifyTechLeadApprovers L w p T m = Inr vs \<Longrightarrow> v \<in> set vs \<Longrightarrow> KEPPath v = p"
  by (auto simp: VerifyTechLeadApprovers_def techLeadViolations_def Let_def
      split: sum.splits if_splits)

interpretation owners_checker: kep_checker "\<lambda>p. verifyKEP L w p T"
  for L :: "'a node_lib_scheme" and w T
  by unfold_locales (rule verifyKEP_path)

interpretation techlead_checker: kep_checker "\<lambda>p. VerifyTechLeadApprovers L w p T m"
  for L :: "'a node_lib_scheme" and w T m
  by unfold_locales (rule VerifyTechLeadApprovers_path)

lemma kep_below_in_paths:
  assumes "cleaned rt cs" and "find_node w (render rt cs) = Inr n" and "plain_names n"
    and "below n ds k" and "node_mode k \<noteq> ModeDir" and "ds \<noteq> []" and "last ds = ''kep.yaml''"
  shows "render rt (cs @ ds) \<in> set (kep_paths w (render rt cs))"
  using assms(4-7) kep_paths_iff [OF assms(1-3), of "render rt (cs @ ds)"] by auto

lemma kep_paths_tree:
  assumes "cleaned rt cs" and "find_node w (render rt cs) = Inr n" and "plain_names n" and "listable n"
  shows "kep_paths w (render rt cs) =
    map (\<lambda>ds. render rt (cs @ ds)) (tree_files is_kep_yaml (Base (render rt cs)) n)"
  using walkdir_events_files(1) [OF assms(4,3,1)] by (simp add: kep_paths_def root_events_def assms(2))

lemma map_Inr_iff:
  "(\<exists>yss. map f xs = map Inr yss \<and> ys = concat yss) \<longleftrightarrow>
     (\<forall>x\<in>set xs. \<exists>zs. f x = Inr zs) \<and> ys = concat (map (projr \<circ> f) xs)"
proof -
  have "map f xs = map Inr yss \<longleftrightarrow> (\<forall>x\<in>set xs. \<exists>zs. f x = Inr zs) \<and> yss = map (projr \<circ> f) xs" for yss
    by (induction xs arbitrary: yss) (auto simp: Cons_eq_map_conv)
  then show ?thesis unfolding conj_assoc by simp
qed

lemma walkKEPs_tree:
  assumes "cleaned rt cs" and "find_node w (render rt cs) = Inr n" and "plain_names n"
  shows "walkKEPs w (render rt cs) verify = Ret (Inr vs) \<longleftrightarrow> listable n \<and>
    (\<exists>reports. map (\<lambda>ds. verify (render rt (cs @ ds))) (tree_files is_kep_yaml (Base (render rt cs)) n) =
       map Inr reports \<and> vs = concat reports)"
proof -
  have err: "(\<forall>(p, d, e)\<in>set (root_events walkdir_events w (render rt cs)). e = None) \<longleftrightarrow> listable n"
    by (simp add: root_events_def assms(2) walkdir_events_errors(1))
  show ?thesis
  proof (cases "listable n")
    case True
    show ?thesis unfolding map_Inr_iff walkKEPs_Inr_iff err kep_paths_tree [OF assms True] by (simp add: True comp_def)
  next
    case False
    then show ?thesis unfolding walkKEPs_Inr_iff err by simp
  qed
qed

text \<open>
  C5: the tree check misses no KEP, checks nothing else and checks each KEP once. It returns a
  report exactly when the tech leads can be loaded, every directory of the tree can be listed
  and every file named kep.yaml in it can be checked; the report is then made of the reports of
  \<open>verifyKEP\<close> for these files, with the loaded tech leads, in the order of the tree.
\<close>

theorem VerifyAllWithTechLeads_report:
  assumes "cleaned rt cs" and "find_node w (render rt cs) = Inr n" and "plain_names n"
  shows "VerifyAllWithTechLeads L w (render rt cs) aliases = Ret (Inr vs) \<longleftrightarrow> listable n \<and>
    (\<exists>T reports. loadTechLeads L w aliases = Inr T \<and>
       map (\<lambda>ds. verifyKEP L w (render rt (cs @ ds)) T) (tree_files is_kep_yaml (Base (render rt cs)) n) =
         map Inr reports \<and> vs = concat reports)"
  unfolding VerifyAllWithTechLeads_def using walkKEPs_tree [OF assms]
  by (cases "loadTechLeads L w aliases") auto

lemma sample_kep_paths:
  "kep_paths sample_fs ''keps'' = [''keps/a/kep.yaml'', ''keps/b/kep.yaml'']"
  "\<forall>(p, d, e)\<in>set (root_events walkdir_events sample_fs ''keps''). e = None"
  by code_simp+

lemma sample_techLeads:
  "loadTechLeads sample_node_lib sample_fs ''OWNERS_ALIASES'' = Inr {''mrunalp'', ''dchen1107''}"
  by code_simp

lemma sample_verify_a:
  "verifyKEP sample_node_lib sample_fs ''keps/a/kep.yaml'' {''mrunalp'', ''dchen1107''} = Inr []"
  by (simp add: verifyKEP_with_owners [OF sample_parse sample_read_owners sample_owners]
      ownersViolations_Nil_iff sample_norm sample_assigned)

lemma sample_verify_b:
  "verifyKEP sample_node_lib sample_fs ''keps/b/kep.yaml'' T =
     Inr [violation ''keps/b/kep.yaml'' reviewerRole ''tallclair'' ''OWNERS file not found'',
          violation ''keps/b/kep.yaml'' approverRole ''dchen1107'' ''OWNERS file not found'']"
  by (simp add: verifyKEP_no_owners [OF sample_parse_b sample_no_owners] sample_assigned)

lemma render_keps: "render False [''keps''] = ''keps''"
  by (simp add: render_def)

lemma sample_verify_all:
  "VerifyAllWithTechLeads sample_node_lib sample_fs (render False [''keps'']) ''OWNERS_ALIASES'' =
     Ret (Inr [violation ''keps/b/kep.yaml'' reviewerRole ''tallclair'' ''OWNERS file not found'',
               violation ''keps/b/kep.yaml'' approverRole ''dchen1107'' ''OWNERS file not found''])"
  using sample_kep_paths
  by (simp add: VerifyAllWithTechLeads_def sample_techLeads render_keps walkKEPs_Inr_iff
      sample_verify_a sample_verify_b)

definition sample_keps :: fnode where
  "sample_keps = projr (find_node sample_fs (render False [''keps'']))"

lemma sample_keps_node:
  "find_node sample_fs (render False [''keps'']) = Inr sample_keps" "plain_names sample_keps"
  by code_simp+

lemma sample_keps_below: "below sample_keps [''b'', ''kep.yaml''] (Reg mode_perm ''kep'')"
proof -
  have *: "sample_keps = DirN mode_perm
      [(''a'', DirN mode_perm
         [(''OWNERS'', Reg mode_perm ''owners''), (''kep.yaml'', Reg mode_perm ''kep'')]),
       (''b'', DirN mode_perm [(''kep.yaml'', Reg mode_perm ''kep'')])]"
    by code_simp
  show ?thesis unfolding * by (auto simp: below_Dir_iff)
qed

theorem VerifyAllWithTechLeads_report_witness:
  "\<exists>reports. map (\<lambda>ds. verifyKEP sample_node_lib sample_fs (render False ([''keps''] @ ds)) {''mrunalp'', ''dchen1107''})
       [[''a'', ''kep.yaml''], [''b'', ''kep.yaml'']] = map Inr reports \<and>
     concat reports =
       [violation ''keps/b/kep.yaml'' reviewerRole ''tallclair'' ''OWNERS file not found'',
        violation ''keps/b/kep.yaml'' approverRole ''dchen1107'' ''OWNERS file not found'']"
proof -
  have files: "tree_files is_kep_yaml (Base (render False [''keps''])) sample_keps = [[''a'', ''kep.yaml''], [''b'', ''kep.yaml'']]"
    by code_simp
  have "cleaned False [''keps'']" by (simp add: plain_def)
  from VerifyAllWithTechLeads_report [OF this sample_keps_node, THEN iffD1, OF sample_verify_all]
  obtain T reports where T: "loadTechLeads sample_node_lib sample_fs ''OWNERS_ALIASES'' = Inr T"
    and reports: "map (\<lambda>ds. verifyKEP sample_node_lib sample_fs (render False ([''keps''] @ ds)) T)
        [[''a'', ''kep.yaml''], [''b'', ''kep.yaml'']] = map Inr reports"
      "[violation ''keps/b/kep.yaml'' reviewerRole ''tallclair'' ''OWNERS file not found'',
        violation ''keps/b/kep.yaml'' approverRole ''dchen1107'' ''OWNERS file not found''] = concat reports"
    unfolding files by blast
  from T have "T = {''mrunalp'', ''dchen1107''}" unfolding sample_techLeads by (rule Inr_inject [symmetric])
  with reports show ?thesis by (intro exI [of _ reports]) (simp only: refl simp_thms)
qed

text \<open>
  C6: the tech-lead check of a tree reports nothing exactly when every directory of the tree
  could be listed and every kep.yaml in it passes \<open>VerifyTechLeadApprovers\<close>; it reports
  nothing at all, and an error instead, when the tech leads cannot be loaded.
\<close>

theorem VerifyAllTechLeadApprovers_clean_iff:
  "VerifyAllTechLeadApprovers L w r aliases m = Ret (Inr []) \<longleftrightarrow>
     (\<exists>T. loadTechLeads L w aliases = Inr T \<and>
        (\<forall>(p, d, e)\<in>set (root_events walkdir_events w r). e = None) \<and>
        (\<forall>p\<in>set (kep_paths w r). VerifyTechLeadApprovers L w p T m = Inr []))"
  by (auto simp: VerifyAllTechLeadApprovers_def techlead_checker.clean_report split: sum.splits)

lemma sample_techlead_ok:
  "VerifyTechLeadApprovers sample_node_lib sample_fs ''keps/a/kep.yaml'' {''mrunalp'', ''dchen1107''} 36 = Inr []"
  "VerifyTechLeadApprovers sample_node_lib sample_fs ''keps/b/kep.yaml'' {''mrunalp'', ''dchen1107''} 36 = Inr []"
  by code_simp+

theorem VerifyAllTechLeadApprovers_clean_iff_witness:
  "VerifyAllTechLeadApprovers sample_node_lib sample_fs ''keps'' ''OWNERS_ALIASES'' 36 = Ret (Inr [])"
  unfolding VerifyAllTechLeadApprovers_clean_iff
proof (intro exI conjI)
  show "loadTechLeads sample_node_lib sample_fs ''OWNERS_ALIASES'' = Inr {''mrunalp'', ''dchen1107''}"
    by (rule sample_techLeads)
  show "\<forall>(p, d, e)\<in>set (root_events walkdir_events sample_fs ''keps''). e = None"
    by (rule sample_kep_paths)
qed (simp add: sample_kep_paths sample_techlead_ok)

text \<open>
  C7: \<open>loadTechLeads\<close> succeeds exactly when the file can be read and decoded and its alias
  sig-node-tech-leads has members, and then returns their normalised names; an alias that is
  absent or empty is an error, so the set is never empty.
\<close>

theorem loadTechLeads_members:
  "loadTechLeads L w p = Inr T \<longleftrightarrow>
     (\<exists>d aliases members. ReadFile w p = Inr d \<and> yaml_AliasesFile L d = Inr aliases \<and>
        Aliases aliases ''sig-node-tech-leads'' = Some members \<and> members \<noteq> [] \<and>
        T = normalizeUser L ` set members)"
  by (auto simp: loadTechLeads_def techLeadsAlias_def Let_def split: sum.splits option.splits if_splits)

theorem loadTechLeads_members_witness:
  "loadTechLeads sample_node_lib sample_fs ''OWNERS_ALIASES'' = Inr {''mrunalp'', ''dchen1107''} \<and>
   loadTechLeads sample_node_lib (sample_fs\<lparr>fs_root := DirN mode_perm []\<rparr>) ''OWNERS_ALIASES'' \<notin> range Inr"
proof
  show "loadTechLeads sample_node_lib sample_fs ''OWNERS_ALIASES'' = Inr {''mrunalp'', ''dchen1107''}"
    by (rule sample_techLeads)
  have "ReadFile (sample_fs\<lparr>fs_root := DirN mode_perm []\<rparr>) ''OWNERS_ALIASES'' =
      Inl (PathError ''open'' ''OWNERS_ALIASES'' ENOENT)"
    by code_simp
  then show "loadTechLeads sample_node_lib (sample_fs\<lparr>fs_root := DirN mode_perm []\<rparr>) ''OWNERS_ALIASES'' \<notin> range Inr"
    using loadTechLeads_members [of sample_node_lib "sample_fs\<lparr>fs_root := DirN mode_perm []\<rparr>" "''OWNERS_ALIASES''"]
    by auto
qed

section \<open>Alpha KEPs without a tech lead\<close>

text \<open>The entries of the active alpha KEPs that the rule is about, and what it reports of one.\<close>

definition enforced_alpha :: "kepMetadata \<Rightarrow> int \<Rightarrow> bool" where
  "enforced_alpha meta upcoming \<longleftrightarrow>
     stage meta = ''alpha'' \<and> status meta \<notin> {''withdrawn'', ''rejected'', ''replaced''} \<and>
     max 36 upcoming \<le> parseMilestoneMinor (latestMilestone meta)"

lemma techLeadViolations_alpha:
  assumes "enforced_alpha meta upcoming" and "\<forall>e\<in>set (entries meta). EUser e \<notin> T"
  shows "set (techLeadViolations p meta T upcoming) =
    (if entries meta = [] then {violation p ''approver'' [] ''no approvers listed''}
     else insert (violation p ''approver'' [] ''alpha-stage KEP must list at least one sig-node-tech-leads member as approver'')
       {violation p ''approver'' (EUser e)
          ''alpha-stage KEP must not use # sig-node-assigned-approver marker for a non-tech-lead approver'' | e.
        e \<in> set (entries meta) \<and> Marked e})"
  using assms
  by (auto simp: enforced_alpha_def techLeadViolations_def minEnforcedMinor_def approverRole_def list_ex_iff Let_def)

text \<open>
  C4: no alpha KEP of the upcoming release escapes the tech leads. If the tree check returns a
  report and none of the approvers of an active alpha KEP below the directory is, after
  normalisation, a member of the alias sig-node-tech-leads in the aliases file, then the report
  holds the violation that says so, and one more for each of its approvers who is marked as
  assigned; if it lists no approvers at all, the report says that instead.
\<close>

theorem alpha_needs_tech_lead:
  assumes "VerifyAllTechLeadApprovers L w (render rt cs) aliases upcoming = Ret (Inr vs)"
    and "cleaned rt cs" and "find_node w (render rt cs) = Inr n" and "plain_names n"
    and "below n ds k" and "node_mode k \<noteq> ModeDir" and "ds \<noteq> []" and "last ds = ''kep.yaml''"
    and "parseKEPMetadata L w (render rt (cs @ ds)) = Inr meta" and "enforced_alpha meta upcoming"
    and "ReadFile w aliases = Inr d" and "yaml_AliasesFile L d = Inr al"
    and "Aliases al ''sig-node-tech-leads'' = Some members"
    and "\<forall>e\<in>set (entries meta). EUser e \<notin> normalizeUser L ` set members"
  shows "{v \<in> set vs. KEPPath v = render rt (cs @ ds)} =
    (if entries meta = [] then {violation (render rt (cs @ ds)) ''approver'' [] ''no approvers listed''}
     else insert (violation (render rt (cs @ ds)) ''approver'' []
         ''alpha-stage KEP must list at least one sig-node-tech-leads member as approver'')
       {violation (render rt (cs @ ds)) ''approver'' (EUser e)
          ''alpha-stage KEP must not use # sig-node-assigned-approver marker for a non-tech-lead approver'' | e.
        e \<in> set (entries meta) \<and> Marked e})"
proof -
  let ?p = "render rt (cs @ ds)" and ?T = "normalizeUser L ` set members"
  from assms(1) obtain T where T: "loadTechLeads L w aliases = Inr T"
    and walk: "walkKEPs w (render rt cs) (\<lambda>p. VerifyTechLeadApprovers L w p T upcoming) = Ret (Inr vs)"
    by (auto simp: VerifyAllTechLeadApprovers_def split: sum.splits)
  from T assms(11-13) have "T = ?T"
    by (auto simp: loadTechLeads_def techLeadsAlias_def Let_def split: if_splits)
  with techlead_checker.report_of_path [OF walk kep_below_in_paths [OF assms(2-8)]] assms(9)
  have "{v \<in> set vs. KEPPath v = ?p} = set (techLeadViolations ?p meta ?T upcoming)"
    by (auto simp: VerifyTechLeadApprovers_def)
  then show ?thesis unfolding techLeadViolations_alpha [OF assms(10,14)] .
qed

definition sample_leads_lib :: node_lib where
  "sample_leads_lib = sample_node_lib\<lparr>yaml_AliasesFile := \<lambda>_. Inr \<lparr>Aliases = \<lambda>_. Some [''@klueska'']\<rparr>\<rparr>"

definition sample_alpha_report :: "string \<Rightarrow> Violation list" where
  "sample_alpha_report p =
     [violation p ''approver'' [] ''alpha-stage KEP must list at least one sig-node-tech-leads member as approver'',
      violation p ''approver'' ''dchen1107''
        ''alpha-stage KEP must not use # sig-node-assigned-approver marker for a non-tech-lead approver'']"

lemma sample_alpha:
  "loadTechLeads sample_leads_lib sample_fs ''OWNERS_ALIASES'' = Inr {''klueska''}"
  "VerifyTechLeadApprovers sample_leads_lib sample_fs ''keps/a/kep.yaml'' {''klueska''} 36 = Inr (sample_alpha_report ''keps/a/kep.yaml'')"
  "VerifyTechLeadApprovers sample_leads_lib sample_fs ''keps/b/kep.yaml'' {''klueska''} 36 = Inr (sample_alpha_report ''keps/b/kep.yaml'')"
  "parseKEPMetadata sample_leads_lib sample_fs (render False ([''keps''] @ [''b'', ''kep.yaml''])) = Inr sample_meta"
  "ReadFile sample_fs ''OWNERS_ALIASES'' = Inr ''aliases''" "normalizeUser sample_leads_lib ''@klueska'' = ''klueska''"
  by code_simp+

lemma sample_verify_leads:
  "VerifyAllTechLeadApprovers sample_leads_lib sample_fs (render False [''keps'']) ''OWNERS_ALIASES'' 36 =
     Ret (Inr (sample_alpha_report ''keps/a/kep.yaml'' @ sample_alpha_report ''keps/b/kep.yaml''))"
  using sample_kep_paths
  by (simp add: VerifyAllTechLeadApprovers_def sample_alpha render_keps walkKEPs_Inr_iff)

theorem alpha_needs_tech_lead_witness:
  "{v \<in> set (sample_alpha_report ''keps/a/kep.yaml'' @ sample_alpha_report ''keps/b/kep.yaml'').
      KEPPath v = render False ([''keps''] @ [''b'', ''kep.yaml''])} = set (sample_alpha_report ''keps/b/kep.yaml'')"
proof -
  have al: "yaml_AliasesFile sample_leads_lib ''aliases'' = Inr \<lparr>Aliases = \<lambda>_. Some [''@klueska'']\<rparr>"
    "Aliases \<lparr>Aliases = \<lambda>_. Some [''@klueska'']\<rparr> ''sig-node-tech-leads'' = Some [''@klueska'']"
    by (simp_all add: sample_leads_lib_def)
  have "render False ([''keps''] @ [''b'', ''kep.yaml'']) = ''keps/b/kep.yaml''" by code_simp
  then show ?thesis
    using alpha_needs_tech_lead [OF sample_verify_leads _ sample_keps_node sample_keps_below _ _ _ sample_alpha(4) _ sample_alpha(5) al]
    by (auto simp: plain_def sample_meta_def enforced_alpha_def sample_milestone sample_alpha(6) sample_alpha_report_def)
qed

section \<open>Versions\<close>

text \<open>Characters that neither trimming step of \<open>parseMilestoneMinor\<close> removes.\<close>

definition okc :: "char \<Rightarrow> bool" where
  "okc c \<longleftrightarrow> graphic c \<and> c \<noteq> CHR 0x22"

lemma parseMilestoneMinor_version:
  assumes n: "in_int64 n"
    and maj: "maj \<noteq> []" "list_all okc maj" "CHR ''.'' \<notin> set maj" "hd maj \<noteq> CHR ''v''"
    and rest: "rest = [] \<or> (\<exists>r. rest = CHR ''.'' # r \<and> list_all okc r)"
    and v: "v = [] \<or> v = ''v''"
  shows "parseMilestoneMinor (v @ maj @ CHR ''.'' # Itoa n @ rest) = n"
proof -
  let ?s = "v @ maj @ CHR ''.'' # Itoa n @ rest"
  have digits: "list_all okc (Itoa n)" "CHR ''.'' \<notin> set (Itoa n)"
    by (auto simp: okc_def list_all_iff is_digit_def graphic_def dest!: Itoa_chars)
  then have "list_all okc ?s"
    using maj rest v by (auto simp: okc_def graphic_def)
  then have ok: "?s \<noteq> []" "okc (hd ?s)" "okc (last ?s)"
    using list_all_ends [of okc ?s] by simp_all
  have "Trim ?s [CHR 0x22] = ?s"
    using ok by (intro Trim_ends) (auto simp: okc_def)
  moreover have "TrimSpace ?s = ?s"
    using ok by (intro TrimSpace_graphic) (auto simp: okc_def)
  moreover have "TrimPrefix ?s ''v'' = maj @ CHR ''.'' # Itoa n @ rest"
    using v maj by (cases maj) (auto simp: TrimPrefix_def HasPrefix_def)
  moreover have "SplitN 3 CHR ''.'' (maj @ CHR ''.'' # Itoa n @ rest) =
      (case rest of [] \<Rightarrow> [maj, Itoa n] | _ # r \<Rightarrow> [maj, Itoa n, r])"
    using rest SplitN_3 [OF maj(3) digits(2)] by auto
  ultimately show ?thesis
    using rest n by (auto simp: parseMilestoneMinor_def Let_def Atoi_Itoa)
qed

lemma tags_loop_sets:
  "set (fst (tags_loop ts seen rel)) = set seen \<union> {m. \<exists>t\<in>set ts. tag_minor t = Some m}"
  "set (snd (tags_loop ts seen rel)) =
     set rel \<union> {m. \<exists>t\<in>set ts. tag_minor t = Some m \<and> tag_released t m}"
  by (induction ts seen rel rule: tags_loop.induct) (auto split: option.splits)

lemma max_loop_Max: "max_loop ms = Max (insert 0 (set ms))"
proof -
  have "foldl (\<lambda>x m. if m > x then m else x) a ms = Max (insert a (set ms))" for a :: int
  proof (induction ms arbitrary: a)
    case (Cons m ms)
    have "Max (insert a (insert m (set ms))) = Max (insert (if m > a then m else a) (set ms))"
      by (cases "set ms = {}") (auto simp: max_def)
    then show ?case using Cons by simp
  qed simp
  then show ?thesis by (simp add: max_loop_def)
qed

text \<open>
  C8: a tag \<open>v1.N.P\<close> counts for the minor version \<open>N\<close> (for any \<open>N\<close> other than 0 that fits
  an \<open>int\<close>), and it marks that version as released exactly when \<open>P\<close> is \<open>0\<close> or starts with
  \<open>0-rc.\<close>.
\<close>

theorem tag_of_version:
  assumes "in_int64 n" and "n \<noteq> 0" and "list_all okc r"
  shows "tag_minor (''v1.'' @ Itoa n @ ''.'' @ r) = Some n \<and>
    (tag_released (''v1.'' @ Itoa n @ ''.'' @ r) n \<longleftrightarrow> r = ''0'' \<or> HasPrefix r ''0-rc.'')"
proof -
  have p: "TrimPrefix (''v1.'' @ Itoa n @ ''.'' @ r) ''v'' = ''1.'' @ Itoa n @ ''.'' @ r"
    by (simp add: TrimPrefix_def HasPrefix_def)
  have "parseMilestoneMinor ([] @ ''1'' @ CHR ''.'' # Itoa n @ CHR ''.'' # r) = n"
    using assms by (intro parseMilestoneMinor_version) (auto simp: okc_def graphic_def)
  moreover have "TrimPrefix ((''1.'' @ Itoa n @ ''.'') @ r) (''1.'' @ Itoa n @ ''.'') = r"
    by (rule TrimPrefix_append)
  ultimately show ?thesis
    using assms(2) p by (simp add: tag_minor_def tag_released_def Let_def)
qed

theorem tag_of_version_witness:
  "tag_minor (''v1.'' @ Itoa 36 @ ''.'' @ ''0-rc.1'') = Some 36 \<and>
   tag_released (''v1.'' @ Itoa 36 @ ''.'' @ ''0-rc.1'') 36"
  using tag_of_version [of 36 "''0-rc.1''"]
  by (simp add: in_int64_def okc_def graphic_def HasPrefix_def)

text \<open>
  C9: the upcoming minor version. When the tags can be fetched and decoded, and whatever
  order Go ranges over the map in, \<open>FetchUpcomingMinor\<close> returns the highest minor version
  that has a tag, plus one (in 64-bit arithmetic) if that version has a release tag; it
  fails exactly when no tag has a positive minor version.
\<close>

theorem FetchUpcomingMinor_spec:
  assumes "http_Get L k8sTagsURL = Inr resp" and "StatusCode resp = 200"
    and "json_Decode (Body resp) = Inr j" and "decode_tags j = Some tags"
    and order: "\<And>xs. set (order xs) = set xs"
  defines "M \<equiv> {m. \<exists>t\<in>set tags. tag_minor t = Some m}"
  shows "FetchUpcomingMinor L order =
    (if \<exists>m\<in>M. 0 < m
     then Inr (if \<exists>t\<in>set tags. tag_minor t = Some (Max M) \<and> tag_released t (Max M)
               then add64 (Max M) 1 else Max M)
     else Inl (ErrorString ''no v1.X.Y tags found in kubernetes/kubernetes''))"
proof -
  obtain seen released where loop: "tags_loop tags [] [] = (seen, released)"
    by (cases "tags_loop tags [] []")
  have seen: "set seen = M" and rel: "\<And>m. m \<in> set released \<longleftrightarrow>
      (\<exists>t\<in>set tags. tag_minor t = Some m \<and> tag_released t m)"
    using tags_loop_sets [of tags "[]" "[]"] loop by (auto simp: M_def)
  have fin: "finite M" using seen by (metis List.finite_set)
  have max: "max_loop (order seen) = Max (insert 0 M)"
    by (simp add: max_loop_Max order seen)
  have pos: "Max (insert 0 M) = 0 \<longleftrightarrow> \<not> (\<exists>m\<in>M. 0 < m)"
    using fin by (auto simp: Max_eq_iff not_less)
  have Max: "Max (insert 0 M) = Max M" if "\<exists>m\<in>M. 0 < m"
  proof -
    from that have "M \<noteq> {}" by auto
    moreover with that fin have "0 < Max M" by (simp add: Max_gr_iff)
    ultimately show ?thesis using fin by simp
  qed
  have eq: "FetchUpcomingMinor L order =
      (if Max (insert 0 M) = 0 then Inl (ErrorString ''no v1.X.Y tags found in kubernetes/kubernetes'')
       else if Max (insert 0 M) \<in> set released then Inr (add64 (Max (insert 0 M)) 1)
       else Inr (Max (insert 0 M)))"
    using assms(1-4) by (simp add: FetchUpcomingMinor_def loop max)
  show ?thesis
  proof (cases "\<exists>m\<in>M. 0 < m")
    case True
    with pos have "Max M \<noteq> 0" unfolding Max [OF True] by simp
    with True show ?thesis unfolding eq rel Max [OF True] by auto
  next
    case False
    then show ?thesis unfolding eq pos by simp
  qed
qed

theorem FetchUpcomingMinor_spec_witness:
  "FetchUpcomingMinor sample_node_lib rev = Inr 36"
proof -
  let ?r = "\<lparr>StatusCode = 200, Body = (show_json sample_tags, None)\<rparr>"
  let ?tags = "[''v1.36.0-alpha.1'', ''v1.35.0'']"
  have t: "tag_minor ''v1.36.0-alpha.1'' = Some 36" "tag_minor ''v1.35.0'' = Some 35"
    "\<not> tag_released ''v1.36.0-alpha.1'' 36"
    by code_simp+
  have "{m. \<exists>t\<in>set ?tags. tag_minor t = Some m} = {36, 35}" using t by auto
  moreover have "FetchUpcomingMinor sample_node_lib rev =
    (if \<exists>m\<in>{m. \<exists>t\<in>set ?tags. tag_minor t = Some m}. 0 < m
     then Inr (if \<exists>t\<in>set ?tags. tag_minor t = Some (Max {m. \<exists>t\<in>set ?tags. tag_minor t = Some m}) \<and>
                 tag_released t (Max {m. \<exists>t\<in>set ?tags. tag_minor t = Some m})
               then add64 (Max {m. \<exists>t\<in>set ?tags. tag_minor t = Some m}) 1
               else Max {m. \<exists>t\<in>set ?tags. tag_minor t = Some m})
     else Inl (ErrorString ''no v1.X.Y tags found in kubernetes/kubernetes''))"
  proof (rule FetchUpcomingMinor_spec [where resp = ?r and j = sample_tags])
    show "http_Get sample_node_lib k8sTagsURL = Inr ?r" by (simp add: sample_node_lib_def)
    show "json_Decode (Body ?r) = Inr sample_tags" by (simp add: sample_tags_read)
    show "decode_tags sample_tags = Some ?tags" by (simp add: sample_tags_def lower_char_def)
  qed simp_all
  ultimately show ?thesis using t by simp
qed

end
