(* ===== verification/Document.thy ===== *)
theory Document
  imports GoIO
begin

text \<open>
  What the document handlers share: the state of a parser (api/document.go), the errors about
  production readiness reviews (api/error.go), and the strict decoding of YAML
  (pkg/yaml/yaml.go). The decoder itself is gopkg.in/yaml.v3: a function that takes whether
  unknown fields are errors, the text, and the value decoded into, and returns the value it
  leaves there (also when it fails half-way) with an error.
\<close>

section \<open>Decoding and encoding YAML\<close>

type_synonym 'v decoder = "bool \<Rightarrow> string \<Rightarrow> 'v \<Rightarrow> 'v \<times> goerr option"

definition UnmarshalStrict :: "'v decoder \<Rightarrow> string \<Rightarrow> 'v \<Rightarrow> 'v \<times> goerr option" where
  "UnmarshalStrict decode body v = decode True body v"

definition Marshal :: "('v \<Rightarrow> goerr + string) \<Rightarrow> 'v \<Rightarrow> goerr + string" where
  "Marshal encode v = encode v"


section \<open>Parsers\<close>

record Parser =
  Groups :: "string list"
  PRRApprovers :: "string list"
  Errors :: "goerr option list"

definition add_error :: "goerr option \<Rightarrow> Parser \<Rightarrow> Parser" where
  "add_error e k = k\<lparr>Errors := Errors k @ [e]\<rparr>"

lemma add_error_simps [simp]:
  "Groups (add_error e k) = Groups k" "PRRApprovers (add_error e k) = PRRApprovers k"
  "Errors (add_error e k) = Errors k @ [e]"
  by (simp_all add: add_error_def)

fun IsOneOf :: "string \<Rightarrow> string list \<Rightarrow> bool" where
  "IsOneOf check [] = False"
| "IsOneOf check (v # vs) = (if v = check then True else IsOneOf check vs)"

lemma IsOneOf_iff [simp]: "IsOneOf check vs \<longleftrightarrow> check \<in> set vs"
  by (induction vs) auto

interpretation one_of: string_search "\<lambda>vs check. IsOneOf check vs" "\<lambda>v. v"
  by unfold_locales simp


section \<open>Errors about production readiness reviews\<close>

definition ErrPRRMilestonesAllEmpty :: "'a errors_lib_scheme \<Rightarrow> goerr" where
  "ErrPRRMilestonesAllEmpty L = errors_New L ''none of the PRR milestones are populated''"

definition ErrPRRMilestoneIsNil :: "'a errors_lib_scheme \<Rightarrow> goerr" where
  "ErrPRRMilestoneIsNil L = errors_New L ''the selected PRR milestone stage is not populated''"

definition ErrPRRApproverUnknown :: "'a errors_lib_scheme \<Rightarrow> goerr" where
  "ErrPRRApproverUnknown L =
     errors_New L ''an unknown error occurred while trying to determine a PRR approver''"


section \<open>Enumerations\<close>

text \<open>
  The interface of a string type with a list of valid values: the check returns nil exactly
  for the values of the list.
\<close>

definition go_strings :: "string list \<Rightarrow> string" where
  "go_strings xs = ''['' @ Join xs '' '' @ '']''"

fun is_valid_loop :: "string list \<Rightarrow> goerr \<Rightarrow> string \<Rightarrow> goerr option" where
  "is_valid_loop [] err s = Some err"
| "is_valid_loop (v # vs) err s = (if s = v then None else is_valid_loop vs err s)"

lemma is_valid_loop_iff [simp]: "is_valid_loop vs err s = None \<longleftrightarrow> s \<in> set vs"
  by (induction vs) auto

lemma is_valid_loop_eq: "is_valid_loop vs err s = (if s \<in> set vs then None else Some err)"
  by (induction vs) auto

locale string_enum =
  fixes valid :: "string list" and IsValid :: "string \<Rightarrow> goerr option"
  assumes IsValid_nil_iff: "IsValid s = None \<longleftrightarrow> s \<in> set valid"
    and nonempty_values: "[] \<notin> set valid"
begin

lemma IsValid_empty: "\<exists>e. IsValid [] = Some e"
  using IsValid_nil_iff [of "[]"] nonempty_values by auto

lemma IsValid_nonempty: "IsValid s = None \<Longrightarrow> s \<noteq> []"
  using IsValid_nil_iff nonempty_values by auto

end

end
