(* ===== verification/GoMD5.thy ===== *)
theory GoMD5
  imports GoStrings "HOL-Library.Word"
begin

unbundle bit_operations_syntax

text \<open>
  Package crypto/md5 (RFC 1321) and the verb \<open>%x\<close>, from which the program computes the
  identifier of a KEP. Words are 32 bits wide and wrap around; messages are byte strings.
\<close>

section \<open>The compression function\<close>

type_synonym u32 = "32 word"

definition md5_K :: "u32 list" where
  "md5_K =
    [0xd76aa478, 0xe8c7b756, 0x242070db, 0xc1bdceee, 0xf57c0faf, 0x4787c62a, 0xa8304613, 0xfd469501,
     0x698098d8, 0x8b44f7af, 0xffff5bb1, 0x895cd7be, 0x6b901122, 0xfd987193, 0xa679438e, 0x49b40821,
     0xf61e2562, 0xc040b340, 0x265e5a51, 0xe9b6c7aa, 0xd62f105d, 0x02441453, 0xd8a1e681, 0xe7d3fbc8,
     0x21e1cde6, 0xc33707d6, 0xf4d50d87, 0x455a14ed, 0xa9e3e905, 0xfcefa3f8, 0x676f02d9, 0x8d2a4c8a,
     0xfffa3942, 0x8771f681, 0x6d9d6122, 0xfde5380c, 0xa4beea44, 0x4bdecfa9, 0xf6bb4b60, 0xbebfbc70,
     0x289b7ec6, 0xeaa127fa, 0xd4ef3085, 0x04881d05, 0xd9d4d039, 0xe6db99e5, 0x1fa27cf8, 0xc4ac5665,
     0xf4292244, 0x432aff97, 0xab9423a7, 0xfc93a039, 0x655b59c3, 0x8f0ccc92, 0xffeff47d, 0x85845dd1,
     0x6fa87e4f, 0xfe2ce6e0, 0xa3014314, 0x4e0811a1, 0xf7537e82, 0xbd3af235, 0x2ad7d2bb, 0xeb86d391]"

text \<open>The shift amount and the message word of each of the 64 steps.\<close>

definition md5_shifts :: "nat list" where
  "md5_shifts =
    [7, 12, 17, 22, 7, 12, 17, 22, 7, 12, 17, 22, 7, 12, 17, 22,
     5, 9, 14, 20, 5, 9, 14, 20, 5, 9, 14, 20, 5, 9, 14, 20,
     4, 11, 16, 23, 4, 11, 16, 23, 4, 11, 16, 23, 4, 11, 16, 23,
     6, 10, 15, 21, 6, 10, 15, 21, 6, 10, 15, 21, 6, 10, 15, 21]"

definition md5_words :: "nat list" where
  "md5_words =
    [0, 1, 2, 3, 4, 5, 6, 7, 8, 9, 10, 11, 12, 13, 14, 15,
     1, 6, 11, 0, 5, 10, 15, 4, 9, 14, 3, 8, 13, 2, 7, 12,
     5, 8, 11, 14, 1, 4, 7, 10, 13, 0, 3, 6, 9, 12, 15, 2,
     0, 7, 14, 5, 12, 3, 10, 1, 8, 15, 6, 13, 4, 11, 2, 9]"

datatype md5_round = RF | RG | RH | RI

definition md5_rounds :: "md5_round list" where
  "md5_rounds = replicate 16 RF @ replicate 16 RG @ replicate 16 RH @ replicate 16 RI"

fun md5_mix :: "md5_round \<Rightarrow> u32 \<Rightarrow> u32 \<Rightarrow> u32 \<Rightarrow> u32" where
  "md5_mix RF b c d = (b AND c) OR (NOT b AND d)"
| "md5_mix RG b c d = (d AND b) OR (NOT d AND c)"
| "md5_mix RH b c d = b XOR c XOR d"
| "md5_mix RI b c d = c XOR (b OR NOT d)"

definition rotl32 :: "nat \<Rightarrow> u32 \<Rightarrow> u32" where
  "rotl32 n x = push_bit n x OR drop_bit (32 - n) x"

fun md5_step ::
  "u32 list \<Rightarrow> u32 \<times> u32 \<times> u32 \<times> u32 \<Rightarrow> md5_round \<times> u32 \<times> nat \<times> nat \<Rightarrow> u32 \<times> u32 \<times> u32 \<times> u32" where
  "md5_step M (a, b, c, d) (r, k, g, n) = (d, b + rotl32 n (a + md5_mix r b c d + k + M ! g), b, c)"

definition md5_block ::
  "u32 list \<Rightarrow> u32 \<times> u32 \<times> u32 \<times> u32 \<Rightarrow> u32 \<times> u32 \<times> u32 \<times> u32" where
  "md5_block M s =
     (case (s, foldl (md5_step M) s (zip md5_rounds (zip md5_K (zip md5_words md5_shifts)))) of
        ((a0, b0, c0, d0), (a, b, c, d)) \<Rightarrow> (a0 + a, b0 + b, c0 + c, d0 + d))"

section \<open>Messages\<close>

definition byte_of :: "int \<Rightarrow> nat \<Rightarrow> int" where
  "byte_of n k = (n div 256 ^ k) mod 256"

text \<open>Padding: a 1 bit, zeros up to 56 bytes modulo 64, the length in bits, little endian.\<close>

definition md5_pad :: "int list \<Rightarrow> int list" where
  "md5_pad bs =
     bs @ [128] @ replicate ((119 - length bs mod 64) mod 64) 0 @
     map (byte_of (8 * int (length bs))) [0..<8]"

fun le_words :: "int list \<Rightarrow> u32 list" where
  "le_words (a # b # c # d # bs) =
     of_int (a + 256 * b + 65536 * c + 16777216 * d) # le_words bs"
| "le_words _ = []"

function md5_blocks :: "u32 list \<Rightarrow> u32 \<times> u32 \<times> u32 \<times> u32 \<Rightarrow> u32 \<times> u32 \<times> u32 \<times> u32" where
  "md5_blocks ws s = (if length ws < 16 then s else md5_blocks (drop 16 ws) (md5_block (take 16 ws) s))"
  by pat_completeness auto
termination
  by (relation "measure (length \<circ> fst)") auto

declare md5_blocks.simps [simp del]

definition word_bytes :: "u32 \<Rightarrow> int list" where
  "word_bytes x = map (byte_of (uint x)) [0..<4]"

definition md5_Sum :: "string \<Rightarrow> int list" where
  "md5_Sum s =
     (case md5_blocks (le_words (md5_pad (map (\<lambda>c. int (of_char c)) s)))
             (0x67452301, 0xefcdab89, 0x98badcfe, 0x10325476) of
        (a, b, c, d) \<Rightarrow> word_bytes a @ word_bytes b @ word_bytes c @ word_bytes d)"

definition hex_bytes :: "int list \<Rightarrow> string" where
  "hex_bytes bs = concat (map (\<lambda>b. [hex_digit (nat (b div 16)), hex_digit (nat (b mod 16))]) bs)"

lemma length_md5_Sum: "length (md5_Sum s) = 16"
  by (simp add: md5_Sum_def word_bytes_def split: prod.splits)

lemma md5_Sum_bytes: "b \<in> set (md5_Sum s) \<Longrightarrow> 0 \<le> b \<and> b < 256"
  by (auto simp: md5_Sum_def word_bytes_def byte_of_def split: prod.splits)

lemma length_hex_bytes: "length (hex_bytes bs) = 2 * length bs"
  by (induction bs) (simp_all add: hex_bytes_def)

definition hex_char :: "char \<Rightarrow> bool" where
  "hex_char c \<longleftrightarrow> c \<in> set ''0123456789abcdef''"

lemma hex_digits_chars: "list_all (hex_char \<circ> hex_digit) [0..<16]"
  by code_simp

lemma hex_digit_char: "d < 16 \<Longrightarrow> hex_char (hex_digit d)"
  using hex_digits_chars by (simp add: list_all_iff)

lemma hex_bytes_chars: "\<forall>b\<in>set bs. 0 \<le> b \<and> b < 256 \<Longrightarrow> list_all hex_char (hex_bytes bs)"
  by (auto simp: hex_bytes_def list_all_iff intro!: hex_digit_char)

end
