(* ===== verification/Proposal.thy ===== *)
theory Proposal
  imports Document GoMD5
begin

text \<open>
  KEPs (api/proposal.go): the data of a proposal, the parser that splits the YAML front
  matter from the markdown and decodes it, and the validation of the decoded fields. Besides
  the errors package, the strict decoder and the struct validator are outside the repository:
  the fields \<open>yaml_Proposal\<close> and \<open>validator_Proposal\<close> of \<open>kep_lib\<close>. A pointer
  to a proposal is a \<open>Proposal option\<close>, nil being \<^term>\<open>None\<close>.
\<close>

section \<open>Stages and statuses\<close>

type_synonym Stage = string
type_synonym Status = string

definition AlphaStage :: Stage where "AlphaStage = ''alpha''"
definition BetaStage :: Stage where "BetaStage = ''beta''"
definition StableStage :: Stage where "StableStage = ''stable''"
definition Deprecated :: Stage where "Deprecated = ''deprecated''"
definition Disabled :: Stage where "Disabled = ''disabled''"
definition Removed :: Stage where "Removed = ''removed''"

definition ValidStages :: "Stage list" where
  "ValidStages = [AlphaStage, BetaStage, StableStage, Deprecated, Disabled, Removed]"

definition Stage_IsValid :: "Stage \<Rightarrow> goerr option" where
  "Stage_IsValid s =
     is_valid_loop ValidStages
       (ErrorString (''invalid stage: '' @ s @ '', should be one of '' @ go_strings ValidStages)) s"

definition ProvisionalStatus :: Status where "ProvisionalStatus = ''provisional''"
definition ImplementableStatus :: Status where "ImplementableStatus = ''implementable''"
definition ImplementedStatus :: Status where "ImplementedStatus = ''implemented''"
definition DeferredStatus :: Status where "DeferredStatus = ''deferred''"
definition RejectedStatus :: Status where "RejectedStatus = ''rejected''"
definition WithdrawnStatus :: Status where "WithdrawnStatus = ''withdrawn''"
definition ReplacedStatus :: Status where "ReplacedStatus = ''replaced''"

definition ValidStatuses :: "Status list" where
  "ValidStatuses =
     [ProvisionalStatus, ImplementableStatus, ImplementedStatus, DeferredStatus, RejectedStatus,
      WithdrawnStatus, ReplacedStatus]"

definition Status_IsValid :: "Status \<Rightarrow> goerr option" where
  "Status_IsValid s =
     is_valid_loop ValidStatuses
       (ErrorString (''invalid status: '' @ s @ '', should be one of '' @ go_strings ValidStatuses)) s"

lemmas stage_names =
  AlphaStage_def BetaStage_def StableStage_def Deprecated_def Disabled_def Removed_def

lemmas status_names =
  ProvisionalStatus_def ImplementableStatus_def ImplementedStatus_def DeferredStatus_def
  RejectedStatus_def WithdrawnStatus_def ReplacedStatus_def

interpretation stage_enum: string_enum ValidStages Stage_IsValid
  by unfold_locales (simp_all add: Stage_IsValid_def ValidStages_def stage_names)

interpretation status_enum: string_enum ValidStatuses Status_IsValid
  by unfold_locales (simp_all add: Status_IsValid_def ValidStatuses_def status_names)


section \<open>Proposals\<close>

record Milestone =
  m_Alpha :: string
  m_Beta :: string
  m_Stable :: string
  m_Deprecated :: string
  m_Removed :: string
  m_Disabled :: string

record FeatureGate =
  fg_Name :: string
  fg_Components :: "string slice"

record Proposal =
  ID :: string
  PRNumber :: string
  Name :: string
  Path :: string
  Title :: string
  Number :: string
  Authors :: "string slice"
  OwningSIG :: string
  ParticipatingSIGs :: "string slice"
  Reviewers :: "string slice"
  Approvers :: "string slice"
  Editor :: string
  CreationDate :: string
  LastUpdated :: string
  StatusOf :: Status
  SeeAlso :: "string slice"
  Replaces :: "string slice"
  SupersededBy :: "string slice"
  StageOf :: Stage
  LatestMilestone :: string
  MilestoneOf :: Milestone
  FeatureGates :: "FeatureGate slice"
  DisableSupported :: bool
  Metrics :: "string slice"
  Filename :: string
  Error :: "goerr option"
  Contents :: string

text \<open>The zero value of the struct.\<close>

definition zero_Milestone :: Milestone where
  "zero_Milestone =
     \<lparr>m_Alpha = [], m_Beta = [], m_Stable = [], m_Deprecated = [], m_Removed = [], m_Disabled = []\<rparr>"

definition zero_Proposal :: Proposal where
  "zero_Proposal =
     \<lparr>ID = [], PRNumber = [], Name = [], Path = [], Title = [], Number = [], Authors = None,
      OwningSIG = [], ParticipatingSIGs = None, Reviewers = None, Approvers = None, Editor = [],
      CreationDate = [], LastUpdated = [], StatusOf = [], SeeAlso = None, Replaces = None,
      SupersededBy = None, StageOf = [], LatestMilestone = [], MilestoneOf = zero_Milestone,
      FeatureGates = None, DisableSupported = False, Metrics = None, Filename = [],
      Error = None, Contents = []\<rparr>"

definition AddProposal :: "'p list \<Rightarrow> 'p \<Rightarrow> 'p list" where
  "AddProposal ps p = ps @ [p]"

definition IsMissingMilestone :: "Proposal \<Rightarrow> bool" where
  "IsMissingMilestone p \<longleftrightarrow> LatestMilestone p = []"

definition IsMissingStage :: "Proposal \<Rightarrow> bool" where
  "IsMissingStage p \<longleftrightarrow> StageOf p = []"


section \<open>Parsing\<close>

record kep_lib = errors_lib +
  yaml_Proposal :: "Proposal option decoder"
  validator_Proposal :: "Proposal option \<Rightarrow> goerr option"

definition hash :: "string \<Rightarrow> string" where
  "hash s = hex_bytes (md5_Sum s)"

definition is_separator :: "string \<Rightarrow> bool" where
  "is_separator line \<longleftrightarrow> Contains line ''---''"

fun parse_lines :: "string list \<Rightarrow> nat \<Rightarrow> string \<Rightarrow> string \<Rightarrow> nat \<times> string \<times> string" where
  "parse_lines [] count metadata body = (count, metadata, body)"
| "parse_lines (text # ts) count metadata body =
     (let line = text @ [newline] in
      if is_separator line then parse_lines ts (count + 1) metadata body
      else if count = 1 then parse_lines ts count (metadata @ line) body
      else parse_lines ts count metadata (body @ line))"

definition validateStruct :: "'a kep_lib_scheme \<Rightarrow> Proposal option \<Rightarrow> goerr option" where
  "validateStruct L p = validator_Proposal L p"

text \<open>The part of \<open>Parse\<close> after the loop: decoding, validating, and the identifier.\<close>

definition decode_KEP ::
  "'a kep_lib_scheme \<Rightarrow> Parser \<Rightarrow> string \<Rightarrow> Proposal \<Rightarrow>
   (Parser \<times> Proposal option \<times> goerr option) outcome" where
  "decode_KEP L k metadata kep0 =
     (case UnmarshalStrict (yaml_Proposal L) metadata (Some kep0) of
        (kep, Some e) \<Rightarrow>
          Ret (add_error (errors_Wrap L (Some e) ''error unmarshalling YAML'') k, kep,
               errors_Wrap L (Some e) ''unmarshalling YAML'')
      | (kep, None) \<Rightarrow>
          (case validateStruct L kep of
             Some e \<Rightarrow> Ret (add_error (Some e) k, kep, Some (WrapError ''validating KEP: '' e))
           | None \<Rightarrow>
               (case kep of
                  None \<Rightarrow> Panic
                | Some p \<Rightarrow>
                    Ret (k, Some (p\<lparr>ID := hash (OwningSIG p @ '':'' @ Title p)\<rparr>), None))))"

definition KEPHandler_Parse ::
  "'a kep_lib_scheme \<Rightarrow> Parser \<Rightarrow> reader \<Rightarrow> (Parser \<times> Proposal option \<times> goerr option) outcome" where
  "KEPHandler_Parse L k r =
     (case parse_lines (scan_text r) 0 [] [] of
        (count, metadata, body) \<Rightarrow>
          let kep = zero_Proposal\<lparr>Contents := body\<rparr> in
          case scan_err r of
            Some e \<Rightarrow> Ret (k, Some kep, errors_Wrap L (Some e) ''reading file'')
          | None \<Rightarrow>
              if count = 0 then decode_KEP L k body (kep\<lparr>Contents := []\<rparr>)
              else decode_KEP L k metadata kep)"


section \<open>Validation\<close>

definition validateGroups :: "Parser \<Rightarrow> Proposal \<Rightarrow> goerr list" where
  "validateGroups k p =
     (let validGroups = set (Groups k) in
      map (\<lambda>g. ErrorString (''invalid participating-sig: '' @ g))
        (filter (\<lambda>g. g \<notin> validGroups) (elems (ParticipatingSIGs p))) @
      (if OwningSIG p \<notin> validGroups
       then [ErrorString (''invalid owning-sig: '' @ OwningSIG p)] else []))"

definition KEPHandler_Validate :: "'a kep_lib_scheme \<Rightarrow> Parser \<Rightarrow> Proposal \<Rightarrow> goerr list" where
  "KEPHandler_Validate L k p =
     (case validateStruct L (Some p) of
        Some e \<Rightarrow> [WrapError ''struct-based validation: '' e] | None \<Rightarrow> []) @
     validateGroups k p @
     (case Status_IsValid (StatusOf p) of Some e \<Rightarrow> [e] | None \<Rightarrow> []) @
     (case Stage_IsValid (StageOf p) of Some e \<Rightarrow> [e] | None \<Rightarrow> []) @
     (if StatusOf p = ImplementedStatus \<and> StageOf p \<noteq> StableStage
      then [ErrorString (''status:implemented implies stage:stable but found: '' @ StageOf p)]
      else [])"


section \<open>Documented behaviour of the struct validator\<close>

text \<open>
  The tag \<open>required\<close> rejects the empty string and a nil slice, not an empty slice; a nil
  pointer is not a struct and is an error.
\<close>

definition required_fields :: "Proposal \<Rightarrow> bool" where
  "required_fields p \<longleftrightarrow>
     Title p \<noteq> [] \<and> Number p \<noteq> [] \<and> Authors p \<noteq> None \<and> OwningSIG p \<noteq> [] \<and>
     Approvers p \<noteq> None \<and> StatusOf p \<noteq> []"

definition validator_Proposal_ok :: "'a kep_lib_scheme \<Rightarrow> bool" where
  "validator_Proposal_ok L \<longleftrightarrow>
     (\<exists>e. validator_Proposal L None = Some e) \<and>
     (\<forall>p. validator_Proposal L (Some p) = None \<longleftrightarrow> required_fields p)"

lemma validateStruct_nil_iff:
  assumes "validator_Proposal_ok L"
  shows "validateStruct L po = None \<longleftrightarrow> (\<exists>p. po = Some p \<and> required_fields p)"
  using assms by (cases po) (auto simp: validateStruct_def validator_Proposal_ok_def)

end
