(* ===== verification/Approval.thy ===== *)
theory Approval
  imports Proposal
begin

text \<open>
  Production readiness review approvals (api/approval.go): the data of an approval file, its
  parser, and the approver it names for a stage. The decoder and validator for approvals are
  fields of \<open>prr_lib\<close>.
\<close>

section \<open>Approvals\<close>

record PRRMilestone =
  Approver :: string

record PRRApproval =
  prr_Number :: string
  prr_Alpha :: "PRRMilestone option"
  prr_Beta :: "PRRMilestone option"
  prr_Stable :: "PRRMilestone option"
  prr_Deprecated :: "PRRMilestone option"
  prr_Removed :: "PRRMilestone option"
  prr_Disabled :: "PRRMilestone option"
  prr_Error :: "goerr option"

definition zero_PRRApproval :: PRRApproval where
  "zero_PRRApproval =
     \<lparr>prr_Number = [], prr_Alpha = None, prr_Beta = None, prr_Stable = None, prr_Deprecated = None,
      prr_Removed = None, prr_Disabled = None, prr_Error = None\<rparr>"

definition AddPRRApproval :: "PRRApproval option list \<Rightarrow> PRRApproval option \<Rightarrow> PRRApproval option list" where
  "AddPRRApproval ps p = ps @ [p]"

record prr_lib = kep_lib +
  yaml_PRR :: "PRRApproval option decoder"
  validator_PRR :: "PRRApproval option \<Rightarrow> goerr option"

definition PRRApproval_Validate :: "'a prr_lib_scheme \<Rightarrow> PRRApproval option \<Rightarrow> goerr option" where
  "PRRApproval_Validate L prr =
     (case validator_PRR L prr of
        Some e \<Rightarrow> errors_Wrap L (Some e) ''running validation''
      | None \<Rightarrow> None)"

definition approver_of :: "'a errors_lib_scheme \<Rightarrow> PRRMilestone option \<Rightarrow> goerr + string" where
  "approver_of L m =
     (case m of None \<Rightarrow> Inl (ErrPRRMilestoneIsNil L) | Some m \<Rightarrow> Inr (Approver m))"

definition ApproverForStage :: "'a errors_lib_scheme \<Rightarrow> PRRApproval \<Rightarrow> Stage \<Rightarrow> goerr + string" where
  "ApproverForStage L prr stage =
     (case Stage_IsValid stage of
        Some e \<Rightarrow> Inl e
      | None \<Rightarrow>
          if prr_Alpha prr = None \<and> prr_Beta prr = None \<and> prr_Stable prr = None \<and>
             prr_Deprecated prr = None \<and> prr_Disabled prr = None \<and> prr_Removed prr = None
          then Inl (ErrPRRMilestonesAllEmpty L)
          else if stage = AlphaStage then approver_of L (prr_Alpha prr)
          else if stage = BetaStage then approver_of L (prr_Beta prr)
          else if stage = StableStage then approver_of L (prr_Stable prr)
          else if stage = Deprecated then approver_of L (prr_Deprecated prr)
          else if stage = Disabled then approver_of L (prr_Disabled prr)
          else if stage = Removed then approver_of L (prr_Removed prr)
          else Inl (ErrPRRApproverUnknown L))"

definition prr_body :: "string list \<Rightarrow> string" where
  "prr_body ts = foldl (\<lambda>body text. body @ (text @ [newline])) [] ts"

definition PRRHandler_Parse ::
  "'a prr_lib_scheme \<Rightarrow> Parser \<Rightarrow> reader \<Rightarrow> Parser \<times> PRRApproval option \<times> goerr option" where
  "PRRHandler_Parse L p r =
     (let body = prr_body (scan_text r); approval = Some zero_PRRApproval in
      case scan_err r of
        Some e \<Rightarrow> (p, approval, errors_Wrap L (Some e) ''reading file'')
      | None \<Rightarrow>
          (case UnmarshalStrict (yaml_PRR L) body approval of
             (approval, Some e) \<Rightarrow>
               (add_error (errors_Wrap L (Some e) ''error unmarshalling YAML'') p, approval,
                errors_Wrap L (Some e) ''unmarshalling YAML'')
           | (approval, None) \<Rightarrow>
               (case PRRApproval_Validate L approval of
                  Some e \<Rightarrow>
                    (add_error (errors_Wrap L (Some e) ''validating PRR'') p, approval,
                     errors_Wrap L (Some e) ''validating PRR'')
                | None \<Rightarrow> (p, approval, None))))"

lemma prr_body_unlines: "prr_body ts = unlines ts"
proof -
  have "foldl (\<lambda>body text. body @ (text @ [newline])) b ts = b @ unlines ts" for b
    by (induction ts arbitrary: b) simp_all
  then show ?thesis by (simp add: prr_body_def)
qed

section \<open>The approver of a stage\<close>

text \<open>The specification: each valid stage has its own milestone in the approval.\<close>

definition milestone_for :: "PRRApproval \<Rightarrow> Stage \<rightharpoonup> PRRMilestone" where
  "milestone_for prr s =
     (case map_of [(''alpha'', prr_Alpha prr), (''beta'', prr_Beta prr), (''stable'', prr_Stable prr),
        (''deprecated'', prr_Deprecated prr), (''disabled'', prr_Disabled prr),
        (''removed'', prr_Removed prr)] s of
        None \<Rightarrow> None | Some m \<Rightarrow> m)"

lemma ValidStages_eq:
  "ValidStages = [''alpha'', ''beta'', ''stable'', ''deprecated'', ''disabled'', ''removed'']"
  by (simp add: ValidStages_def stage_names)

lemma milestone_for_simps [simp]:
  "milestone_for prr ''alpha'' = prr_Alpha prr" "milestone_for prr ''beta'' = prr_Beta prr"
  "milestone_for prr ''stable'' = prr_Stable prr"
  "milestone_for prr ''deprecated'' = prr_Deprecated prr"
  "milestone_for prr ''disabled'' = prr_Disabled prr" "milestone_for prr ''removed'' = prr_Removed prr"
  by (simp_all add: milestone_for_def)

lemma ApproverForStage_valid:
  assumes "s \<in> set ValidStages"
  shows "ApproverForStage L prr s =
    (if \<forall>s\<in>set ValidStages. milestone_for prr s = None then Inl (ErrPRRMilestonesAllEmpty L)
     else approver_of L (milestone_for prr s))"
proof -
  have "(prr_Alpha prr = None \<and> prr_Beta prr = None \<and> prr_Stable prr = None \<and>
      prr_Deprecated prr = None \<and> prr_Disabled prr = None \<and> prr_Removed prr = None) \<longleftrightarrow>
      (\<forall>s\<in>set ValidStages. milestone_for prr s = None)"
    by (simp add: ValidStages_eq)
  moreover have "Stage_IsValid s = None" using assms by (simp add: stage_enum.IsValid_nil_iff)
  ultimately show ?thesis
    using assms by (auto simp: ApproverForStage_def stage_names ValidStages_eq)
qed

section \<open>Parsing approvals\<close>

text \<open>
  Documented behaviour of the validator: a nil approval is an error; the number and the
  approver of every milestone given are required.
\<close>

definition prr_fields :: "PRRApproval \<Rightarrow> bool" where
  "prr_fields prr \<longleftrightarrow>
     prr_Number prr \<noteq> [] \<and>
     list_all (\<lambda>s. case milestone_for prr s of None \<Rightarrow> True | Some m \<Rightarrow> Approver m \<noteq> []) ValidStages"

definition validator_PRR_ok :: "'a prr_lib_scheme \<Rightarrow> bool" where
  "validator_PRR_ok L \<longleftrightarrow>
     (\<exists>e. validator_PRR L None = Some e) \<and>
     (\<forall>prr. validator_PRR L (Some prr) = None \<longleftrightarrow> prr_fields prr)"

lemma PRRApproval_Validate_nil_iff:
  assumes "validator_PRR_ok L" and "errors_lib_ok L"
  shows "PRRApproval_Validate L po = None \<longleftrightarrow> (\<exists>prr. po = Some prr \<and> prr_fields prr)"
proof (cases po)
  case None
  then show ?thesis
    using assms(1) by (auto simp: PRRApproval_Validate_def validator_PRR_ok_def errors_Wrap_None_iffs [OF assms(2)])
next
  case (Some prr)
  have "validator_PRR L (Some prr) = None \<longleftrightarrow> prr_fields prr"
    using assms(1) by (simp add: validator_PRR_ok_def)
  with Some show ?thesis
    by (cases "validator_PRR L (Some prr)")
      (auto simp: PRRApproval_Validate_def errors_Wrap_None_iffs [OF assms(2)])
qed

lemma PRRHandler_Parse_nil_iff:
  assumes "validator_PRR_ok L" and "errors_lib_ok L"
  shows "PRRHandler_Parse L h r = (h', po, None) \<longleftrightarrow>
    h' = h \<and> scan_err r = None \<and>
    (\<exists>prr. po = Some prr \<and> prr_fields prr \<and>
       yaml_PRR L True (unlines (scan_text r)) (Some zero_PRRApproval) = (Some prr, None))"
proof -
  obtain qo eo where d: "yaml_PRR L True (unlines (scan_text r)) (Some zero_PRRApproval) = (qo, eo)"
    by force
  note parse = PRRHandler_Parse_def prr_body_unlines UnmarshalStrict_def Let_def d
    errors_Wrap_None_iffs [OF assms(2)]
  show ?thesis
    using PRRApproval_Validate_nil_iff [OF assms, of qo]
    by (cases "scan_err r"; cases eo; cases "PRRApproval_Validate L qo") (auto simp: parse)
qed

end
