(* ===== verification/GoRegexp.thy ===== *)
theory GoRegexp
  imports GoStrings
begin

text \<open>
  Regular expressions of package regexp, as far as the program uses them: the abstract syntax,
  and the leftmost-first match of \<open>FindStringSubmatch\<close> and \<open>MatchString\<close>, in which the
  alternatives of an expression are tried in order, greedy repetitions first. A match is the
  list of what the groups captured last. Characters are bytes.
\<close>

datatype regexp =
    REmpty
  | RChar "char \<Rightarrow> bool"
  | REnd
  | RSeq regexp regexp
  | RAlt regexp regexp
  | RStar regexp
  | RGroup nat regexp

type_synonym caps = "nat \<Rightarrow> string"

definition any_char :: "char \<Rightarrow> bool" where
  "any_char c \<longleftrightarrow> c \<noteq> CHR 0x0A"

primrec rlit :: "string \<Rightarrow> regexp" where
  "rlit [] = REmpty"
| "rlit (c # cs) = RSeq (RChar (\<lambda>x. x = c)) (rlit cs)"

definition RPlus :: "regexp \<Rightarrow> regexp" where
  "RPlus r = RSeq r (RStar r)"

definition ROpt :: "regexp \<Rightarrow> regexp" where
  "ROpt r = RAlt r REmpty"

text \<open>
  The ways \<open>r\<close> matches a prefix of \<open>s\<close>, in order of preference: what is left of
  \<open>s\<close> and the captures. An iteration of a repetition that consumes nothing ends it.
\<close>

function (sequential) ways :: "regexp \<Rightarrow> string \<Rightarrow> caps \<Rightarrow> (string \<times> caps) list" where
  "ways REmpty s cs = [(s, cs)]"
| "ways (RChar p) s cs = (case s of [] \<Rightarrow> [] | c # t \<Rightarrow> if p c then [(t, cs)] else [])"
| "ways REnd s cs = (if s = [] then [(s, cs)] else [])"
| "ways (RSeq q r) s cs =
     concat (map (\<lambda>m. ways r (fst m) (snd m)) (ways q s cs))"
| "ways (RAlt q r) s cs = ways q s cs @ ways r s cs"
| "ways (RStar r) s cs =
     concat (map (\<lambda>m. if length (fst m) < length s then ways (RStar r) (fst m) (snd m) else [])
       (ways r s cs)) @ [(s, cs)]"
| "ways (RGroup n r) s cs =
     map (\<lambda>m. (fst m, (snd m)(n := take (length s - length (fst m)) s))) (ways r s cs)"
  by pat_completeness auto
termination
  by (relation "measures [\<lambda>(r, s, cs). size r, \<lambda>(r, s, cs). length s]") auto

definition first_way :: "regexp \<Rightarrow> string \<Rightarrow> caps option" where
  "first_way r s = (case ways r s (\<lambda>_. []) of [] \<Rightarrow> None | m # ms \<Rightarrow> Some (snd m))"

text \<open>\<open>FindStringSubmatch\<close>: the groups of the leftmost match; nothing when there is none.\<close>

fun find_submatch :: "regexp \<Rightarrow> string \<Rightarrow> caps option" where
  "find_submatch r [] = first_way r []"
| "find_submatch r (c # s) =
     (case first_way r (c # s) of Some cs \<Rightarrow> Some cs | None \<Rightarrow> find_submatch r s)"

definition MatchString :: "regexp \<Rightarrow> string \<Rightarrow> bool" where
  "MatchString r s \<longleftrightarrow> find_submatch r s \<noteq> None"

lemma ways_rlit:
  "ways (rlit p) s cs = (if prefix p s then [(drop (length p) s, cs)] else [])"
proof (induction p arbitrary: s)
  case (Cons c p)
  then show ?case by (cases s) auto
qed simp

declare ways.simps(6) [simp del]

lemma ways_star_char_Nil [simp]: "ways (RStar (RChar p)) [] cs = [([], cs)]"
  by (simp add: ways.simps(6))

lemma ways_star_char_Cons [simp]:
  "ways (RStar (RChar p)) (c # s) cs =
     (if p c then ways (RStar (RChar p)) s cs else []) @ [(c # s, cs)]"
  by (subst ways.simps(6)) simp

lemma ways_star_char_end:
  "list_all p s \<Longrightarrow> \<exists>ms. ways (RStar (RChar p)) s cs = ([], cs) # ms"
  by (induction s) auto

lemma ways_star_char:
  "m \<in> set (ways (RStar (RChar p)) s cs) \<Longrightarrow> suffix (fst m) s \<and> snd m = cs"
  by (induction s) (auto intro: suffix_ConsI split: if_splits)

text \<open>A literal in front of the rest of a line: the rest after the first occurrence.\<close>

definition rest_of_line :: "string \<Rightarrow> regexp" where
  "rest_of_line p = RSeq (rlit p) (RSeq (RGroup 1 (RStar (RChar any_char))) REnd)"

lemma first_way_rest_of_line:
  assumes "list_all any_char s"
  shows "map_option (\<lambda>cs. cs 1) (first_way (rest_of_line p) s) =
    (if prefix p s then Some (drop (length p) s) else None)"
proof (cases "prefix p s")
  case True
  then obtain t where s: "s = p @ t" by (auto simp: prefix_def)
  with assms have "list_all any_char t" by simp
  then obtain ms where "ways (RStar (RChar any_char)) t (\<lambda>_. []) = ([], \<lambda>_. []) # ms"
    using ways_star_char_end by blast
  then show ?thesis using s by (simp add: first_way_def rest_of_line_def ways_rlit)
next
  case False
  then show ?thesis by (simp add: first_way_def rest_of_line_def ways_rlit)
qed

fun after_first :: "string \<Rightarrow> string \<Rightarrow> string option" where
  "after_first p [] = (if p = [] then Some [] else None)"
| "after_first p (c # s) =
     (if prefix p (c # s) then Some (drop (length p) (c # s)) else after_first p s)"

lemma find_submatch_rest_of_line:
  "list_all any_char s \<Longrightarrow>
   map_option (\<lambda>cs. cs 1) (find_submatch (rest_of_line p) s) = after_first p s"
proof (induction s)
  case Nil
  then show ?case using first_way_rest_of_line [of "[]" p] by simp
next
  case (Cons c s)
  then show ?case
    using first_way_rest_of_line [of "c # s" p] by (auto split: option.splits)
qed

lemma after_first_Some_iff:
  "after_first p s = Some t \<longleftrightarrow>
   (\<exists>a. s = a @ p @ t \<and> (\<forall>a'. strict_prefix a' a \<longrightarrow> \<not> prefix p (drop (length a') s)))"
proof (induction s)
  case Nil
  then show ?case by auto
next
  case (Cons c s)
  show ?case
  proof (cases "prefix p (c # s)")
    case True
    then obtain u where u: "c # s = p @ u" by (auto simp: prefix_def)
    have "(\<exists>a. c # s = a @ p @ t \<and> (\<forall>a'. strict_prefix a' a \<longrightarrow> \<not> prefix p (drop (length a') (c # s))))
      \<longleftrightarrow> u = t"
    proof
      assume "\<exists>a. c # s = a @ p @ t \<and> (\<forall>a'. strict_prefix a' a \<longrightarrow> \<not> prefix p (drop (length a') (c # s)))"
      then obtain a where a: "c # s = a @ p @ t"
        and "\<forall>a'. strict_prefix a' a \<longrightarrow> \<not> prefix p (drop (length a') (c # s))" by blast
      then have "\<not> strict_prefix [] a" using True by (metis drop0 list.size(3))
      then have "a = []" by (cases a) simp_all
      with a u show "u = t" by simp
    qed (use u in \<open>auto intro!: exI [of _ "[]"]\<close>)
    moreover have "after_first p (c # s) = Some u"
    proof -
      have "drop (length p) (c # s) = u" unfolding u by simp
      with True show ?thesis by simp
    qed
    ultimately show ?thesis by simp
  next
    case False
    have "(\<exists>a. c # s = a @ p @ t \<and> (\<forall>a'. strict_prefix a' a \<longrightarrow> \<not> prefix p (drop (length a') (c # s))))
      \<longleftrightarrow> (\<exists>a. s = a @ p @ t \<and> (\<forall>a'. strict_prefix a' a \<longrightarrow> \<not> prefix p (drop (length a') s)))"
      (is "?l \<longleftrightarrow> ?r")
    proof
      assume ?l
      then obtain a where a: "c # s = a @ p @ t"
        and first: "\<forall>a'. strict_prefix a' a \<longrightarrow> \<not> prefix p (drop (length a') (c # s))" by blast
      from a False obtain b where b: "a = c # b" by (cases a) auto
      with a have "s = b @ p @ t" by simp
      moreover have "\<not> prefix p (drop (length a') s)" if "strict_prefix a' b" for a'
        using first [rule_format, of "c # a'"] that b by simp
      ultimately show ?r by blast
    next
      assume ?r
      then obtain a where a: "s = a @ p @ t"
        and first: "\<forall>a'. strict_prefix a' a \<longrightarrow> \<not> prefix p (drop (length a') s)" by blast
      have "\<not> prefix p (drop (length a') (c # s))" if "strict_prefix a' (c # a)" for a'
        using that False first by (cases a') auto
      with a show ?l by (intro exI [of _ "c # a"]) simp
    qed
    with False Cons.IH show ?thesis by simp
  qed
qed

end
