(* ===== verification/GroupFetchers.thy ===== *)
theory GroupFetchers
  imports Approval GoRegexp
begin

text \<open>
  Where the valid groups and the PRR approvers come from (api/groups.go): the interface
  \<open>GroupFetcher\<close> with its two implementations. The HTTP service and the decoder of
  OWNERS_ALIASES are fields of \<open>group_lib\<close>; a map from aliases to lists of names is a
  function that is empty where the map has no entry.
\<close>

section \<open>Fetchers\<close>

record group_lib = prr_lib +
  net_Get :: "string \<Rightarrow> goerr + http_response"
  yaml_Aliases :: "(string \<Rightarrow> string list) decoder"

record MockGroupFetcher =
  mock_Groups :: "string list"
  mock_PRRApprovers :: "string list"

record RemoteGroupFetcher =
  GroupsListURL :: string
  OwnersAliasesURL :: string
  PRRApproversAlias :: string
  PRRApproversEmeritusAlias :: string

datatype GroupFetcher = MockFetcher MockGroupFetcher | RemoteFetcher RemoteGroupFetcher

definition DefaultGroupFetcher :: GroupFetcher where
  "DefaultGroupFetcher = RemoteFetcher
     \<lparr>GroupsListURL = ''https://raw.githubusercontent.com/kubernetes/community/master/sigs.yaml'',
      OwnersAliasesURL = ''https://raw.githubusercontent.com/kubernetes/enhancements/master/OWNERS_ALIASES'',
      PRRApproversAlias = ''prod-readiness-approvers'',
      PRRApproversEmeritusAlias = ''prod-readiness-approvers-emeritus''\<rparr>"

definition NewMockGroupFetcher :: "string list \<Rightarrow> string list \<Rightarrow> GroupFetcher" where
  "NewMockGroupFetcher groups prrApprovers =
     MockFetcher \<lparr>mock_Groups = groups, mock_PRRApprovers = prrApprovers\<rparr>"

definition Mock_FetchGroups :: "MockGroupFetcher \<Rightarrow> string list \<times> goerr option" where
  "Mock_FetchGroups f = (mock_Groups f, None)"

definition Mock_FetchPRRApprovers :: "MockGroupFetcher \<Rightarrow> string list \<times> goerr option" where
  "Mock_FetchPRRApprovers f = (mock_PRRApprovers f, None)"

section \<open>The remote fetcher\<close>

text \<open>The regular expression \<open>- dir: (.*)$\<close>.\<close>

definition dir_regexp :: regexp where
  "dir_regexp = rest_of_line ''- dir: ''"

definition group_matches :: "string list \<Rightarrow> string list" where
  "group_matches ts =
     concat (map (\<lambda>t. case find_submatch dir_regexp t of None \<Rightarrow> [] | Some cs \<Rightarrow> [cs 1]) ts)"

definition Remote_FetchGroups :: "'a group_lib_scheme \<Rightarrow> RemoteGroupFetcher \<Rightarrow> string list \<times> goerr option" where
  "Remote_FetchGroups L f =
     (case net_Get L (GroupsListURL f) of
        Inl e \<Rightarrow> ([], errors_Wrap L (Some e) ''fetching SIG list'')
      | Inr resp \<Rightarrow>
          if StatusCode resp \<noteq> 200
          then ([], Some (errors_New L
                 (''invalid status code when fetching SIG list: '' @ Itoa (StatusCode resp))))
          else let result = group_matches (scan_text (Body resp)) in
               case scan_err (Body resp) of
                 Some e \<Rightarrow> ([], errors_Wrap L (Some e) ''scanning SIG list'')
               | None \<Rightarrow> (sort result, None))"

definition Remote_FetchPRRApprovers ::
  "'a group_lib_scheme \<Rightarrow> RemoteGroupFetcher \<Rightarrow> string list \<times> goerr option" where
  "Remote_FetchPRRApprovers L f =
     (case net_Get L (OwnersAliasesURL f) of
        Inl e \<Rightarrow> ([], errors_Wrap L (Some e) ''fetching owners aliases'')
      | Inr resp \<Rightarrow>
          if StatusCode resp \<noteq> 200
          then ([], Some (errors_New L
                 (''invalid status code when fetching owners aliases: '' @ Itoa (StatusCode resp))))
          else
            (case ReadAll (Body resp) of
               Inl e \<Rightarrow> ([], errors_Wrap L (Some e) ''reading owners aliases'')
             | Inr body \<Rightarrow>
                 (case UnmarshalStrict (yaml_Aliases L) body (\<lambda>_. []) of
                    (config, Some e) \<Rightarrow>
                      ([], errors_Wrap L (Some e) ''unmarshalling owners aliases'')
                  | (config, None) \<Rightarrow>
                      let result = config (PRRApproversAlias f) @ config (PRRApproversEmeritusAlias f)
                      in if result = []
                         then ([], Some (errors_New L ''retrieved zero PRR approvers, which is unexpected''))
                         else (sort result, None))))"

primrec FetchGroups :: "'a group_lib_scheme \<Rightarrow> GroupFetcher \<Rightarrow> string list \<times> goerr option" where
  "FetchGroups L (MockFetcher f) = Mock_FetchGroups f"
| "FetchGroups L (RemoteFetcher f) = Remote_FetchGroups L f"

primrec FetchPRRApprovers :: "'a group_lib_scheme \<Rightarrow> GroupFetcher \<Rightarrow> string list \<times> goerr option" where
  "FetchPRRApprovers L (MockFetcher f) = Mock_FetchPRRApprovers f"
| "FetchPRRApprovers L (RemoteFetcher f) = Remote_FetchPRRApprovers L f"

end
