(* ===== verification/KepVal.thy ===== *)
theory KepVal
  imports GroupFetchers
begin

text \<open>
  The check that a KEP has the production readiness approval its status and milestone call for
  (pkg/kepval/approval.go). Versions are parsed and compared by github.com/blang/semver, the
  fields added by \<open>val_lib\<close>. Log output is not modelled.
\<close>

record SemVer =
  Major :: nat
  Minor :: nat
  Patch :: nat
  Pre :: "string list"
  Build :: "string list"

record val_lib = group_lib +
  semver_ParseTolerant :: "string \<Rightarrow> goerr + SemVer"
  semver_LT :: "SemVer \<Rightarrow> SemVer \<Rightarrow> bool"

definition isPRRRequired :: "'a val_lib_scheme \<Rightarrow> Proposal \<Rightarrow> bool \<times> goerr option" where
  "isPRRRequired L kep =
     (let required = (StatusOf kep = ImplementableStatus \<or> StatusOf kep = ImplementedStatus) in
      if \<not> required then (False, None)
      else if IsMissingMilestone kep
      then (required, Some (ErrorString (''missing the latest milestone field: '' @ Filename kep)))
      else if IsMissingStage kep
      then (required, Some (ErrorString (''missing the stage field: '' @ Filename kep)))
      else case semver_ParseTolerant L ''v1.21'' of
             Inl e \<Rightarrow> (required, errors_Wrap L (Some e) ''creating a SemVer object for PRRs'')
           | Inr prrRequiredAtSemVer \<Rightarrow>
               (case semver_ParseTolerant L (LatestMilestone kep) of
                  Inl e \<Rightarrow>
                    (required, errors_Wrap L (Some e) ''creating a SemVer object for latest milestone'')
                | Inr latestSemVer \<Rightarrow>
                    if semver_LT L latestSemVer prrRequiredAtSemVer then (False, None)
                    else (required, None)))"

definition prr_filepath :: "Proposal \<Rightarrow> string \<Rightarrow> string" where
  "prr_filepath kep prrDir = FJoin [prrDir, OwningSIG kep, Number kep @ ''.yaml'']"

definition check_approver ::
  "'a val_lib_scheme \<Rightarrow> Proposal \<Rightarrow> Parser \<Rightarrow> PRRApproval \<Rightarrow> goerr option" where
  "check_approver L kep h prr =
     (case ApproverForStage L prr (StageOf kep) of
        Inl e \<Rightarrow>
          errors_Wrap L (Some e) (''getting PRR approver for '' @ StageOf kep @ '' stage'')
      | Inr stagePRRApprover \<Rightarrow>
          if stagePRRApprover = [] then Some (errors_New L ''PRR approver cannot be empty'')
          else let stagePRRApprover = TrimPrefix stagePRRApprover ''@'' in
               if \<not> IsOneOf stagePRRApprover (PRRApprovers h)
               then Some (errors_New L (''this contributor ('' @ stagePRRApprover @
                      '') is not a PRR approver ('' @ go_strings (PRRApprovers h) @ '')''))
               else None)"

definition ValidatePRR ::
  "'a val_lib_scheme \<Rightarrow> fsys \<Rightarrow> Proposal \<Rightarrow> Parser \<Rightarrow> string \<Rightarrow> (Parser \<times> goerr option) outcome" where
  "ValidatePRR L w kep h prrDir =
     (case isPRRRequired L kep of
        (requiredPRRApproval, Some e) \<Rightarrow>
          Ret (h, errors_Wrap L (Some e) ''checking if PRR is required'')
      | (requiredPRRApproval, None) \<Rightarrow>
          if \<not> requiredPRRApproval then Ret (h, None)
          else
            let prrFilepath = prr_filepath kep prrDir in
            case Open w prrFilepath of
              Inl e \<Rightarrow>
                if IsNotExist e then Ret (h, Some e)
                else Ret (h, errors_Wrap L (Some e) (''could not open file '' @ prrFilepath))
            | Inr prrFile \<Rightarrow>
                (case PRRHandler_Parse L h prrFile of
                   (h, prr, Some e) \<Rightarrow>
                     Ret (h, errors_Wrap L (Some e) ''parsing PRR approval file'')
                 | (h, None, None) \<Rightarrow> Panic
                 | (h, Some prr, None) \<Rightarrow>
                     (case prr_Error prr of
                        Some e \<Rightarrow> Ret (h, errors_Wrap L (Some e) (prrFilepath @ '' has an error''))
                      | None \<Rightarrow> Ret (h, check_approver L kep h prr))))"

section \<open>Documented behaviour of semver\<close>

text \<open>
  A version of two numbers after a \<open>v\<close> is tolerated, with a zero patch number; releases are
  ordered by their numbers.
\<close>

definition minor_version :: "nat \<Rightarrow> nat \<Rightarrow> string" where
  "minor_version M N = ''v'' @ nat_digits M @ ''.'' @ nat_digits N"

definition release :: "nat \<Rightarrow> nat \<Rightarrow> nat \<Rightarrow> SemVer" where
  "release M N P = \<lparr>Major = M, Minor = N, Patch = P, Pre = [], Build = []\<rparr>"

definition semver_ok :: "'a val_lib_scheme \<Rightarrow> bool" where
  "semver_ok L \<longleftrightarrow>
     (\<forall>M N. M < 2 ^ 64 \<longrightarrow> N < 2 ^ 64 \<longrightarrow>
        semver_ParseTolerant L (minor_version M N) = Inr (release M N 0)) \<and>
     (\<forall>M N P M' N' P'. semver_LT L (release M N P) (release M' N' P') \<longleftrightarrow>
        M < M' \<or> M = M' \<and> (N < N' \<or> N = N' \<and> P < P'))"

lemma minor_version_1_21: "minor_version 1 21 = ''v1.21''"
  by code_simp

lemma release_1_21:
  assumes "semver_ok L"
  shows "semver_ParseTolerant L ''v1.21'' = Inr (release 1 21 0)"
proof -
  have "(1::nat) < 2 ^ 64" and "(21::nat) < 2 ^ 64" by simp_all
  then have "semver_ParseTolerant L (minor_version 1 21) = Inr (release 1 21 0)"
    using assms unfolding semver_ok_def by blast
  then show ?thesis by (simp only: minor_version_1_21)
qed

end
