(* ===== verification/Repo.thy ===== *)
theory Repo
  imports KepVal GoWalk
begin

text \<open>
  The client of an enhancements repository (pkg/repo/repo.go and pkg/repo/write.go): opening
  a checkout, finding and loading the KEPs of a SIG from it, loading the KEPs of open pull
  requests, and writing a KEP. The operations take the repository state and, where they
  change it, return it; the file system is a separate state. Outside the repository, the
  fields of \<open>repo_lib\<close>: decoding into and encoding of a proposal, the GitHub service,
  the git client with its clone, and the compilation of regular expressions given as text.
  Log output is not modelled.
\<close>

section \<open>State\<close>

record PullRequest =
  pr_Number :: int
  pr_Labels :: "string option list"

record gitRepo =
  Directory :: string

record Repo =
  BasePath :: string
  ProposalPath :: string
  PRRApprovalPath :: string
  ProposalReadme :: string
  TokenPath :: string
  Token :: string
  KEPHandler :: Parser
  PRRHandler :: Parser
  ProposalTemplate :: string
  gitClone :: "gitRepo option"
  allPRs :: "PullRequest slice"

record repo_lib = val_lib +
  yaml_Proposal_value :: "Proposal decoder"
  yaml_Proposal_text :: "Proposal \<Rightarrow> goerr + string"
  github_NewClient :: "string \<Rightarrow> goerr option"
  github_ListPRs :: "string \<Rightarrow> string \<Rightarrow> string \<Rightarrow> nat \<Rightarrow> nat \<Rightarrow> goerr + PullRequest list \<times> nat"
  github_ListFiles :: "string \<Rightarrow> string \<Rightarrow> string \<Rightarrow> int \<Rightarrow> goerr + string option list"
  git_NewClient :: "fsys \<Rightarrow> fsys \<times> goerr option"
  git_Clone :: "string \<Rightarrow> string \<Rightarrow> fsys \<Rightarrow> fsys \<times> gitRepo option \<times> goerr option"
  git_CheckoutPullRequest :: "gitRepo \<Rightarrow> int \<Rightarrow> fsys \<Rightarrow> fsys \<times> goerr option"
  regexp_Compile :: "string \<Rightarrow> goerr + regexp"

definition ProposalPathStub :: string where "ProposalPathStub = ''keps''"
definition ProposalTemplatePathStub :: string where "ProposalTemplatePathStub = ''NNNN-kep-template''"
definition ProposalFilename :: string where "ProposalFilename = ''README.md''"
definition ProposalMetadataFilename :: string where "ProposalMetadataFilename = ''kep.yaml''"
definition PRRApprovalPathStub :: string where "PRRApprovalPathStub = ''prod-readiness''"
definition remoteOrg :: string where "remoteOrg = ''kubernetes''"
definition remoteRepo :: string where "remoteRepo = ''enhancements''"
definition proposalLabel :: string where "proposalLabel = ''kind/kep''"

lemmas repo_names =
  ProposalPathStub_def ProposalTemplatePathStub_def ProposalFilename_def
  ProposalMetadataFilename_def PRRApprovalPathStub_def


section \<open>Opening a repository\<close>

definition getProposalTemplate :: "fsys \<Rightarrow> Repo \<Rightarrow> goerr + string" where
  "getProposalTemplate w r =
     ReadFile w (FJoin [ProposalPath r, ProposalTemplatePathStub, ProposalFilename])"

definition make_Repo ::
  "string \<Rightarrow> string \<Rightarrow> string \<Rightarrow> string \<Rightarrow> string list \<Rightarrow> string list \<Rightarrow> Repo" where
  "make_Repo repoPath proposalPath prrApprovalPath proposalReadme groups prrApprovers =
     \<lparr>BasePath = repoPath, ProposalPath = proposalPath, PRRApprovalPath = prrApprovalPath,
      ProposalReadme = proposalReadme, TokenPath = [], Token = [],
      KEPHandler = \<lparr>Groups = groups, PRRApprovers = prrApprovers, Errors = []\<rparr>,
      PRRHandler = \<lparr>Groups = [], PRRApprovers = prrApprovers, Errors = []\<rparr>,
      ProposalTemplate = [], gitClone = None, allPRs = None\<rparr>"

text \<open>
  The tests on what is not a directory, or not a regular file, wrap the error variable,
  which is nil at that point.
\<close>

definition NewRepo_at ::
  "'a repo_lib_scheme \<Rightarrow> fsys \<Rightarrow> string \<Rightarrow> GroupFetcher \<Rightarrow> Repo option \<times> goerr option" where
  "NewRepo_at L w repoPath fetcher =
     (let proposalPath = FJoin [repoPath, ProposalPathStub];
          prrApprovalPath = FJoin [proposalPath, PRRApprovalPathStub];
          proposalReadme = FJoin [proposalPath, ''README.md'']
      in case Stat w proposalPath of
           Inl e \<Rightarrow>
             (None, errors_Wrap L (Some e) (''getting file info for proposal path '' @ proposalPath))
         | Inr fi \<Rightarrow>
        if \<not> IsDir fi then (None, errors_Wrap L None ''checking if proposal path is a directory'')
        else case Stat w prrApprovalPath of
           Inl e \<Rightarrow>
             (None, errors_Wrap L (Some e) (''getting file info for PRR approval path '' @ prrApprovalPath))
         | Inr fi \<Rightarrow>
        if \<not> IsDir fi then (None, errors_Wrap L None ''checking if PRR approval path is a directory'')
        else case Stat w proposalReadme of
           Inl e \<Rightarrow>
             (None, errors_Wrap L (Some e)
                (''getting file info for proposal README path '' @ proposalPath))
         | Inr fi \<Rightarrow>
        if \<not> IsRegular fi then (None, errors_Wrap L None ''checking if proposal README is a file'')
        else case FetchGroups L fetcher of
           (groups, Some e) \<Rightarrow> (None, Some (WrapError ''fetching groups: '' e))
         | (groups, None) \<Rightarrow>
        case FetchPRRApprovers L fetcher of
           (prrApprovers, Some e) \<Rightarrow> (None, Some (WrapError ''fetching PRR approvers: '' e))
         | (prrApprovers, None) \<Rightarrow>
        let repo = make_Repo repoPath proposalPath prrApprovalPath proposalReadme groups prrApprovers
        in case getProposalTemplate w repo of
             Inl e \<Rightarrow> (None, errors_Wrap L (Some e) ''getting proposal template'')
           | Inr proposalTemplate \<Rightarrow> (Some (repo\<lparr>ProposalTemplate := proposalTemplate\<rparr>), None))"

definition NewRepo ::
  "'a repo_lib_scheme \<Rightarrow> fsys \<Rightarrow> string \<Rightarrow> GroupFetcher \<Rightarrow> Repo option \<times> goerr option" where
  "NewRepo L w repoPath fetcher =
     (if repoPath = [] then
        (case Getwd w of
           Inl e \<Rightarrow>
             (None, Some (ErrorString (''unable to determine enhancements repo path: '' @ error_text e)))
         | Inr wd \<Rightarrow> NewRepo_at L w wd fetcher)
      else NewRepo_at L w repoPath fetcher)"

definition New :: "'a repo_lib_scheme \<Rightarrow> fsys \<Rightarrow> string \<Rightarrow> Repo option \<times> goerr option" where
  "New L w repoPath = NewRepo L w repoPath DefaultGroupFetcher"

definition SetGitHubToken :: "fsys \<Rightarrow> Repo \<Rightarrow> string \<Rightarrow> Repo \<times> goerr option" where
  "SetGitHubToken w r tokenFile =
     (if tokenFile \<noteq> [] then
        (case ReadFile w tokenFile of
           Inl e \<Rightarrow> (r, Some e)
         | Inr token \<Rightarrow> (r\<lparr>Token := Trim token [newline, carriage_return]\<rparr>, None))
      else (r, None))"


section \<open>Loading local KEPs\<close>

definition findLocalKEPMeta_fn :: "Repo \<Rightarrow> string list walkfn" where
  "findLocalKEPMeta_fn r keps path info err =
     (case info of
        None \<Rightarrow> (keps, WPanic)
      | Some fi \<Rightarrow>
          (case err of
             Some e \<Rightarrow> (keps, WErr e)
           | None \<Rightarrow>
               if fi_mode fi = ModeSymlink then (keps, WNil)
               else if \<not> IsRegular fi then (keps, WNil)
               else if fi_name fi = ProposalMetadataFilename then
                 (case Rel (BasePath r) path of
                    None \<Rightarrow>
                      (keps, WErr (ErrorString (''Rel: can't make '' @ path @ '' relative to '' @
                         BasePath r)))
                  | Some p \<Rightarrow> (keps @ [p], WSkipDir))
               else (keps, WNil)))"

definition findLocalKEPMeta :: "fsys \<Rightarrow> Repo \<Rightarrow> string \<Rightarrow> (string list \<times> goerr option) outcome" where
  "findLocalKEPMeta w r sig =
     (let sigPath = FJoin [ProposalPath r, sig] in
      case Stat w sigPath of
        Inl e \<Rightarrow>
          if IsNotExist e then Ret ([], None)
          else (case Walk w sigPath (findLocalKEPMeta_fn r) [] of
                  (keps, WPanic) \<Rightarrow> Panic
                | (keps, WErr e) \<Rightarrow> Ret (keps, Some e)
                | (keps, _) \<Rightarrow> Ret (keps, None))
      | Inr fi \<Rightarrow>
          (case Walk w sigPath (findLocalKEPMeta_fn r) [] of
             (keps, WPanic) \<Rightarrow> Panic
           | (keps, WErr e) \<Rightarrow> Ret (keps, Some e)
           | (keps, _) \<Rightarrow> Ret (keps, None)))"

definition with_location :: "string \<Rightarrow> Proposal \<Rightarrow> Proposal" where
  "with_location kepPath p =
     p\<lparr>Name := Base (Dir kepPath), Path := TrimPrefix (Dir kepPath) (ProposalPathStub @ ''/'')\<rparr>"

definition loadKEPFromYaml ::
  "'a repo_lib_scheme \<Rightarrow> fsys \<Rightarrow> Repo \<Rightarrow> string \<Rightarrow> string \<Rightarrow> (Repo \<times> (goerr + Proposal)) outcome" where
  "loadKEPFromYaml L w r repoPath kepPath =
     (let fullKEPPath = FJoin [repoPath, kepPath] in
      case ReadFile w fullKEPPath of
        Inl e \<Rightarrow>
          Ret (r, Inl (WrapError (''unable to read KEP metadata for '' @ fullKEPPath @ '': '') e))
      | Inr b \<Rightarrow>
          (case UnmarshalStrict (yaml_Proposal_value L) b zero_Proposal of
             (p, Some e) \<Rightarrow>
               Ret (r, Inl (ErrorString (''unable to load KEP metadata: '' @ error_text e)))
           | (p, None) \<Rightarrow>
               let p = with_location kepPath p;
                   prrApprovalPath = FJoin [repoPath, ProposalPathStub, PRRApprovalPathStub]
               in case ValidatePRR L w p (PRRHandler r) prrApprovalPath of
                    Panic \<Rightarrow> Panic
                  | Ret (h, eo) \<Rightarrow> Ret (r\<lparr>PRRHandler := h\<rparr>, Inr p)))"

fun load_files ::
  "'a repo_lib_scheme \<Rightarrow> fsys \<Rightarrow> Repo \<Rightarrow> string list \<Rightarrow> Proposal option list \<Rightarrow>
   (Repo \<times> Proposal option slice \<times> goerr option) outcome" where
  "load_files L w r [] keps = Ret (r, Some keps, None)"
| "load_files L w r (f # fs) keps =
     (case loadKEPFromYaml L w r (BasePath r) f of
        Panic \<Rightarrow> Panic
      | Ret (r, Inl e) \<Rightarrow>
          Ret (r, None, errors_Wrap L (Some e) (''reading KEP '' @ f @ '' from yaml''))
      | Ret (r, Inr kep) \<Rightarrow> load_files L w r fs (keps @ [Some kep]))"

definition LoadLocalKEPs ::
  "'a repo_lib_scheme \<Rightarrow> fsys \<Rightarrow> Repo \<Rightarrow> string \<Rightarrow>
   (Repo \<times> Proposal option slice \<times> goerr option) outcome" where
  "LoadLocalKEPs L w r sig =
     (case findLocalKEPMeta w r sig of
        Panic \<Rightarrow> Panic
      | Ret (files, Some e) \<Rightarrow>
          Ret (r, None, errors_Wrap L (Some e) (''searching for local KEPs from '' @ sig))
      | Ret (files, None) \<Rightarrow> load_files L w r files [])"

definition LoadLocalKEP ::
  "'a repo_lib_scheme \<Rightarrow> fsys \<Rightarrow> Repo \<Rightarrow> string \<Rightarrow> string \<Rightarrow>
   (Repo \<times> Proposal option \<times> goerr option) outcome" where
  "LoadLocalKEP L w r sig name =
     (let kepPath = FJoin [ProposalPathStub, sig, name, ProposalMetadataFilename] in
      case Stat w kepPath of
        Inl e \<Rightarrow> Ret (r, None, errors_Wrap L (Some e) (''getting file info for '' @ kepPath))
      | Inr fi \<Rightarrow>
          (case loadKEPFromYaml L w r (BasePath r) kepPath of
             Panic \<Rightarrow> Panic
           | Ret (r, Inl e) \<Rightarrow> Ret (r, None, Some e)
           | Ret (r, Inr kep) \<Rightarrow> Ret (r, Some kep, None)))"


section \<open>Writing a KEP\<close>

definition WriteKEP :: "'a repo_lib_scheme \<Rightarrow> fsys \<Rightarrow> Repo \<Rightarrow> Proposal \<Rightarrow> fsys \<times> goerr option" where
  "WriteKEP L w r kep =
     (case Marshal (yaml_Proposal_text L) kep of
        Inl e \<Rightarrow> (w, Some (ErrorString (''KEP is invalid: '' @ error_text e)))
      | Inr b \<Rightarrow>
          let sig = OwningSIG kep; kepName = Name kep in
          if sig = [] then (w, Some (ErrorString ''owning SIG must be populated''))
          else if kepName = [] then (w, Some (ErrorString ''KEP name must be populated''))
          else let kepPath = FJoin [ProposalPath r, sig, kepName] in
               case MkdirAll w kepPath of
                 (w, Some e) \<Rightarrow>
                   (w, Some (WrapError (''unable to create KEP path '' @ kepPath @ '': '') e))
               | (w, None) \<Rightarrow> WriteFile w (FJoin [kepPath, ProposalMetadataFilename]) b)"

end
