(* ===== verification/ProposalCmds.thy ===== *)
theory ProposalCmds
  imports Repo
begin

text \<open>
  Creating and promoting KEPs (pkg/proposal): the options of a proposal and their check, the
  new proposal filled from the options and written with the README template, and the change of
  stage and release of an existing one. The pointer to the repository client in the options is
  a \<open>Repo option\<close>; a nil one is dereferenced where the code does so. The date is an argument.
\<close>

section \<open>Options\<close>

record Options =
  o_KEP :: string
  o_Name :: string
  o_Number :: string
  o_SIG :: string

text \<open>
  The expression of \<open>NewOptions\<close> is a raw string, so both its doubled backslashes stand for a
  backslash of the input: the class is the lower case letters, the backslash and the hyphen,
  and the number is a backslash followed by letters d.
\<close>

definition backslash :: char where
  "backslash = CHR 0x5C"

definition name_class :: "char \<Rightarrow> bool" where
  "name_class c \<longleftrightarrow> (CHR ''a'' \<le> c \<and> c \<le> CHR ''z'') \<or> c = backslash \<or> c = CHR ''-''"

definition options_regexp :: regexp where
  "options_regexp =
     RSeq (RGroup 1 (RPlus (RChar name_class)))
       (RSeq (rlit ''/'')
         (RGroup 2
           (RSeq (RGroup 3 (RSeq (rlit [backslash]) (RPlus (RChar (\<lambda>c. c = CHR ''d'')))))
             (RSeq (rlit ''-'') (RPlus (RChar any_char))))))"

definition NewOptions ::
  "'a errors_lib_scheme \<Rightarrow> string \<Rightarrow> string \<Rightarrow> string \<Rightarrow> string \<Rightarrow> goerr + Options" where
  "NewOptions L kep sig name number =
     (if kep = [] then
        Inl (errors_New L ''must provide a path for the new KEP like sig-architecture/0000-new-kep'')
      else case find_submatch options_regexp kep of
             None \<Rightarrow> Inl (errors_New L (''invalid KEP name: '' @ kep))
           | Some _ \<Rightarrow> Inr \<lparr>o_KEP = kep, o_Name = name, o_Number = number, o_SIG = sig\<rparr>)"

record CreateOpts = Options +
  c_Repo :: "Repo option"
  c_Title :: string
  c_Approvers :: "string list"
  c_Authors :: "string list"
  c_Reviewers :: "string list"
  c_Type :: string
  c_State :: string
  c_Stage :: string
  c_ParticipatingSIGs :: "string list"
  c_PRRApprovers :: "string list"

definition CreateOpts_Validate :: "CreateOpts \<Rightarrow> string list \<Rightarrow> goerr option" where
  "CreateOpts_Validate c args = None"

record PromoteOpts = Options +
  p_Repo :: "Repo option"
  p_Release :: string
  p_Stage :: string

definition PromoteOpts_Validate :: "PromoteOpts \<Rightarrow> string list \<Rightarrow> goerr option" where
  "PromoteOpts_Validate p args = None"


section \<open>Creating\<close>

definition at_prefixed :: "string \<Rightarrow> string" where
  "at_prefixed name = (if \<not> HasPrefix name ''@'' then ''@'' @ name else name)"

definition updatePersonReference :: "string list \<Rightarrow> string list" where
  "updatePersonReference names = foldl (\<lambda>persons name. persons @ [at_prefixed name]) [] names"

text \<open>\<open>time.Now().Format\<close> with the layout of a date.\<close>

record date =
  d_Year :: nat
  d_Month :: nat
  d_Day :: nat

definition zero_padded :: "nat \<Rightarrow> nat \<Rightarrow> string" where
  "zero_padded k n = replicate (k - length (nat_digits n)) (CHR ''0'') @ nat_digits n"

definition format_date :: "date \<Rightarrow> string" where
  "format_date d =
     zero_padded 4 (d_Year d) @ ''-'' @ zero_padded 2 (d_Month d) @ ''-'' @ zero_padded 2 (d_Day d)"

definition populateProposal :: "date \<Rightarrow> Proposal \<Rightarrow> CreateOpts \<Rightarrow> Proposal" where
  "populateProposal now p opts =
     (let p = p\<lparr>Name := o_Name opts\<rparr>;
          p = (if c_State opts \<noteq> [] then p\<lparr>StatusOf := c_State opts\<rparr> else p);
          p = p\<lparr>CreationDate := format_date now, Number := o_Number opts, Title := c_Title opts\<rparr>;
          p = (if c_Authors opts \<noteq> []
               then p\<lparr>Authors := Some (foldl (\<lambda>authors author. authors @ [at_prefixed author]) [] (c_Authors opts))\<rparr>
               else p);
          p = (if c_Approvers opts \<noteq> []
               then p\<lparr>Approvers := Some (updatePersonReference (c_Approvers opts))\<rparr> else p);
          p = (if c_Reviewers opts \<noteq> []
               then p\<lparr>Reviewers := Some (updatePersonReference (c_Reviewers opts))\<rparr> else p)
      in p\<lparr>OwningSIG := o_SIG opts,
           ParticipatingSIGs := go_append (Some (c_ParticipatingSIGs opts)) [o_SIG opts],
           Filename := o_Name opts, LastUpdated := ''v1.19'', StageOf := c_Stage opts\<rparr>)"

definition createKEP ::
  "'a repo_lib_scheme \<Rightarrow> fsys \<Rightarrow> Proposal \<Rightarrow> Repo \<Rightarrow> CreateOpts \<Rightarrow> fsys \<times> goerr option" where
  "createKEP L w kep r opts =
     (case WriteKEP L w r kep of
        (w, Some e) \<Rightarrow> (w, Some (ErrorString (''unable to create KEP: '' @ error_text e)))
      | (w, None) \<Rightarrow>
          let newPath = FJoin [ProposalPath r, o_SIG opts, o_Name opts, ProposalFilename] in
          case WriteFile w newPath (ProposalTemplate r) of
            (w, Some e) \<Rightarrow> (w, errors_Wrap L (Some e) ''writing KEP data to file'')
          | (w, None) \<Rightarrow> (w, None))"

definition Create ::
  "'a repo_lib_scheme \<Rightarrow> date \<Rightarrow> fsys \<Rightarrow> CreateOpts \<Rightarrow> (fsys \<times> goerr option) outcome" where
  "Create L now w opts =
     (case c_Repo opts of
        None \<Rightarrow> Panic
      | Some r \<Rightarrow>
          let kep = populateProposal now zero_Proposal opts;
              errs = KEPHandler_Validate L (KEPHandler r) kep
          in if errs \<noteq> []
             then Ret (w, Some (ErrorString (''invalid kep: '' @ go_strings (map error_text errs))))
             else Ret (createKEP L w kep r opts))"


section \<open>Promoting\<close>

text \<open>
  \<open>LoadLocalKEP\<close> through a pointer: it tests the path before it uses the client.
\<close>

definition LoadLocalKEP_ptr ::
  "'a repo_lib_scheme \<Rightarrow> fsys \<Rightarrow> Repo option \<Rightarrow> string \<Rightarrow> string \<Rightarrow>
   (Repo option \<times> Proposal option \<times> goerr option) outcome" where
  "LoadLocalKEP_ptr L w ro sig name =
     (case ro of
        None \<Rightarrow>
          (let kepPath = FJoin [ProposalPathStub, sig, name, ProposalMetadataFilename] in
           case Stat w kepPath of
             Inl e \<Rightarrow> Ret (None, None, errors_Wrap L (Some e) (''getting file info for '' @ kepPath))
           | Inr fi \<Rightarrow> Panic)
      | Some r \<Rightarrow>
          (case LoadLocalKEP L w r sig name of
             Panic \<Rightarrow> Panic
           | Ret (r, p, eo) \<Rightarrow> Ret (Some r, p, eo)))"

definition promoted :: "PromoteOpts \<Rightarrow> Proposal \<Rightarrow> Proposal" where
  "promoted opts p =
     p\<lparr>StageOf := p_Stage opts, LatestMilestone := p_Release opts, LastUpdated := p_Release opts\<rparr>"

definition Promote ::
  "'a repo_lib_scheme \<Rightarrow> fsys \<Rightarrow> PromoteOpts \<Rightarrow> (fsys \<times> PromoteOpts \<times> goerr option) outcome" where
  "Promote L w opts =
     (case LoadLocalKEP_ptr L w (p_Repo opts) (o_SIG opts) (o_Name opts) of
        Panic \<Rightarrow> Panic
      | Ret (ro, po, Some e) \<Rightarrow>
          Ret (w, opts\<lparr>p_Repo := ro\<rparr>, Some (ErrorString (''unable to load KEP for promotion: '' @ error_text e)))
      | Ret (ro, po, None) \<Rightarrow>
          (case (ro, po) of
             (Some r, Some p) \<Rightarrow>
               (case WriteKEP L w r (promoted opts p) of
                  (w, Some e) \<Rightarrow>
                    Ret (w, opts\<lparr>p_Repo := ro\<rparr>,
                         Some (ErrorString (''unable to write updated KEP: '' @ error_text e)))
                | (w, None) \<Rightarrow> Ret (w, opts\<lparr>p_Repo := ro\<rparr>, None))
           | _ \<Rightarrow> Panic))"

end
