(* ===== verification/RepoPRs.thy ===== *)
theory RepoPRs
  imports Repo
begin

text \<open>
  The KEPs of open pull requests (\<open>LoadPullRequestKEPs\<close> of pkg/repo/repo.go): the cached
  list of pull requests, the selection by labels, the clone and its checkouts, and the files
  a pull request touches. The listing is a loop over pages that ends only when the service
  says so: it is a partial function, \<^term>\<open>None\<close> standing for a loop that does not return.
  The argument \<open>order\<close> is the unspecified order in which Go ranges over a map.
\<close>

section \<open>Listing\<close>

partial_function (option) list_pages ::
  "'a repo_lib_scheme \<Rightarrow> string \<Rightarrow> nat \<Rightarrow> PullRequest list \<Rightarrow> (PullRequest list \<times> goerr option) option" where
  "list_pages L token page prs =
     (case github_ListPRs L token remoteOrg remoteRepo 100 page of
        Inl e \<Rightarrow> Some (prs, Some e)
      | Inr (pulls, nextPage) \<Rightarrow>
          if nextPage = 0 then Some (prs @ pulls, None)
          else list_pages L token nextPage (prs @ pulls))"

definition fill_cache :: "'a repo_lib_scheme \<Rightarrow> Repo \<Rightarrow> (Repo \<times> goerr option) option" where
  "fill_cache L r =
     (case allPRs r of
        Some prs \<Rightarrow> Some (r, None)
      | None \<Rightarrow>
          map_option (\<lambda>(prs, eo). (r\<lparr>allPRs := Some prs\<rparr>, eo)) (list_pages L (Token r) 0 []))"


section \<open>Selecting\<close>

fun scan_labels :: "string \<Rightarrow> string option list \<Rightarrow> bool \<Rightarrow> bool \<Rightarrow> (bool \<times> bool) outcome" where
  "scan_labels sigLabel [] foundKind foundSIG = Ret (foundKind, foundSIG)"
| "scan_labels sigLabel (None # ls) foundKind foundSIG = Panic"
| "scan_labels sigLabel (Some l # ls) foundKind foundSIG =
     scan_labels sigLabel ls (foundKind \<or> l = proposalLabel) (foundSIG \<or> l = sigLabel)"

fun select_prs :: "string \<Rightarrow> PullRequest list \<Rightarrow> PullRequest list outcome" where
  "select_prs sigLabel [] = Ret []"
| "select_prs sigLabel (pr # prs) =
     (case scan_labels sigLabel (pr_Labels pr) False False of
        Panic \<Rightarrow> Panic
      | Ret (foundKind, foundSIG) \<Rightarrow>
          (case select_prs sigLabel prs of
             Panic \<Rightarrow> Panic
           | Ret kepPRs \<Rightarrow> Ret (if \<not> foundKind \<or> \<not> foundSIG then kepPRs else pr # kepPRs)))"

definition sig_label :: "string \<Rightarrow> string" where
  "sig_label sig = Replace1 sig CHR ''-'' CHR ''/''"

text \<open>The names of the KEPs of the SIG among the files, each once.\<close>

fun kep_names :: "string \<Rightarrow> string option list \<Rightarrow> string list \<Rightarrow> string list outcome" where
  "kep_names sig [] names = Ret names"
| "kep_names sig (None # fs) names = Panic"
| "kep_names sig (Some f # fs) names =
     (if \<not> HasPrefix f (''keps/'' @ sig @ ''/'') then kep_names sig fs names
      else let kk = Split CHR ''/'' f in
           if length kk < 3 then kep_names sig fs names
           else if HasSuffix (kk ! 2) ''.md''
           then kep_names sig fs (List.insert (take (length (kk ! 2) - 3) (kk ! 2)) names)
           else kep_names sig fs (List.insert (kk ! 2) names))"


section \<open>Loading\<close>

definition ensure_clone :: "'a repo_lib_scheme \<Rightarrow> fsys \<Rightarrow> Repo \<Rightarrow> fsys \<times> Repo \<times> goerr option" where
  "ensure_clone L w r =
     (case gitClone r of
        Some g \<Rightarrow> (w, r, None)
      | None \<Rightarrow>
          (case git_NewClient L w of
             (w, Some e) \<Rightarrow> (w, r, Some e)
           | (w, None) \<Rightarrow>
               (case git_Clone L remoteOrg remoteRepo w of
                  (w, g, eo) \<Rightarrow> (w, r\<lparr>gitClone := g\<rparr>, eo))))"

fun load_names ::
  "'a repo_lib_scheme \<Rightarrow> fsys \<Rightarrow> Repo \<Rightarrow> gitRepo \<Rightarrow> string \<Rightarrow> int \<Rightarrow> string list \<Rightarrow> Proposal option list \<Rightarrow>
   (Repo \<times> Proposal option list) outcome" where
  "load_names L w r g sig n [] keps = Ret (r, keps)"
| "load_names L w r g sig n (k # ks) keps =
     (case loadKEPFromYaml L w r (Directory g)
             (FJoin [ProposalPathStub, sig, k, ProposalMetadataFilename]) of
        Panic \<Rightarrow> Panic
      | Ret (r, Inl e) \<Rightarrow> load_names L w r g sig n ks keps
      | Ret (r, Inr kep) \<Rightarrow>
          load_names L w r g sig n ks (keps @ [Some (kep\<lparr>PRNumber := Itoa n\<rparr>)]))"

fun load_prs ::
  "'a repo_lib_scheme \<Rightarrow> (string list \<Rightarrow> string list) \<Rightarrow> fsys \<Rightarrow> Repo \<Rightarrow> gitRepo \<Rightarrow> string \<Rightarrow>
   PullRequest list \<Rightarrow> Proposal option list \<Rightarrow>
   (fsys \<times> Repo \<times> Proposal option list \<times> goerr option) outcome" where
  "load_prs L order w r g sig [] keps = Ret (w, r, keps, None)"
| "load_prs L order w r g sig (pr # prs) keps =
     (case github_ListFiles L (Token r) remoteOrg remoteRepo (pr_Number pr) of
        Inl e \<Rightarrow> Ret (w, r, [], Some e)
      | Inr files \<Rightarrow>
          (case kep_names sig files [] of
             Panic \<Rightarrow> Panic
           | Ret names \<Rightarrow>
               if names = [] then load_prs L order w r g sig prs keps
               else (case git_CheckoutPullRequest L g (pr_Number pr) w of
                       (w, Some e) \<Rightarrow> Ret (w, r, [], Some e)
                     | (w, None) \<Rightarrow>
                         (case load_names L w r g sig (pr_Number pr) (order names) keps of
                            Panic \<Rightarrow> Panic
                          | Ret (r, keps) \<Rightarrow> load_prs L order w r g sig prs keps))))"

definition load_selected ::
  "'a repo_lib_scheme \<Rightarrow> (string list \<Rightarrow> string list) \<Rightarrow> fsys \<Rightarrow> Repo \<Rightarrow> string \<Rightarrow>
   (fsys \<times> Repo \<times> Proposal option list \<times> goerr option) outcome" where
  "load_selected L order w r sig =
     (case select_prs (sig_label sig) (elems (allPRs r)) of
        Panic \<Rightarrow> Panic
      | Ret kepPRs \<Rightarrow>
          if kepPRs = [] then Ret (w, r, [], None)
          else (case ensure_clone L w r of
                  (w, r, Some e) \<Rightarrow> Ret (w, r, [], Some e)
                | (w, r, None) \<Rightarrow>
                    (case gitClone r of
                       None \<Rightarrow> Panic
                     | Some g \<Rightarrow> load_prs L order w r g sig kepPRs [])))"

text \<open>
  A nil slice and an empty one are the same to the caller of this function, which appends
  what it gets.
\<close>

definition LoadPullRequestKEPs ::
  "'a repo_lib_scheme \<Rightarrow> (string list \<Rightarrow> string list) \<Rightarrow> fsys \<Rightarrow> Repo \<Rightarrow> string \<Rightarrow>
   (fsys \<times> Repo \<times> Proposal option list \<times> goerr option) outcome option" where
  "LoadPullRequestKEPs L order w r sig =
     (case github_NewClient L (Token r) of
        Some e \<Rightarrow> Some (Ret (w, r, [], Some e))
      | None \<Rightarrow>
          Option.bind (fill_cache L r) (\<lambda>(r, eo).
            case eo of
              Some e \<Rightarrow> Some (Ret (w, r, [], Some e))
            | None \<Rightarrow> Some (load_selected L order w r sig)))"

end
