(* ===== verification/Output.thy ===== *)
theory Output
  imports Approval GoJSON
begin

text \<open>
  Printing proposals (pkg/output/output.go): the four formats behind the interface
  \<open>Output\<close>, the columns of the tabular ones, and, from the standard library, the encoders
  of CSV records and JSON documents. Outside the repository: the YAML encoder and the table
  renderer, fields of \<open>out_lib\<close>. The two writers are the bytes written to them so far.
\<close>

section \<open>Streams\<close>

record streams =
  Out :: string
  Err :: string

definition put_out :: "string \<Rightarrow> streams \<Rightarrow> streams" where
  "put_out t s = s\<lparr>Out := Out s @ t\<rparr>"

definition put_err :: "string \<Rightarrow> streams \<Rightarrow> streams" where
  "put_err t s = s\<lparr>Err := Err s @ t\<rparr>"

lemma put_simps [simp]:
  "Out (put_out t s) = Out s @ t" "Err (put_out t s) = Err s"
  "Out (put_err t s) = Out s" "Err (put_err t s) = Err s @ t"
  by (simp_all add: put_out_def put_err_def)

record out_lib =
  yaml_Proposals :: "Proposal option list \<Rightarrow> goerr + string"
  table_Append :: "string list list \<Rightarrow> string list \<Rightarrow> goerr option"
  table_Render :: "string list \<Rightarrow> string list list \<Rightarrow> string \<times> goerr option"


section \<open>Columns\<close>

record printConfig =
  title :: string
  valueFunc :: "(Proposal \<Rightarrow> string) option"

definition zero_printConfig :: printConfig where
  "zero_printConfig = \<lparr>title = [], valueFunc = None\<rparr>"

definition printConfig_Title :: "printConfig \<Rightarrow> string" where
  "printConfig_Title c = title c"

text \<open>Calling a nil function, or reading a field through a nil pointer, panics.\<close>

definition printConfig_Value :: "printConfig \<Rightarrow> Proposal option \<Rightarrow> string outcome" where
  "printConfig_Value c k =
     (case valueFunc c of
        None \<Rightarrow> Panic
      | Some f \<Rightarrow> (case k of None \<Rightarrow> Panic | Some p \<Rightarrow> Ret (f p)))"

definition authors_value :: "Proposal \<Rightarrow> string" where
  "authors_value k = Join (elems (Authors k)) '', ''"

definition sig_value :: "Proposal \<Rightarrow> string" where
  "sig_value k = (if HasPrefix (OwningSIG k) ''sig-'' then drop 4 (OwningSIG k) else OwningSIG k)"

definition title_value :: "Proposal \<Rightarrow> string" where
  "title_value k = (if PRNumber k = [] then Title k else ''PR#'' @ PRNumber k @ '' - '' @ Title k)"

definition link_value :: "Proposal \<Rightarrow> string" where
  "link_value k =
     (if PRNumber k = []
      then ''https://git.k8s.io/enhancements/keps/'' @ OwningSIG k @ ''/'' @ Name k
      else ''https://github.com/kubernetes/enhancements/pull/'' @ PRNumber k)"

definition defaultConfig :: "string \<rightharpoonup> printConfig" where
  "defaultConfig = map_of
     [(''Authors'', \<lparr>title = ''Authors'', valueFunc = Some authors_value\<rparr>),
      (''LastUpdated'', \<lparr>title = ''Updated'', valueFunc = Some LastUpdated\<rparr>),
      (''SIG'', \<lparr>title = ''SIG'', valueFunc = Some sig_value\<rparr>),
      (''Stage'', \<lparr>title = ''Stage'', valueFunc = Some StageOf\<rparr>),
      (''Status'', \<lparr>title = ''Status'', valueFunc = Some StatusOf\<rparr>),
      (''Title'', \<lparr>title = ''Title'', valueFunc = Some title_value\<rparr>),
      (''Link'', \<lparr>title = ''Link'', valueFunc = Some link_value\<rparr>)]"

definition DefaultPrintConfigs :: "string list \<Rightarrow> printConfig list" where
  "DefaultPrintConfigs names =
     map (\<lambda>n. case defaultConfig n of None \<Rightarrow> zero_printConfig | Some c \<Rightarrow> c) names"

fun row_values :: "printConfig list \<Rightarrow> Proposal option \<Rightarrow> string list outcome" where
  "row_values [] k = Ret []"
| "row_values (c # cs) k =
     (case printConfig_Value c k of
        Panic \<Rightarrow> Panic
      | Ret v \<Rightarrow> (case row_values cs k of Panic \<Rightarrow> Panic | Ret vs \<Rightarrow> Ret (v # vs)))"


section \<open>CSV\<close>

definition csv_needs_quotes :: "string \<Rightarrow> bool" where
  "csv_needs_quotes f \<longleftrightarrow>
     f \<noteq> [] \<and>
     (f = [CHR 0x5C, CHR ''.''] \<or>
      list_ex (\<lambda>c. c \<in> {newline, carriage_return, quote_mark, CHR '',''}) f \<or>
      list_ex (\<lambda>r. prefix r f) space_runes)"

definition csv_field :: "string \<Rightarrow> string" where
  "csv_field f =
     (if csv_needs_quotes f
      then [quote_mark] @ concat (map (\<lambda>c. if c = quote_mark then [quote_mark, quote_mark] else [c]) f) @
           [quote_mark]
      else f)"

definition csv_Write :: "string list \<Rightarrow> string" where
  "csv_Write fs = Join (map csv_field fs) '','' @ [newline]"


section \<open>JSON\<close>

text \<open>
  The value a proposal is marshalled as, by the tags of the struct: the fields in order, empty
  ones left out under \<open>omitempty\<close>, and nothing for the file name and the error.
\<close>

definition json_strings :: "string slice \<Rightarrow> json" where
  "json_strings xs = (case xs of None \<Rightarrow> JNull | Some ys \<Rightarrow> JArr (map JStr ys))"

definition json_Milestone :: "Milestone \<Rightarrow> json" where
  "json_Milestone m =
     JObj
       [(''alpha'', JStr (m_Alpha m)), (''beta'', JStr (m_Beta m)), (''stable'', JStr (m_Stable m)),
        (''deprecated'', JStr (m_Deprecated m)), (''removed'', JStr (m_Removed m)),
        (''disabled'', JStr (m_Disabled m))]"

definition json_FeatureGate :: "FeatureGate \<Rightarrow> json" where
  "json_FeatureGate g =
     JObj [(''name'', JStr (fg_Name g)), (''components'', json_strings (fg_Components g))]"

definition omitempty :: "string \<Rightarrow> string \<Rightarrow> (string \<times> json) list" where
  "omitempty k v = (if v = [] then [] else [(k, JStr v)])"

definition json_Proposal :: "Proposal \<Rightarrow> json" where
  "json_Proposal p =
     JObj
       ([(''id'', JStr (ID p))] @ omitempty ''prNumber'' (PRNumber p) @ omitempty ''name'' (Name p) @
        omitempty ''path'' (Path p) @
        [(''title'', JStr (Title p)), (''kepNumber'', JStr (Number p)), (''authors'', json_strings (Authors p)),
         (''owningSig'', JStr (OwningSIG p)), (''participatingSigs'', json_strings (ParticipatingSIGs p)),
         (''reviewers'', json_strings (Reviewers p)), (''approvers'', json_strings (Approvers p)),
         (''editor'', JStr (Editor p)), (''creationDate'', JStr (CreationDate p)),
         (''lastUpdated'', JStr (LastUpdated p)), (''status'', JStr (StatusOf p)),
         (''seeAlso'', json_strings (SeeAlso p)), (''replaces'', json_strings (Replaces p)),
         (''supersededBy'', json_strings (SupersededBy p)), (''stage'', JStr (StageOf p)),
         (''latestMilestone'', JStr (LatestMilestone p)),
         (''milestone'', json_Milestone (MilestoneOf p)),
         (''featureGates'', case FeatureGates p of None \<Rightarrow> JNull | Some gs \<Rightarrow> JArr (map json_FeatureGate gs)),
         (''disableSupported'', JBool (DisableSupported p)),
         (''metrics'', json_strings (Metrics p)), (''markdown'', JStr (Contents p))])"

text \<open>Marshalling a slice of pointers; a struct of strings and booleans never fails to marshal.\<close>

definition json_Proposals :: "Proposal option list \<Rightarrow> json" where
  "json_Proposals ps = JArr (map (\<lambda>k. case k of None \<Rightarrow> JNull | Some p \<Rightarrow> json_Proposal p) ps)"

definition json_Marshal :: "Proposal option list \<Rightarrow> goerr + string" where
  "json_Marshal ps = Inr (show_json (json_Proposals ps))"


section \<open>Outputs\<close>

datatype Output =
    YAMLOutput
  | JSONOutput
  | TableOutput "printConfig list"
  | CSVOutput "printConfig list"

definition DefaultFormat :: string where
  "DefaultFormat = ''table''"

definition ValidFormats :: "string list" where
  "ValidFormats = [''csv'', ''json'', ''table'', ''yaml'']"

definition NewOutput :: "string \<Rightarrow> goerr + Output" where
  "NewOutput format =
     (if format = ''json'' then Inr JSONOutput
      else if format = ''yaml'' then Inr YAMLOutput
      else if format = ''csv'' then Inr (CSVOutput (DefaultPrintConfigs
        [''Title'', ''Authors'', ''SIG'', ''Stage'', ''Status'', ''LastUpdated'', ''Link'']))
      else if format = ''table'' then Inr (TableOutput (DefaultPrintConfigs
        [''LastUpdated'', ''Stage'', ''Status'', ''SIG'', ''Authors'', ''Title'', ''Link'']))
      else Inl (ErrorString (''unsupported output format: '' @ format @ ''. Valid values: '' @
             go_strings ValidFormats)))"

definition YAML_PrintProposals ::
  "'a out_lib_scheme \<Rightarrow> Proposal option list \<Rightarrow> streams \<Rightarrow> streams outcome" where
  "YAML_PrintProposals L ps s =
     (case Marshal (yaml_Proposals L) ps of
        Inl e \<Rightarrow> Ret (put_err (''error printing KEPs as YAML: '' @ error_text e) s)
      | Inr data \<Rightarrow> Ret (put_out (data @ [newline]) s))"

definition JSON_PrintProposals ::
  "'a out_lib_scheme \<Rightarrow> Proposal option list \<Rightarrow> streams \<Rightarrow> streams outcome" where
  "JSON_PrintProposals L ps s =
     (case json_Marshal ps of
        Inl e \<Rightarrow> Ret (put_err (''error printing KEPs as JSON: '' @ error_text e) s)
      | Inr data \<Rightarrow> Ret (put_out (data @ [newline]) s))"

text \<open>The rows appended so far are given to the renderer; an error of an append ends the loop.\<close>

fun table_rows ::
  "'a out_lib_scheme \<Rightarrow> printConfig list \<Rightarrow> Proposal option list \<Rightarrow> string list list \<Rightarrow>
   (goerr + string list list) outcome" where
  "table_rows L cs [] rows = Ret (Inr rows)"
| "table_rows L cs (k # ks) rows =
     (case row_values cs k of
        Panic \<Rightarrow> Panic
      | Ret s \<Rightarrow>
          (case table_Append L rows s of
             Some e \<Rightarrow> Ret (Inl e)
           | None \<Rightarrow> table_rows L cs ks (rows @ [s])))"

definition Table_PrintProposals ::
  "'a out_lib_scheme \<Rightarrow> printConfig list \<Rightarrow> Proposal option list \<Rightarrow> streams \<Rightarrow> streams outcome" where
  "Table_PrintProposals L cs ps s =
     (if cs = [] then Ret s
      else let headers = map printConfig_Title cs in
           case table_rows L cs ps [] of
             Panic \<Rightarrow> Panic
           | Ret (Inl e) \<Rightarrow> Ret (put_err (''error printing KEPs as table: '' @ error_text e) s)
           | Ret (Inr rows) \<Rightarrow>
               (case table_Render L headers rows of
                  (text, None) \<Rightarrow> Ret (put_out text s)
                | (text, Some e) \<Rightarrow>
                    Ret (put_err (''error printing KEPs as table: '' @ error_text e)
                           (put_out text s))))"

text \<open>
  The rows are buffered and flushed when the function returns, also when it panics.
\<close>

fun csv_rows :: "printConfig list \<Rightarrow> Proposal option list \<Rightarrow> string list list outcome" where
  "csv_rows cs [] = Ret []"
| "csv_rows cs (p # ps) =
     (case row_values cs p of
        Panic \<Rightarrow> Panic
      | Ret row \<Rightarrow> (case csv_rows cs ps of Panic \<Rightarrow> Panic | Ret rows \<Rightarrow> Ret (row # rows)))"

definition CSV_PrintProposals ::
  "printConfig list \<Rightarrow> Proposal option list \<Rightarrow> streams \<Rightarrow> streams outcome" where
  "CSV_PrintProposals cs ps s =
     (case csv_rows cs ps of
        Panic \<Rightarrow> Panic
      | Ret rows \<Rightarrow>
          Ret (put_out (concat (map csv_Write (map printConfig_Title cs # rows))) s))"

fun PrintProposals ::
  "'a out_lib_scheme \<Rightarrow> Output \<Rightarrow> Proposal option list \<Rightarrow> streams \<Rightarrow> streams outcome" where
  "PrintProposals L YAMLOutput ps s = YAML_PrintProposals L ps s"
| "PrintProposals L JSONOutput ps s = JSON_PrintProposals L ps s"
| "PrintProposals L (TableOutput cs) ps s = Table_PrintProposals L cs ps s"
| "PrintProposals L (CSVOutput cs) ps s = CSV_PrintProposals cs ps s"

end
