(* ===== verification/RepoQuery.thy ===== *)
theory RepoQuery
  imports RepoPRs Output
begin

text \<open>
  Queries (pkg/repo/query.go): the options and their preparation, the collection of the KEPs
  of the selected groups, and the filter.
\<close>

record QueryOpts =
  q_Groups :: "string list"
  q_Status :: "string list"
  q_Stage :: "string list"
  q_PRRApprover :: "string list"
  q_Author :: "string list"
  q_Approver :: "string list"
  q_Participant :: "string list"
  q_IncludePRs :: bool
  q_Output :: string

fun sliceContains :: "string list \<Rightarrow> string \<Rightarrow> bool" where
  "sliceContains [] e = False"
| "sliceContains (k # ks) e = (if k = e then True else sliceContains ks e)"

definition sliceToMap :: "string list \<Rightarrow> string \<Rightarrow> bool" where
  "sliceToMap s = foldl (\<lambda>m v. m(v := True)) (\<lambda>_. False) s"

fun atLeastOne :: "string list \<Rightarrow> (string \<Rightarrow> bool) \<Rightarrow> bool" where
  "atLeastOne [] allowed = False"
| "atLeastOne (v # vs) allowed = (if allowed v then True else atLeastOne vs allowed)"

text \<open>The inner loop of \<open>selectByRegexp\<close>: whether one of the expressions matches.\<close>

fun match_any :: "'a repo_lib_scheme \<Rightarrow> string list \<Rightarrow> string \<Rightarrow> goerr + bool" where
  "match_any L [] s = Inr False"
| "match_any L (r # rs) s =
     (case regexp_Compile L r of
        Inl e \<Rightarrow> Inl e
      | Inr re \<Rightarrow> if MatchString re s then Inr True else match_any L rs s)"

fun selectByRegexp :: "'a repo_lib_scheme \<Rightarrow> string list \<Rightarrow> string list \<Rightarrow> string list \<times> goerr option" where
  "selectByRegexp L [] regexps = ([], None)"
| "selectByRegexp L (s # vals) regexps =
     (case match_any L regexps s of
        Inl e \<Rightarrow> ([], Some e)
      | Inr found \<Rightarrow>
          (case selectByRegexp L vals regexps of
             (matches, eo) \<Rightarrow> (if found then s # matches else matches, eo)))"

definition QueryOpts_Validate :: "QueryOpts \<Rightarrow> goerr option" where
  "QueryOpts_Validate o' =
     (if \<not> sliceContains ValidFormats (q_Output o')
      then Some (ErrorString (''unsupported output format: '' @ q_Output o' @ ''. Valid values: '' @
             go_strings ValidFormats))
      else None)"

definition none_to_empty :: "string list \<Rightarrow> string list" where
  "none_to_empty ss = map (\<lambda>v. if v = ''none'' then [] else v) ss"

definition PrepareQueryOpts ::
  "'a repo_lib_scheme \<Rightarrow> Repo \<Rightarrow> QueryOpts \<Rightarrow> QueryOpts \<times> goerr option" where
  "PrepareQueryOpts L r opts =
     (case QueryOpts_Validate opts of
        Some e \<Rightarrow> (opts, Some (WrapError ''invalid query opts: '' e))
      | None \<Rightarrow>
          let groups = Groups (KEPHandler r) in
          if q_Groups opts \<noteq> [] then
            (case selectByRegexp L groups (q_Groups opts) of
               (sigs, Some e) \<Rightarrow> (opts, Some e)
             | (sigs, None) \<Rightarrow>
                 if sigs = []
                 then (opts, Some (ErrorString (''no SIGs match any of: '' @ go_strings (q_Groups opts))))
                 else (opts\<lparr>q_Groups := sigs, q_Stage := none_to_empty (q_Stage opts)\<rparr>, None))
          else (opts\<lparr>q_Groups := groups, q_Stage := none_to_empty (q_Stage opts)\<rparr>, None))"

text \<open>
  Loading the KEPs of each group, with a failing pull request search only logged; an error of
  the local search ends the query without a list.
\<close>

fun load_groups ::
  "'a repo_lib_scheme \<Rightarrow> (string list \<Rightarrow> string list) \<Rightarrow> fsys \<Rightarrow> Repo \<Rightarrow> bool \<Rightarrow> string list \<Rightarrow>
   Proposal option list \<Rightarrow> (fsys \<times> Repo \<times> Proposal option slice \<times> goerr option) outcome option" where
  "load_groups L order w r includePRs [] keps = Some (Ret (w, r, Some keps, None))"
| "load_groups L order w r includePRs (sig # sigs) keps =
     (case LoadLocalKEPs L w r sig of
        Panic \<Rightarrow> Some Panic
      | Ret (r, localKEPs, Some e) \<Rightarrow>
          Some (Ret (w, r, None, errors_Wrap L (Some e) ''loading local KEPs''))
      | Ret (r, localKEPs, None) \<Rightarrow>
          let keps = keps @ elems localKEPs in
          if includePRs then
            Option.bind (LoadPullRequestKEPs L order w r sig) (\<lambda>res.
              case res of
                Panic \<Rightarrow> Some Panic
              | Ret (w, r, prKeps, eo) \<Rightarrow>
                  load_groups L order w r includePRs sigs (keps @ prKeps))
          else load_groups L order w r includePRs sigs keps)"

definition query_match :: "QueryOpts \<Rightarrow> Proposal \<Rightarrow> bool" where
  "query_match opts k \<longleftrightarrow>
     (q_Status opts \<noteq> [] \<longrightarrow> sliceToMap (q_Status opts) (StatusOf k)) \<and>
     (q_Stage opts \<noteq> [] \<longrightarrow> sliceToMap (q_Stage opts) (StageOf k)) \<and>
     (q_PRRApprover opts \<noteq> [] \<longrightarrow> atLeastOne [] (sliceToMap (q_PRRApprover opts))) \<and>
     (q_Author opts \<noteq> [] \<longrightarrow> atLeastOne (elems (Authors k)) (sliceToMap (q_Author opts))) \<and>
     (q_Approver opts \<noteq> [] \<longrightarrow> atLeastOne (elems (Approvers k)) (sliceToMap (q_Approver opts))) \<and>
     (q_Participant opts \<noteq> [] \<longrightarrow>
        atLeastOne (elems (ParticipatingSIGs k)) (sliceToMap (q_Participant opts)))"

fun filter_keps ::
  "'a repo_lib_scheme \<Rightarrow> QueryOpts \<Rightarrow> Proposal option list \<Rightarrow> Proposal option list \<Rightarrow> goerr + Proposal option list" where
  "filter_keps L opts [] results = Inr results"
| "filter_keps L opts (None # ks) results = Inl (errors_New L ''one of the KEPs in query was nil'')"
| "filter_keps L opts (Some k # ks) results =
     filter_keps L opts ks (if query_match opts k then results @ [Some k] else results)"

definition Query_collect ::
  "'a repo_lib_scheme \<Rightarrow> (string list \<Rightarrow> string list) \<Rightarrow> fsys \<Rightarrow> Repo \<Rightarrow> QueryOpts \<Rightarrow>
   (fsys \<times> Repo \<times> QueryOpts \<times> Proposal option slice \<times> goerr option) outcome option" where
  "Query_collect L order w r opts =
     Option.bind (load_groups L order w r (q_IncludePRs opts) (q_Groups opts) []) (\<lambda>res.
       case res of
         Panic \<Rightarrow> Some Panic
       | Ret (w, r, None, eo) \<Rightarrow> Some (Ret (w, r, opts, None, eo))
       | Ret (w, r, Some allKEPs, eo) \<Rightarrow>
           (case filter_keps L opts allKEPs [] of
              Inl e \<Rightarrow> Some (Ret (w, r, opts, None, Some e))
            | Inr results \<Rightarrow> Some (Ret (w, r, opts, Some results, None))))"

definition Query ::
  "'a repo_lib_scheme \<Rightarrow> (string list \<Rightarrow> string list) \<Rightarrow> fsys \<Rightarrow> Repo \<Rightarrow> QueryOpts \<Rightarrow>
   (fsys \<times> Repo \<times> QueryOpts \<times> Proposal option slice \<times> goerr option) outcome option" where
  "Query L order w r opts =
     (case PrepareQueryOpts L r opts of
        (opts, Some e) \<Rightarrow>
          Some (Ret (w, r, opts, None, Some (WrapError ''invalid query options: '' e)))
      | (opts, None) \<Rightarrow>
          if TokenPath r \<noteq> [] then
            (case SetGitHubToken w r (TokenPath r) of
               (r, Some e) \<Rightarrow>
                 Some (Ret (w, r, opts, None, errors_Wrap L (Some e) ''setting GitHub token''))
             | (r, None) \<Rightarrow> Query_collect L order w r opts)
          else Query_collect L order w r opts)"

end
