(* ===== verification/Kepctl.thy ===== *)
theory Kepctl
  imports ProposalCmds RepoQuery
begin

text \<open>
  The command line tool kepctl (pkg/kepctl, cmd/kepctl/main.go): its global options, the three
  subcommands with the flags each binds to its options, and their execution. The command line
  is parsed by cobra, outside the repository: what it found is an \<open>invocation\<close>, the subcommand,
  the values given for the flags and the remaining arguments. Cobra runs the persistent check
  of the root command, then the check of the subcommand, then the subcommand, and stops at the
  first error. The logger's setup is an argument too.
\<close>

section \<open>Flags and options\<close>

record flags =
  given_string :: "string \<Rightarrow> string option"
  given_strings :: "string \<Rightarrow> string list option"
  given_bool :: "string \<Rightarrow> bool option"

definition StringVar :: "flags \<Rightarrow> string \<Rightarrow> string \<Rightarrow> string" where
  "StringVar fl name dflt = (case given_string fl name of None \<Rightarrow> dflt | Some v \<Rightarrow> v)"

definition StringsVar :: "flags \<Rightarrow> string \<Rightarrow> string list \<Rightarrow> string list" where
  "StringsVar fl name dflt = (case given_strings fl name of None \<Rightarrow> dflt | Some v \<Rightarrow> v)"

definition BoolVar :: "flags \<Rightarrow> string \<Rightarrow> bool \<Rightarrow> bool" where
  "BoolVar fl name dflt = (case given_bool fl name of None \<Rightarrow> dflt | Some v \<Rightarrow> v)"

record kepctl_Options =
  LogLevel :: string
  RepoPath :: string
  k_TokenPath :: string
  k_KEP :: string
  k_Name :: string
  k_Number :: string
  k_SIG :: string
  k_ParticipatingSIG :: string

definition root_flags :: "string \<Rightarrow> flags \<Rightarrow> kepctl_Options" where
  "root_flags enhancementsPath fl =
     \<lparr>LogLevel = StringVar fl ''log-level'' ''info'',
      RepoPath = StringVar fl ''repo-path'' enhancementsPath,
      k_TokenPath = StringVar fl ''gh-token-path'' [],
      k_KEP = [], k_Name = [], k_Number = [], k_SIG = [], k_ParticipatingSIG = []\<rparr>"

definition create_flags :: "flags \<Rightarrow> CreateOpts" where
  "create_flags fl =
     \<lparr>o_KEP = [],
      o_Name = StringVar fl ''name'' [],
      o_Number = StringVar fl ''number'' [],
      o_SIG = StringVar fl ''owning-sig'' [],
      c_Repo = None,
      c_Title = StringVar fl ''title'' [],
      c_Approvers = StringsVar fl ''approvers'' [],
      c_Authors = StringsVar fl ''authors'' [],
      c_Reviewers = StringsVar fl ''reviewers'' [],
      c_Type = StringVar fl ''type'' ''feature'',
      c_State = StringVar fl ''state'' ProvisionalStatus,
      c_Stage = StringVar fl ''stage'' AlphaStage,
      c_ParticipatingSIGs = StringsVar fl ''participating-sigs'' [],
      c_PRRApprovers = []\<rparr>"

definition promote_flags :: "flags \<Rightarrow> PromoteOpts" where
  "promote_flags fl =
     \<lparr>o_KEP = [], o_Name = [], o_Number = [], o_SIG = [], p_Repo = None,
      p_Release = StringVar fl ''release'' [], p_Stage = StringVar fl ''stage'' []\<rparr>"

definition query_flags :: "flags \<Rightarrow> QueryOpts" where
  "query_flags fl =
     \<lparr>q_Groups = StringsVar fl ''sig'' [],
      q_Status = StringsVar fl ''status'' [],
      q_Stage = StringsVar fl ''stage'' [],
      q_PRRApprover = StringsVar fl ''prr'' [],
      q_Author = StringsVar fl ''author'' [],
      q_Approver = StringsVar fl ''approver'' [],
      q_Participant = StringsVar fl ''participating-sig'' [],
      q_IncludePRs = BoolVar fl ''include-prs'' False,
      q_Output = StringVar fl ''output'' DefaultFormat\<rparr>"


section \<open>Subcommands\<close>

definition runCreate ::
  "'a repo_lib_scheme \<Rightarrow> date \<Rightarrow> fsys \<Rightarrow> kepctl_Options \<Rightarrow> CreateOpts \<Rightarrow> (fsys \<times> goerr option) outcome" where
  "runCreate L now w rootOpts opts =
     (case New L w (RepoPath rootOpts) of
        (rc, Some e) \<Rightarrow> Ret (w, errors_Wrap L (Some e) ''creating repo client'')
      | (rc, None) \<Rightarrow> Create L now w (opts\<lparr>c_Repo := rc\<rparr>))"

definition runPromote ::
  "'a repo_lib_scheme \<Rightarrow> fsys \<Rightarrow> kepctl_Options \<Rightarrow> PromoteOpts \<Rightarrow> (fsys \<times> goerr option) outcome" where
  "runPromote L w rootOpts opts =
     (case New L w (RepoPath rootOpts) of
        (rc, Some e) \<Rightarrow> Ret (w, errors_Wrap L (Some e) ''creating repo client'')
      | (rc, None) \<Rightarrow>
          (case Promote L w (opts\<lparr>p_Repo := rc\<rparr>) of
             Panic \<Rightarrow> Panic
           | Ret (w, opts, eo) \<Rightarrow> Ret (w, eo)))"

definition runQuery ::
  "'a repo_lib_scheme \<Rightarrow> 'b out_lib_scheme \<Rightarrow> (string list \<Rightarrow> string list) \<Rightarrow> fsys \<Rightarrow> streams \<Rightarrow>
   kepctl_Options \<Rightarrow> QueryOpts \<Rightarrow> (fsys \<times> streams \<times> goerr option) outcome option" where
  "runQuery L O' order w s rootOpts opts =
     (case New L w (RepoPath rootOpts) of
        (rc, Some e) \<Rightarrow> Some (Ret (w, s, errors_Wrap L (Some e) ''creating repo client''))
      | (None, None) \<Rightarrow> Some Panic
      | (Some r, None) \<Rightarrow>
          Option.bind (Query L order w (r\<lparr>TokenPath := k_TokenPath rootOpts\<rparr>) opts) (\<lambda>res.
            case res of
              Panic \<Rightarrow> Some Panic
            | Ret (w, r, opts, results, Some e) \<Rightarrow> Some (Ret (w, s, Some e))
            | Ret (w, r, opts, results, None) \<Rightarrow>
                (case NewOutput (q_Output opts) of
                   Inl e \<Rightarrow> Some (Ret (w, s, Some e))
                 | Inr o' \<Rightarrow>
                     (case PrintProposals O' o' (elems results) s of
                        Panic \<Rightarrow> Some Panic
                      | Ret s \<Rightarrow> Some (Ret (w, s, None))))))"


section \<open>Execution\<close>

datatype command = CreateCmd | PromoteCmd | QueryCmd

record invocation =
  i_command :: command
  i_flags :: flags
  i_args :: "string list"

definition initLogging :: "(string \<Rightarrow> goerr option) \<Rightarrow> kepctl_Options \<Rightarrow> goerr option" where
  "initLogging setupGlobalLogger rootOpts = setupGlobalLogger (LogLevel rootOpts)"

definition cmd_create ::
  "'a repo_lib_scheme \<Rightarrow> date \<Rightarrow> fsys \<Rightarrow> kepctl_Options \<Rightarrow> invocation \<Rightarrow> (fsys \<times> goerr option) outcome" where
  "cmd_create L now w rootOpts i =
     (let co = create_flags (i_flags i) in
      case CreateOpts_Validate co (i_args i) of
        Some e \<Rightarrow> Ret (w, Some e)
      | None \<Rightarrow> runCreate L now w rootOpts co)"

definition cmd_promote ::
  "'a repo_lib_scheme \<Rightarrow> fsys \<Rightarrow> kepctl_Options \<Rightarrow> invocation \<Rightarrow> (fsys \<times> goerr option) outcome" where
  "cmd_promote L w rootOpts i =
     (let po = promote_flags (i_flags i) in
      case PromoteOpts_Validate po (i_args i) of
        Some e \<Rightarrow> Ret (w, Some e)
      | None \<Rightarrow> runPromote L w rootOpts po)"

definition cmd_query ::
  "'a repo_lib_scheme \<Rightarrow> 'b out_lib_scheme \<Rightarrow> (string list \<Rightarrow> string list) \<Rightarrow> fsys \<Rightarrow> streams \<Rightarrow>
   kepctl_Options \<Rightarrow> invocation \<Rightarrow> (fsys \<times> streams \<times> goerr option) outcome option" where
  "cmd_query L O' order w s rootOpts i =
     (let qo = query_flags (i_flags i) in
      case QueryOpts_Validate qo of
        Some e \<Rightarrow> Some (Ret (w, s, Some e))
      | None \<Rightarrow> runQuery L O' order w s rootOpts qo)"

definition with_streams :: "streams \<Rightarrow> (fsys \<times> goerr option) outcome \<Rightarrow> (fsys \<times> streams \<times> goerr option) outcome option" where
  "with_streams s res = (case res of Panic \<Rightarrow> Some Panic | Ret (w, eo) \<Rightarrow> Some (Ret (w, s, eo)))"

definition Execute ::
  "'a repo_lib_scheme \<Rightarrow> 'b out_lib_scheme \<Rightarrow> (string \<Rightarrow> goerr option) \<Rightarrow> (string list \<Rightarrow> string list) \<Rightarrow>
   date \<Rightarrow> string \<Rightarrow> fsys \<Rightarrow> streams \<Rightarrow> invocation \<Rightarrow> (fsys \<times> streams \<times> goerr option) outcome option" where
  "Execute L O' setupGlobalLogger order now enhancementsPath w s i =
     (let rootOpts = root_flags enhancementsPath (i_flags i) in
      case initLogging setupGlobalLogger rootOpts of
        Some e \<Rightarrow> Some (Ret (w, s, Some e))
      | None \<Rightarrow>
          (case i_command i of
             CreateCmd \<Rightarrow> with_streams s (cmd_create L now w rootOpts i)
           | PromoteCmd \<Rightarrow> with_streams s (cmd_promote L w rootOpts i)
           | QueryCmd \<Rightarrow> cmd_query L O' order w s rootOpts i))"

text \<open>The process: its exit code is 1 after an error and 2 after a panic.\<close>

definition kepctl_main ::
  "'a repo_lib_scheme \<Rightarrow> 'b out_lib_scheme \<Rightarrow> (string \<Rightarrow> goerr option) \<Rightarrow> (string list \<Rightarrow> string list) \<Rightarrow>
   date \<Rightarrow> string \<Rightarrow> fsys \<Rightarrow> streams \<Rightarrow> invocation \<Rightarrow> nat option" where
  "kepctl_main L O' setupGlobalLogger order now enhancementsPath w s i =
     map_option (\<lambda>res. case res of Panic \<Rightarrow> 2 | Ret (w, s, Some e) \<Rightarrow> 1 | Ret (w, s, None) \<Rightarrow> 0)
       (Execute L O' setupGlobalLogger order now enhancementsPath w s i)"

end
