(* ===== verification/RepoValidate.thy ===== *)
theory RepoValidate
  imports Repo
begin

text \<open>
  The validation of all KEPs of a repository (pkg/repo/validate.go): the traversal that
  collects the metadata files and the proposals without one, and the validation of each file.
  The map from file names to errors is a function, \<^term>\<open>None\<close> where it has no entry; the
  list of warnings the Go function also returns is always nil.
\<close>

type_synonym valErrs = "string \<Rightarrow> goerr list option"

definition add_valErr :: "string \<Rightarrow> goerr \<Rightarrow> valErrs \<Rightarrow> valErrs" where
  "add_valErr f e m = m(f := Some ((case m f of None \<Rightarrow> [] | Some es \<Rightarrow> es) @ [e]))"

definition Validate_fn :: "fsys \<Rightarrow> string \<Rightarrow> (string list \<times> valErrs) walkfn" where
  "Validate_fn w kepDir s path info err =
     (case info of
        None \<Rightarrow> (s, WPanic)
      | Some fi \<Rightarrow>
          (case err of
             Some e \<Rightarrow> (s, WErr e)
           | None \<Rightarrow>
               if IsDir fi then (s, if fi_name fi = PRRApprovalPathStub then WSkipDir else WNil)
               else
                 let dir = Dir path;
                     metadataFilepath = FJoin [dir, ProposalMetadataFilename]
                 in if \<not> isl (Stat w metadataFilepath) \<and> fi_name fi = ProposalMetadataFilename
                    then ((fst s @ [metadataFilepath], snd s), WSkipDir)
                    else if fi_name fi = ProposalFilename \<and> dir \<noteq> kepDir \<and>
                            (case Stat w metadataFilepath of Inl e \<Rightarrow> IsNotExist e | Inr mi \<Rightarrow> False)
                    then ((fst s, add_valErr metadataFilepath
                             (ErrorString (''metadata file missing for KEP: '' @ metadataFilepath)) (snd s)),
                          WNil)
                    else (s, WNil)))"

text \<open>\<open>errors.Wrapf\<close> of an error that is not nil is not nil.\<close>

definition wrapf :: "'a errors_lib_scheme \<Rightarrow> goerr \<Rightarrow> string \<Rightarrow> goerr" where
  "wrapf L e m = (case errors_Wrap L (Some e) m of Some e' \<Rightarrow> e' | None \<Rightarrow> e)"

definition validateFile ::
  "'a repo_lib_scheme \<Rightarrow> fsys \<Rightarrow> Repo \<Rightarrow> string \<Rightarrow> string \<Rightarrow> (Repo \<times> goerr option) outcome" where
  "validateFile L w r prrDir filename =
     (case Open w filename of
        Inl e \<Rightarrow> Ret (r, Some (FatalPtr (wrapf L e (''could not open file '' @ filename))))
      | Inr kepFile \<Rightarrow>
          (case KEPHandler_Parse L (KEPHandler r) kepFile of
             Panic \<Rightarrow> Panic
           | Ret (k, kep, eo) \<Rightarrow>
               let r = r\<lparr>KEPHandler := k\<rparr> in
               case eo of
                 Some e \<Rightarrow> Ret (r, errors_Wrap L (Some e) ''parsing KEP file'')
               | None \<Rightarrow>
                   (case kep of
                      None \<Rightarrow> Panic
                    | Some kep \<Rightarrow>
                        let kep = kep\<lparr>Filename := filename\<rparr> in
                        case Error kep of
                          Some e \<Rightarrow> Ret (r, Some (FatalPtr (wrapf L e (filename @ '' has an error''))))
                        | None \<Rightarrow>
                            (case ValidatePRR L w kep (PRRHandler r) prrDir of
                               Panic \<Rightarrow> Panic
                             | Ret (h, eo) \<Rightarrow> Ret (r\<lparr>PRRHandler := h\<rparr>, eo)))))"

text \<open>
  \<open>errors.As\<close> with a pointer to a \<open>fatalValidationError\<close>: whether an error of the chain has
  that struct type, as a value.
\<close>

definition As_fatalValidationError :: "goerr \<Rightarrow> bool" where
  "As_fatalValidationError e = list_ex (\<lambda>e. case e of FatalVal _ \<Rightarrow> True | _ \<Rightarrow> False) (error_chain e)"

fun validate_files ::
  "'a repo_lib_scheme \<Rightarrow> fsys \<Rightarrow> Repo \<Rightarrow> string \<Rightarrow> string list \<Rightarrow> valErrs \<Rightarrow>
   (Repo \<times> valErrs \<times> goerr option) outcome" where
  "validate_files L w r prrDir [] m = Ret (r, m, None)"
| "validate_files L w r prrDir (f # fs) m =
     (case validateFile L w r prrDir f of
        Panic \<Rightarrow> Panic
      | Ret (r, None) \<Rightarrow> validate_files L w r prrDir fs m
      | Ret (r, Some e) \<Rightarrow>
          if As_fatalValidationError e then Ret (r, m, Some e)
          else validate_files L w r prrDir fs (add_valErr f e m))"

definition Repo_Validate ::
  "'a repo_lib_scheme \<Rightarrow> fsys \<Rightarrow> Repo \<Rightarrow> (Repo \<times> valErrs \<times> goerr option) outcome" where
  "Repo_Validate L w r =
     (if ProposalPath r = [] then Ret (r, Map.empty, Some (errors_New L ''proposal path cannot be empty''))
      else
        case Walk w (ProposalPath r) (Validate_fn w (ProposalPath r)) ([], Map.empty) of
          (s, WPanic) \<Rightarrow> Panic
        | ((files, m), WErr e) \<Rightarrow> Ret (r, m, errors_Wrap L (Some e) ''walking repository'')
        | ((files, m), _) \<Rightarrow>
            if files = [] then Ret (r, m, Some (errors_New L ''must find more than zero KEPs''))
            else validate_files L w r (PRRApprovalPath r) files m)"

end
