(* ===== verification/ProposalProps.thy ===== *)
theory ProposalProps
  imports Proposal
begin

text \<open>
  Properties of the KEP parser: how the front matter is separated from the markdown, when
  parsing succeeds and with which proposal, what happens to the parser on each error, the
  identifier, and exactly which proposals are valid.
\<close>

section \<open>Separating the front matter\<close>

lemma sublist_snoc_neq:
  assumes "c \<notin> set xs"
  shows "sublist xs (ys @ [c]) \<longleftrightarrow> sublist xs ys"
proof
  assume "sublist xs (ys @ [c])"
  then obtain as bs where e: "ys @ [c] = as @ xs @ bs" by (auto simp: sublist_def)
  show "sublist xs ys"
  proof (cases bs rule: rev_cases)
    case Nil
    with e assms have "xs = []" by (cases xs rule: rev_cases) auto
    then show ?thesis by simp
  next
    case (snoc bs' b)
    with e have "ys = as @ xs @ bs'" by simp
    then show ?thesis by (auto simp: sublist_def)
  qed
qed (auto simp: sublist_append)

lemma is_separator_line: "is_separator (t @ [newline]) \<longleftrightarrow> is_separator t"
  unfolding is_separator_def Contains_def by (rule sublist_snoc_neq) (simp add: newline_def)

lemma parse_lines_skip:
  "\<forall>l\<in>set ls. \<not> is_separator l \<Longrightarrow>
   parse_lines (ls @ ts) count md body =
     (if count = 1 then parse_lines ts count (md @ unlines ls) body
      else parse_lines ts count md (body @ unlines ls))"
  by (induction ls arbitrary: md body) (auto simp: is_separator_line)

lemma parse_lines_sep: "is_separator l \<Longrightarrow> parse_lines (l # ts) count md body = parse_lines ts (Suc count) md body"
  by (simp add: is_separator_line)

lemma parse_lines_rest:
  "2 \<le> count \<Longrightarrow> \<exists>c\<ge>count. parse_lines ts count md body =
     (c, md, body @ unlines (filter (\<lambda>l. \<not> is_separator l) ts))"
proof (induction ts arbitrary: count body)
  case (Cons t ts)
  show ?case
  proof (cases "is_separator t")
    case True
    from Cons.IH [of "Suc count" body] Cons.prems obtain c where "c \<ge> Suc count"
      "parse_lines ts (Suc count) md body = (c, md, body @ unlines (filter (\<lambda>l. \<not> is_separator l) ts))"
      by auto
    with True show ?thesis by (intro exI [of _ c]) (simp add: is_separator_line)
  next
    case False
    from Cons.IH [of count "body @ t @ [newline]"] Cons.prems False show ?thesis
      by (simp add: is_separator_line)
  qed
qed simp

lemma parse_lines_front:
  assumes "\<forall>l\<in>set (pre @ meta). \<not> is_separator l" and "is_separator d1" and "is_separator d2"
  shows "\<exists>c\<ge>2. parse_lines (pre @ d1 # meta @ d2 # rest) 0 [] [] =
    (c, unlines meta, unlines pre @ unlines (filter (\<lambda>l. \<not> is_separator l) rest))"
proof -
  have "parse_lines (pre @ d1 # meta @ d2 # rest) 0 [] [] =
      parse_lines rest 2 (unlines meta) (unlines pre)"
    using assms parse_lines_skip [of pre "d1 # meta @ d2 # rest" 0 "[]" "[]"]
      parse_lines_skip [of meta "d2 # rest" "Suc 0" "[]" "unlines pre"]
    by (simp add: parse_lines_sep numeral_2_eq_2 del: parse_lines.simps(2))
  then show ?thesis using parse_lines_rest [of 2 rest "unlines meta" "unlines pre"] by auto
qed

lemma Parse_with_front:
  assumes "list_all text_line (pre @ d1 # meta @ d2 # rest)"
    and "\<forall>l\<in>set (pre @ meta). \<not> is_separator l" and "is_separator d1" and "is_separator d2"
  shows "KEPHandler_Parse L k (unlines (pre @ d1 # meta @ d2 # rest), None) =
           decode_KEP L k (unlines meta)
             (zero_Proposal\<lparr>Contents := unlines (pre @ filter (\<lambda>l. \<not> is_separator l) rest)\<rparr>)"
proof -
  obtain c where "c \<ge> 2" and "parse_lines (pre @ d1 # meta @ d2 # rest) 0 [] [] =
    (c, unlines meta, unlines pre @ unlines (filter (\<lambda>l. \<not> is_separator l) rest))"
    using parse_lines_front [OF assms(2-4)] by auto
  then show ?thesis
    unfolding KEPHandler_Parse_def scan_unlines [OF assms(1)] by (simp add: Let_def)
qed

lemma Parse_without_front:
  assumes "list_all text_line ls" and "\<forall>l\<in>set ls. \<not> is_separator l"
  shows "KEPHandler_Parse L k (unlines ls, None) = decode_KEP L k (unlines ls) zero_Proposal"
proof -
  have "parse_lines ls 0 [] [] = (0, [], unlines ls)"
    using assms(2) parse_lines_skip [of ls "[]" 0 "[]" "[]"] by simp
  then show ?thesis
    unfolding KEPHandler_Parse_def scan_unlines [OF assms(1)] by (simp add: Let_def zero_Proposal_def)
qed

text \<open>
  C10: in a file whose lines are read, the lines between the first two separator lines are what the
  decoder gets, and the markdown kept in the proposal is every other line that is not a
  separator, in order; a file without a separator is all metadata and leaves the markdown
  empty.
\<close>

theorem Parse_front_matter:
  assumes "list_all text_line (pre @ d1 # meta @ d2 # rest)"
    and "\<forall>l\<in>set (pre @ meta). \<not> is_separator l" and "is_separator d1" and "is_separator d2"
  shows "KEPHandler_Parse L k (unlines (pre @ d1 # meta @ d2 # rest), None) =
           decode_KEP L k (unlines meta)
             (zero_Proposal\<lparr>Contents := unlines (pre @ filter (\<lambda>l. \<not> is_separator l) rest)\<rparr>) \<and>
         KEPHandler_Parse L k (unlines meta, None) = decode_KEP L k (unlines meta) zero_Proposal"
  using assms by (intro conjI Parse_with_front Parse_without_front) auto

section \<open>Outcomes of parsing\<close>

definition metadata_of :: "string list \<Rightarrow> string" where
  "metadata_of ls =
     (case parse_lines ls 0 [] [] of (c, md, body) \<Rightarrow> if c = 0 then body else md)"

definition contents_of :: "string list \<Rightarrow> string" where
  "contents_of ls =
     (case parse_lines ls 0 [] [] of (c, md, body) \<Rightarrow> if c = 0 then [] else body)"

definition decoded :: "'a kep_lib_scheme \<Rightarrow> reader \<Rightarrow> Proposal option \<times> goerr option" where
  "decoded L r =
     yaml_Proposal L True (metadata_of (scan_text r))
       (Some (zero_Proposal\<lparr>Contents := contents_of (scan_text r)\<rparr>))"

definition with_ID :: "Proposal \<Rightarrow> Proposal" where
  "with_ID p = p\<lparr>ID := hash (OwningSIG p @ '':'' @ Title p)\<rparr>"

lemma Parse_read:
  "scan_err r = None \<Longrightarrow> KEPHandler_Parse L k r =
     decode_KEP L k (metadata_of (scan_text r))
       (zero_Proposal\<lparr>Contents := contents_of (scan_text r)\<rparr>)"
  by (simp add: KEPHandler_Parse_def metadata_of_def contents_of_def zero_Proposal_def
      split: prod.splits)

lemma Parse_read_error:
  "scan_err r = Some e \<Longrightarrow>
   \<exists>p. KEPHandler_Parse L k r = Ret (k, Some p, errors_Wrap L (Some e) ''reading file'')"
  by (simp add: KEPHandler_Parse_def split: prod.splits)

lemmas decode_KEP_simp =
  decode_KEP_def UnmarshalStrict_def decoded_def [symmetric] with_ID_def

lemma Parse_cases:
  assumes "validator_Proposal_ok L"
  obtains (read) e p where "scan_err r = Some e"
      "KEPHandler_Parse L k r = Ret (k, Some p, errors_Wrap L (Some e) ''reading file'')"
    | (decode) po e where "scan_err r = None" "decoded L r = (po, Some e)"
      "KEPHandler_Parse L k r =
        Ret (add_error (errors_Wrap L (Some e) ''error unmarshalling YAML'') k, po,
             errors_Wrap L (Some e) ''unmarshalling YAML'')"
    | (invalid) po e where "scan_err r = None" "decoded L r = (po, None)"
      "\<not> (\<exists>p. po = Some p \<and> required_fields p)" "validateStruct L po = Some e"
      "KEPHandler_Parse L k r =
        Ret (add_error (Some e) k, po, Some (WrapError ''validating KEP: '' e))"
    | (valid) p where "scan_err r = None" "decoded L r = (Some p, None)" "required_fields p"
      "KEPHandler_Parse L k r = Ret (k, Some (with_ID p), None)"
proof (cases "scan_err r")
  case (Some e)
  with Parse_read_error [OF Some, of L k] show ?thesis using read by blast
next
  case None
  note R = Parse_read [OF None, of L k]
  obtain po eo where d: "decoded L r = (po, eo)" by force
  show ?thesis
  proof (cases eo)
    case (Some e)
    with R d show ?thesis by (intro decode [OF None]) (simp_all add: decode_KEP_simp)
  next
    case eo: None
    show ?thesis
    proof (cases "validateStruct L po")
      case (Some e)
      with R d eo validateStruct_nil_iff [OF assms, of po] show ?thesis
        by (intro invalid [OF None]) (simp_all add: decode_KEP_simp)
    next
      case v: None
      then obtain p where p: "po = Some p" "required_fields p"
        using validateStruct_nil_iff [OF assms] by blast
      with R d eo v show ?thesis by (intro valid [OF None]) (simp_all add: decode_KEP_simp)
    qed
  qed
qed

text \<open>
  C11: parsing returns a proposal without an error exactly when the file is read, the decoder
  accepts the front matter, and the decoded proposal has all required fields; the result is
  the decoded proposal with its identifier, and the parser is as before. Parsing never
  panics.
\<close>

theorem Parse_success_iff:
  assumes "validator_Proposal_ok L" and "errors_lib_ok L"
  shows "(KEPHandler_Parse L k r = Ret (k', Some p, None) \<longleftrightarrow>
      k' = k \<and> scan_err r = None \<and>
      (\<exists>q. decoded L r = (Some q, None) \<and> required_fields q \<and> p = with_ID q)) \<and>
    KEPHandler_Parse L k r \<noteq> Panic"
  by (rule Parse_cases [OF assms(1), of r k])
    (auto simp: errors_Wrap_eq_None_iff [OF assms(2)])

text \<open>
  C12: the parser collects errors: a failure to decode or validate adds exactly one error to the
  list of the parser, a failure to read adds none, and success leaves the list alone; the
  groups and approvers of the parser never change. An error is returned in exactly the three
  failing cases.
\<close>

theorem Parse_errors_recorded:
  assumes "validator_Proposal_ok L" and "errors_lib_ok L"
    and "KEPHandler_Parse L k r = Ret (k', po, eo)"
  shows "Groups k' = Groups k \<and> PRRApprovers k' = PRRApprovers k \<and>
    (\<exists>new. Errors k' = Errors k @ map Some new \<and>
      length new = (if eo \<noteq> None \<and> scan_err r = None then 1 else 0)) \<and>
    (eo = None \<longrightarrow> po \<noteq> None)"
proof (rule Parse_cases [OF assms(1), of r k])
  fix po' e assume "scan_err r = None" and
    "KEPHandler_Parse L k r = Ret (add_error (errors_Wrap L (Some e) ''error unmarshalling YAML'') k,
       po', errors_Wrap L (Some e) ''unmarshalling YAML'')"
  moreover obtain e1 e2 where "errors_Wrap L (Some e) ''error unmarshalling YAML'' = Some e1"
    "errors_Wrap L (Some e) ''unmarshalling YAML'' = Some e2"
    using errors_Wrap_Some [OF assms(2)] by meson
  ultimately show ?thesis using assms(3) by (auto intro: exI [of _ "[e1]"])
next
  fix po' e assume "scan_err r = None" and
    "KEPHandler_Parse L k r = Ret (add_error (Some e) k, po', Some (WrapError ''validating KEP: '' e))"
  then show ?thesis using assms(3) by (auto intro: exI [of _ "[e]"])
qed (use assms(3) in \<open>auto simp: errors_Wrap_eq_None_iff [OF assms(2)]\<close>)

lemma hash_hex: "length (hash s) = 32 \<and> list_all hex_char (hash s)"
  using length_hex_bytes [of "md5_Sum s"] length_md5_Sum [of s] hex_bytes_chars [of "md5_Sum s"]
    md5_Sum_bytes [of _ s] by (simp add: hash_def)

lemma append_sep_eq:
  assumes "c \<notin> set a" and "c \<notin> set a'"
  shows "a @ c # b = a' @ c # b' \<longleftrightarrow> a = a' \<and> b = b'"
  using until_first(1) [OF assms(1), of b] until_first(1) [OF assms(2), of b']
    until_first(2) [OF assms(1), of b] until_first(2) [OF assms(2), of b'] by auto

text \<open>
  C13: the identifier of a parsed KEP, whatever the document says about one, is the MD5 sum of its
  owning SIG, a colon and its title, written as 32 lower-case hexadecimal digits. For SIGs without
  a colon the text hashed determines both: two KEPs that differ in one of them never hash the
  same text, and two that agree in both have the same identifier.
\<close>

theorem Parse_ID:
  assumes "validator_Proposal_ok L" and "errors_lib_ok L"
    and "KEPHandler_Parse L k r = Ret (k', Some p, None)"
    and "KEPHandler_Parse L j s = Ret (j', Some q, None)"
  shows "ID p = hex_bytes (md5_Sum (OwningSIG p @ '':'' @ Title p)) \<and>
    length (ID p) = 32 \<and> list_all hex_char (ID p) \<and>
    (CHR '':'' \<notin> set (OwningSIG p) \<union> set (OwningSIG q) \<longrightarrow>
       (OwningSIG p @ '':'' @ Title p = OwningSIG q @ '':'' @ Title q \<longleftrightarrow> OwningSIG p = OwningSIG q \<and> Title p = Title q)) \<and>
    (OwningSIG p = OwningSIG q \<and> Title p = Title q \<longrightarrow> ID p = ID q)"
proof -
  have "ID p' = hash (OwningSIG p' @ '':'' @ Title p')"
    if "KEPHandler_Parse L k r = Ret (k', Some p', None)" for k r k' p'
    by (rule Parse_cases [OF assms(1), of r k])
      (use that in \<open>auto simp: with_ID_def errors_Wrap_None_iffs [OF assms(2)]\<close>)
  note id = this [OF assms(3)] this [OF assms(4)]
  show ?thesis
    using id append_sep_eq [of "CHR '':''" "OwningSIG p" "OwningSIG q" "Title p" "Title q"]
      hash_hex [of "OwningSIG p @ '':'' @ Title p"] by (simp add: hash_def)
qed


section \<open>Validity\<close>

text \<open>
  C14: validating a proposal reports nothing exactly when it has the required fields, its owning
  SIG and every participating SIG are known groups, its status and stage are valid, and an
  implemented KEP is at stage stable.
\<close>

theorem Validate_nil_iff:
  assumes "validator_Proposal_ok L"
  shows "KEPHandler_Validate L k p = [] \<longleftrightarrow>
    required_fields p \<and> insert (OwningSIG p) (set (elems (ParticipatingSIGs p))) \<subseteq> set (Groups k) \<and>
    StatusOf p \<in> set ValidStatuses \<and> StageOf p \<in> set ValidStages \<and>
    (StatusOf p = ImplementedStatus \<longrightarrow> StageOf p = StableStage)"
proof -
  have "validateGroups k p = [] \<longleftrightarrow>
      insert (OwningSIG p) (set (elems (ParticipatingSIGs p))) \<subseteq> set (Groups k)"
    by (auto simp: validateGroups_def Let_def filter_eq_Nil_iff)
  moreover have "(case eo of Some e \<Rightarrow> [f e] | None \<Rightarrow> []) = [] \<longleftrightarrow> eo = None" for eo :: "goerr option" and f
    by (cases eo) auto
  ultimately show ?thesis
    using validateStruct_nil_iff [OF assms, of "Some p"]
    by (auto simp: KEPHandler_Validate_def stage_enum.IsValid_nil_iff status_enum.IsValid_nil_iff)
qed


section \<open>A sample library\<close>

definition sample_proposal :: Proposal where
  "sample_proposal =
     zero_Proposal\<lparr>Title := ''T'', Number := ''42'', Authors := Some [''@ann''], OwningSIG := ''sig-node'',
       ParticipatingSIGs := Some [''sig-api''], Approvers := Some [''@bob''],
       StatusOf := ''implementable'', StageOf := ''beta'', LatestMilestone := ''v1.30''\<rparr>"

definition sample_text :: "string list" where
  "sample_text = [''title: T'', ''kep-number: 42'']"

definition sample_Proposal_decoder :: "Proposal option decoder" where
  "sample_Proposal_decoder strict body po =
     (if body = unlines sample_text
      then (map_option (\<lambda>p. sample_proposal\<lparr>Contents := Contents p\<rparr>) po, None)
      else (po, Some (LibError ''yaml: unknown field'')))"

definition sample_Proposal_validator :: "Proposal option \<Rightarrow> goerr option" where
  "sample_Proposal_validator po =
     (case po of
        None \<Rightarrow> Some (LibError ''validator: (nil)'')
      | Some p \<Rightarrow> if required_fields p then None else Some (LibError ''required''))"

definition sample_kep_lib :: kep_lib where
  "sample_kep_lib =
     errors_lib.extend sample_errors_lib
       \<lparr>yaml_Proposal = sample_Proposal_decoder, validator_Proposal = sample_Proposal_validator\<rparr>"

lemma sample_kep_lib_ok: "validator_Proposal_ok sample_kep_lib" "errors_lib_ok sample_kep_lib"
  by (simp_all add: validator_Proposal_ok_def sample_kep_lib_def sample_Proposal_validator_def
      errors_lib_ok_def sample_errors_lib_def errors_lib.defs)

definition sample_parser :: Parser where
  "sample_parser = \<lparr>Groups = [''sig-api'', ''sig-node''], PRRApprovers = [''ann''], Errors = []\<rparr>"

definition sample_markdown :: "string list" where
  "sample_markdown = [''---''] @ sample_text @ [''---'', ''# Title'', ''-----'', ''text'']"

definition sample_reader :: reader where
  "sample_reader = (unlines sample_markdown, None)"

lemma sample_lines: "list_all text_line sample_markdown"
  by (simp add: sample_markdown_def sample_text_def text_line_def newline_def carriage_return_def
      MaxScanTokenSize_def)

lemma is_separator_eval:
  "is_separator [] \<longleftrightarrow> False" "is_separator (c # l) \<longleftrightarrow> prefix ''---'' (c # l) \<or> is_separator l"
  by (simp_all add: is_separator_def Contains_def sublist_Cons_right)

theorem Parse_front_matter_witness:
  "KEPHandler_Parse sample_kep_lib sample_parser
     (unlines ([] @ ''---'' # sample_text @ ''---'' # [''# Title'', ''-----'', ''text'']), None) =
   decode_KEP sample_kep_lib sample_parser (unlines sample_text)
     (zero_Proposal\<lparr>Contents := unlines ([] @ filter (\<lambda>l. \<not> is_separator l) [''# Title'', ''-----'', ''text''])\<rparr>)"
  using Parse_front_matter [of "[]" "''---''" sample_text "''---''" "[''# Title'', ''-----'', ''text'']"
      sample_kep_lib sample_parser] sample_lines
  by (simp add: sample_markdown_def sample_text_def is_separator_eval del: unlines_simps)

lemma sample_scan: "scan_text sample_reader = sample_markdown" "scan_err sample_reader = None"
  using scan_unlines [OF sample_lines] by (simp_all add: sample_reader_def)

lemma sample_split:
  "parse_lines sample_markdown 0 [] [] =
     (3, unlines sample_text, unlines [''# Title'', ''text''])"
  by (simp add: sample_markdown_def sample_text_def is_separator_line is_separator_eval)

definition sample_parsed :: Proposal where
  "sample_parsed = sample_proposal\<lparr>Contents := unlines [''# Title'', ''text'']\<rparr>"

lemma sample_decoded: "decoded sample_kep_lib sample_reader = (Some sample_parsed, None)"
  by (simp add: decoded_def metadata_of_def contents_of_def sample_scan sample_split
      sample_kep_lib_def sample_Proposal_decoder_def sample_errors_lib_def errors_lib.defs
      sample_parsed_def)

lemma sample_required: "required_fields sample_parsed"
  by (simp add: required_fields_def sample_parsed_def sample_proposal_def)

lemma sample_parse_ok:
  "KEPHandler_Parse sample_kep_lib sample_parser sample_reader =
   Ret (sample_parser, Some (with_ID sample_parsed), None)"
  by (rule Parse_cases [OF sample_kep_lib_ok(1), of sample_reader sample_parser])
    (auto simp: sample_scan sample_decoded sample_required)

theorem Parse_success_iff_witness:
  "KEPHandler_Parse sample_kep_lib sample_parser sample_reader =
   Ret (sample_parser, Some (with_ID sample_parsed), None)"
  using Parse_success_iff [OF sample_kep_lib_ok, of sample_parser sample_reader sample_parser
      "with_ID sample_parsed"]
  by (auto simp: sample_scan sample_decoded sample_required)

lemma sample_parse_unknown_field:
  "KEPHandler_Parse sample_kep_lib sample_parser (unlines [''bogus: 1''], None) =
   Ret (add_error (errors_Wrap sample_kep_lib (Some (LibError ''yaml: unknown field''))
          ''error unmarshalling YAML'') sample_parser,
        Some zero_Proposal,
        errors_Wrap sample_kep_lib (Some (LibError ''yaml: unknown field'')) ''unmarshalling YAML'')"
proof -
  have ls: "list_all text_line [''bogus: 1'']" and ns: "\<forall>l\<in>set [''bogus: 1'']. \<not> is_separator l"
    by (simp_all add: text_line_def newline_def carriage_return_def MaxScanTokenSize_def
        is_separator_eval)
  show ?thesis
    unfolding Parse_without_front [OF ls ns]
    by (simp add: decode_KEP_def UnmarshalStrict_def sample_kep_lib_def
        errors_lib.defs sample_errors_lib_def sample_Proposal_decoder_def sample_text_def
        newline_def)
qed

theorem Parse_errors_recorded_witness:
  "\<exists>k' po eo e. KEPHandler_Parse sample_kep_lib sample_parser (unlines [''bogus: 1''], None) =
     Ret (k', po, eo) \<and> Errors k' = [Some e] \<and> Groups k' = [''sig-api'', ''sig-node'']"
proof -
  have "list_all text_line [''bogus: 1'']"
    by (simp add: text_line_def newline_def carriage_return_def MaxScanTokenSize_def)
  then have "scan_err (unlines [''bogus: 1''], None) = None" by (rule scan_unlines)
  with Parse_errors_recorded [OF sample_kep_lib_ok sample_parse_unknown_field]
  show ?thesis
    unfolding sample_parse_unknown_field
    by (simp add: sample_parser_def errors_Wrap_eq_None_iff [OF sample_kep_lib_ok(2)]
        length_Suc_conv del: unlines_simps add_error_simps) auto
qed

lemma sample_hash: "hash ''sig-node:T'' = ''d6776f8464271e2f66269ac890d708b8''"
  by code_simp

theorem Parse_ID_witness: "ID (with_ID sample_parsed) = ''d6776f8464271e2f66269ac890d708b8''"
proof -
  have "OwningSIG (with_ID sample_parsed) = ''sig-node''" "Title (with_ID sample_parsed) = ''T''"
    by (simp_all add: with_ID_def sample_parsed_def sample_proposal_def)
  moreover have "ID (with_ID sample_parsed) =
      hex_bytes (md5_Sum (OwningSIG (with_ID sample_parsed) @ '':'' @ Title (with_ID sample_parsed)))"
    using Parse_ID [OF sample_kep_lib_ok sample_parse_ok sample_parse_ok] by (rule conjunct1)
  ultimately show ?thesis using sample_hash by (simp add: hash_def)
qed

theorem Validate_nil_iff_witness: "KEPHandler_Validate sample_kep_lib sample_parser sample_parsed = []"
  using Validate_nil_iff [OF sample_kep_lib_ok(1), of sample_parser sample_parsed] sample_required
  by (simp add: sample_parsed_def sample_proposal_def sample_parser_def zero_Proposal_def
      ValidStatuses_def ValidStages_def stage_names status_names)

end
