(* ===== verification/PRRProps.thy ===== *)
theory PRRProps
  imports KepVal ProposalProps "HOL-Library.Multiset"
begin

text \<open>
  Properties of the production readiness reviews: the approver of a stage, the lists the
  remote fetcher returns, when a review is required, and exactly when a KEP passes.
\<close>

section \<open>Approvers of stages\<close>

text \<open>
  C15: \<open>ApproverForStage\<close> is the lookup of the milestone that belongs to the stage: an invalid
  stage, an approval without milestones and a missing milestone are three different errors,
  and otherwise the approver of that milestone is returned. The last, unknown error cannot
  occur.
\<close>

theorem ApproverForStage_spec:
  "ApproverForStage L prr s =
     (case Stage_IsValid s of
        Some e \<Rightarrow> Inl e
      | None \<Rightarrow>
          if milestone_for prr = Map.empty then Inl (ErrPRRMilestonesAllEmpty L)
          else (case milestone_for prr s of
                  None \<Rightarrow> Inl (ErrPRRMilestoneIsNil L)
                | Some m \<Rightarrow> Inr (Approver m)))"
proof (cases "Stage_IsValid s")
  case None
  then have s: "s \<in> set ValidStages" by (simp add: stage_enum.IsValid_nil_iff)
  have "milestone_for prr t = None" if "t \<notin> set ValidStages" for t
    using that by (simp add: milestone_for_def ValidStages_eq)
  then have "(\<forall>s\<in>set ValidStages. milestone_for prr s = None) \<longleftrightarrow> milestone_for prr = Map.empty"
    by (auto simp: fun_eq_iff)
  with None s show ?thesis
    by (simp add: ApproverForStage_valid approver_of_def)
qed (simp add: ApproverForStage_def)


section \<open>Remote groups and approvers\<close>

lemma scan_text_any_char: "t \<in> set (scan_text r) \<Longrightarrow> list_all any_char t"
  using scan_text_no_newline [of t r] by (auto simp: list_all_iff any_char_def newline_def)

definition dir_of_line :: "string \<Rightarrow> string option" where
  "dir_of_line t = after_first ''- dir: '' t"

lemma group_matches_lines:
  assumes "\<forall>t\<in>set ts. list_all any_char t"
  shows "group_matches ts = List.map_filter dir_of_line ts"
  using assms
proof (induction ts)
  case (Cons t ts)
  then have "dir_of_line t = map_option (\<lambda>cs. cs 1) (find_submatch dir_regexp t)"
    unfolding dir_regexp_def dir_of_line_def by (intro find_submatch_rest_of_line [symmetric]) simp
  with Cons show ?case
    by (cases "find_submatch dir_regexp t") (auto simp: group_matches_def)
qed (simp add: group_matches_def)

text \<open>
  C16: when the list of SIGs is fetched with status 200 and read without error, the groups are, in
  ascending order and with their multiplicities, what follows the first \<open>- dir: \<close> of each
  line that has one.
\<close>

theorem FetchGroups_spec:
  assumes "net_Get L (GroupsListURL f) = Inr resp" and "StatusCode resp = 200"
    and "scan_err (Body resp) = None"
  shows "\<exists>gs. FetchGroups L (RemoteFetcher f) = (gs, None) \<and> sorted gs \<and>
    mset gs = mset (List.map_filter dir_of_line (scan_text (Body resp)))"
  using assms group_matches_lines [of "scan_text (Body resp)"] scan_text_any_char
  by (simp add: Remote_FetchGroups_def)

text \<open>
  C17: the remote fetcher returns PRR approvers without an error exactly when the file is served
  with status 200, can be read and decoded strictly, and its two aliases together have members;
  the approvers are then these members, emeritus ones included, sorted and each as often as it
  is listed.
\<close>

theorem FetchPRRApprovers_spec:
  assumes "errors_lib_ok L"
  shows "FetchPRRApprovers L (RemoteFetcher f) = (as, None) \<longleftrightarrow> as \<noteq> [] \<and> sorted as \<and>
    (\<exists>resp b config. net_Get L (OwnersAliasesURL f) = Inr resp \<and> StatusCode resp = 200 \<and> Body resp = (b, None) \<and>
       yaml_Aliases L True b (\<lambda>_. []) = (config, None) \<and>
       mset as = mset (config (PRRApproversAlias f)) + mset (config (PRRApproversEmeritusAlias f)))"
proof -
  have sorted: "as = sort xs \<and> xs \<noteq> [] \<longleftrightarrow> as \<noteq> [] \<and> sorted as \<and> mset as = mset xs" for xs
    by (metis mset_sort mset_zero_iff properties_for_sort sorted_sort)
  have "FetchPRRApprovers L (RemoteFetcher f) = (as, None) \<longleftrightarrow>
    (\<exists>resp b config. net_Get L (OwnersAliasesURL f) = Inr resp \<and> StatusCode resp = 200 \<and> Body resp = (b, None) \<and>
       yaml_Aliases L True b (\<lambda>_. []) = (config, None) \<and>
       as = sort (config (PRRApproversAlias f) @ config (PRRApproversEmeritusAlias f)) \<and>
       config (PRRApproversAlias f) @ config (PRRApproversEmeritusAlias f) \<noteq> [])"
    by (cases "\<exists>resp. net_Get L (OwnersAliasesURL f) = Inr resp")
      (auto simp: Remote_FetchPRRApprovers_def ReadAll_def UnmarshalStrict_def Let_def
        errors_Wrap_None_iffs [OF assms] prod_eq_iff split: sum.splits if_splits option.splits prod.splits)
  then show ?thesis unfolding sorted by (simp only: mset_append) blast
qed

section \<open>When a review is required\<close>

text \<open>
  C18: for a KEP with a stage and a latest milestone \<open>vM.N\<close>, a review is required, without an
  error, exactly when the status is implementable or implemented and the milestone is
  v1.21 or later.
\<close>

theorem isPRRRequired_iff:
  assumes "semver_ok L" and "M < 2 ^ 64" and "N < 2 ^ 64"
    and "LatestMilestone kep = minor_version M N" and "StageOf kep \<noteq> []"
  shows "isPRRRequired L kep =
    (StatusOf kep \<in> {''implementable'', ''implemented''} \<and> (M > 1 \<or> M = 1 \<and> N \<ge> 21), None)"
proof -
  have "semver_ParseTolerant L (LatestMilestone kep) = Inr (release M N 0)"
    using assms unfolding semver_ok_def by simp
  moreover have "semver_LT L (release M N 0) (release 1 21 0) \<longleftrightarrow> M < 1 \<or> M = 1 \<and> N < 21"
    using assms(1) unfolding semver_ok_def by simp
  moreover have "LatestMilestone kep \<noteq> []" using assms(4) by (simp add: minor_version_def)
  ultimately show ?thesis
    using assms(5)
    by (auto simp: isPRRRequired_def Let_def IsMissingMilestone_def IsMissingStage_def
        release_1_21 [OF assms(1)] status_names)
qed

section \<open>Passing the review\<close>

text \<open>What an approval file must say of a KEP and who may approve.\<close>

definition approved :: "string list \<Rightarrow> Proposal \<Rightarrow> PRRApproval \<Rightarrow> bool" where
  "approved approvers kep prr \<longleftrightarrow>
     StageOf kep \<in> set ValidStages \<and>
     (\<exists>m. milestone_for prr (StageOf kep) = Some m \<and> Approver m \<noteq> [] \<and>
        TrimPrefix (Approver m) ''@'' \<in> set approvers)"

lemma check_approver_nil_iff:
  assumes "errors_lib_ok L"
  shows "check_approver L kep h prr = None \<longleftrightarrow> approved (PRRApprovers h) kep prr"
proof (cases "StageOf kep \<in> set ValidStages")
  case True
  then show ?thesis
    by (cases "milestone_for prr (StageOf kep)")
      (auto simp: check_approver_def ApproverForStage_valid approver_of_def approved_def Let_def
        errors_Wrap_None_iffs [OF assms])
next
  case False
  then have "Stage_IsValid (StageOf kep) \<noteq> None" by (simp only: stage_enum.IsValid_nil_iff) simp
  with False show ?thesis
    by (auto simp: check_approver_def ApproverForStage_def approved_def
        errors_Wrap_None_iffs [OF assms])
qed

definition approval_in :: "'a prr_lib_scheme \<Rightarrow> reader \<Rightarrow> PRRApproval \<Rightarrow> bool" where
  "approval_in L r prr \<longleftrightarrow>
     scan_err r = None \<and> prr_fields prr \<and>
     yaml_PRR L True (unlines (scan_text r)) (Some zero_PRRApproval) = (Some prr, None)"

lemma PRRHandler_Parse_cases:
  assumes "validator_PRR_ok L" and "errors_lib_ok L"
  obtains (ok) prr where "PRRHandler_Parse L h r = (h, Some prr, None)" "approval_in L r prr"
  | (err) h' po e where "PRRHandler_Parse L h r = (h', po, Some e)" "\<forall>prr. \<not> approval_in L r prr"
proof (cases "PRRHandler_Parse L h r")
  case (fields h' po eo)
  show ?thesis
  proof (cases eo)
    case None
    with fields PRRHandler_Parse_nil_iff [OF assms, of h r h' po] obtain prr where
      "h' = h" "po = Some prr" "approval_in L r prr" by (auto simp: approval_in_def)
    with fields None show ?thesis by (intro ok) simp_all
  next
    case (Some e)
    have "\<not> approval_in L r prr" for prr
      using PRRHandler_Parse_nil_iff [OF assms, of h r h "Some prr"] fields Some
      by (auto simp: approval_in_def)
    with fields Some show ?thesis by (intro err) simp_all
  qed
qed

lemma ValidatePRR_nil:
  assumes "validator_PRR_ok L" and "errors_lib_ok L"
  shows "(ValidatePRR L w kep h dir = Ret (h', None) \<longleftrightarrow> h' = h \<and>
      (isPRRRequired L kep = (False, None) \<or>
       isPRRRequired L kep = (True, None) \<and>
       (\<exists>r prr. Open w (prr_filepath kep dir) = Inr r \<and> approval_in L r prr \<and>
          prr_Error prr = None \<and> approved (PRRApprovers h) kep prr))) \<and>
    ValidatePRR L w kep h dir \<noteq> Panic"
proof (cases "isPRRRequired L kep")
  case (Pair b eo)
  note wraps = errors_Wrap_None_iffs [OF assms(2)]
  show ?thesis
  proof (cases "eo = None \<and> b \<and> isl (Open w (prr_filepath kep dir)) = False")
    case False
    with Pair show ?thesis
      by (cases eo; cases b; cases "Open w (prr_filepath kep dir)")
        (auto simp: ValidatePRR_def Let_def wraps)
  next
    case True
    then obtain r where r: "Open w (prr_filepath kep dir) = Inr r"
      by (cases "Open w (prr_filepath kep dir)") auto
    show ?thesis
    proof (rule PRRHandler_Parse_cases [OF assms, of h r], goal_cases ok err)
      case (ok prr)
      have v: "ValidatePRR L w kep h dir =
        (case prr_Error prr of
           Some e \<Rightarrow> Ret (h, errors_Wrap L (Some e) (prr_filepath kep dir @ '' has an error''))
         | None \<Rightarrow> Ret (h, check_approver L kep h prr))"
        using True Pair r ok(1) by (simp add: ValidatePRR_def Let_def)
      have same: "approval_in L r prr' \<longleftrightarrow> prr' = prr" for prr'
        using ok(2) by (auto simp: approval_in_def)
      have "(\<exists>r prr. Open w (prr_filepath kep dir) = Inr r \<and> approval_in L r prr \<and>
          prr_Error prr = None \<and> approved (PRRApprovers h) kep prr) \<longleftrightarrow>
        prr_Error prr = None \<and> approved (PRRApprovers h) kep prr"
        using r same by simp
      then show ?thesis
        using True Pair check_approver_nil_iff [OF assms(2), of kep h prr]
        by (cases "prr_Error prr") (auto simp: v wraps)
    next
      case (err h'' po e)
      then show ?thesis
        using True Pair r by (cases po) (auto simp: ValidatePRR_def Let_def wraps)
    qed
  qed
qed

text \<open>
  C19: a KEP passes the review check exactly when no review is required, or the approval file of its
  owning SIG and number can be opened and read, decodes to a well-formed approval without an
  error of its own, and names for the stage of the KEP a PRR approver of the handler, up to a
  leading at sign. The check never panics, and passing leaves the handler as it was.
\<close>

theorem ValidatePRR_nil_iff:
  assumes "validator_PRR_ok L" and "errors_lib_ok L"
  shows "(ValidatePRR L w kep h dir = Ret (h', None) \<longleftrightarrow> h' = h \<and>
      (isPRRRequired L kep = (False, None) \<or>
       isPRRRequired L kep = (True, None) \<and>
       (\<exists>r prr. Open w (prr_filepath kep dir) = Inr r \<and> approval_in L r prr \<and>
          prr_Error prr = None \<and> approved (PRRApprovers h) kep prr))) \<and>
    ValidatePRR L w kep h dir \<noteq> Panic"
  using assms by (rule ValidatePRR_nil)

section \<open>A sample library\<close>

definition sample_approval :: PRRApproval where
  "sample_approval =
     zero_PRRApproval\<lparr>prr_Number := ''42'', prr_Beta := Some \<lparr>Approver = ''@ann''\<rparr>\<rparr>"

definition sample_PRR_decoder :: "PRRApproval option decoder" where
  "sample_PRR_decoder strict body po =
     (if body = unlines [''kep-number: 42''] then (Some sample_approval, None)
      else (po, Some (LibError ''yaml'')))"

definition sample_PRR_validator :: "PRRApproval option \<Rightarrow> goerr option" where
  "sample_PRR_validator po =
     (case po of
        None \<Rightarrow> Some (LibError ''validator: (nil)'')
      | Some prr \<Rightarrow> if prr_fields prr then None else Some (LibError ''required''))"

definition sample_Get :: "string \<Rightarrow> goerr + http_response" where
  "sample_Get url =
     (if url = ''groups'' then Inr \<lparr>StatusCode = 200, Body = (unlines [''- dir: sig-b'', ''x'', ''  - dir: sig-a''], None)\<rparr>
      else if url = ''owners'' \<or> url = ''https://raw.githubusercontent.com/kubernetes/enhancements/master/OWNERS_ALIASES''
      then Inr \<lparr>StatusCode = 200, Body = (''aliases'', None)\<rparr>
      else if url = ''https://raw.githubusercontent.com/kubernetes/community/master/sigs.yaml''
      then Inr \<lparr>StatusCode = 200, Body = (unlines [''- dir: sig-node'', ''- dir: sig-api''], None)\<rparr>
      else Inl (LibError ''no such host''))"

definition sample_Aliases_decoder :: "(string \<Rightarrow> string list) decoder" where
  "sample_Aliases_decoder strict body config =
     ((\<lambda>_. [])(''prr'' := [''bob'', ''ann''], ''prod-readiness-approvers'' := [''ann'']), None)"

definition sample_remote :: RemoteGroupFetcher where
  "sample_remote = \<lparr>GroupsListURL = ''groups'', OwnersAliasesURL = ''owners'',
     PRRApproversAlias = ''prr'', PRRApproversEmeritusAlias = ''emeritus''\<rparr>"

definition sample_ParseTolerant :: "string \<Rightarrow> goerr + SemVer" where
  "sample_ParseTolerant s =
     (case Split CHR ''.'' (TrimPrefix s ''v'') of
        [a, b] \<Rightarrow> Inr (release (nat (digits_val a)) (nat (digits_val b)) 0)
      | _ \<Rightarrow> Inl (LibError ''invalid version''))"

definition sample_LT :: "SemVer \<Rightarrow> SemVer \<Rightarrow> bool" where
  "sample_LT u v \<longleftrightarrow>
     Major u < Major v \<or> Major u = Major v \<and>
       (Minor u < Minor v \<or> Minor u = Minor v \<and> Patch u < Patch v)"

definition sample_val_lib :: val_lib where
  "sample_val_lib =
     kep_lib.extend sample_kep_lib
       \<lparr>yaml_PRR = sample_PRR_decoder, validator_PRR = sample_PRR_validator,
        net_Get = sample_Get, yaml_Aliases = sample_Aliases_decoder,
        semver_ParseTolerant = sample_ParseTolerant, semver_LT = sample_LT\<rparr>"

lemmas sample_val_lib_simps =
  sample_val_lib_def sample_kep_lib_def sample_errors_lib_def errors_lib.defs kep_lib.defs

lemma sample_val_lib_fields [simp]:
  "yaml_PRR sample_val_lib = sample_PRR_decoder" "net_Get sample_val_lib = sample_Get"
  "yaml_Aliases sample_val_lib = sample_Aliases_decoder"
  "semver_ParseTolerant sample_val_lib = sample_ParseTolerant"
  "semver_LT sample_val_lib = sample_LT"
  "yaml_Proposal sample_val_lib = sample_Proposal_decoder"
  by (simp_all add: sample_val_lib_simps)

lemma sample_ParseTolerant_minor: "sample_ParseTolerant (minor_version M N) = Inr (release M N 0)"
proof -
  have "CHR ''.'' \<notin> set (nat_digits n)" for n
    by (auto dest: nat_digits_is_digit simp: is_digit_def)
  then have "Split CHR ''.'' (nat_digits M @ CHR ''.'' # nat_digits N) = [nat_digits M, nat_digits N]"
    by (simp add: Split_append_sep Split_no_sep)
  then show ?thesis
    by (simp add: sample_ParseTolerant_def minor_version_def nat_digits_correct)
qed

lemma sample_val_lib_ok:
  "validator_PRR_ok sample_val_lib" "errors_lib_ok sample_val_lib" "semver_ok sample_val_lib"
  "validator_Proposal_ok sample_val_lib"
  using sample_ParseTolerant_minor
  by (simp_all add: validator_PRR_ok_def errors_lib_ok_def sample_PRR_validator_def semver_ok_def
      sample_LT_def release_def validator_Proposal_ok_def sample_Proposal_validator_def
      sample_val_lib_simps)

section \<open>Witnesses\<close>

theorem FetchGroups_spec_witness:
  "\<exists>gs. FetchGroups sample_val_lib (RemoteFetcher sample_remote) = (gs, None) \<and> sorted gs \<and>
     mset gs = {#''sig-a'', ''sig-b''#}"
proof -
  let ?ls = "[''- dir: sig-b'', ''x'', ''  - dir: sig-a'']"
  have ls: "list_all text_line ?ls"
    by (simp add: text_line_def newline_def carriage_return_def MaxScanTokenSize_def)
  have dirs: "List.map_filter dir_of_line ?ls = [''sig-b'', ''sig-a'']"
    by (simp add: dir_of_line_def)
  show ?thesis
    using FetchGroups_spec [of sample_val_lib sample_remote "\<lparr>StatusCode = 200, Body = (unlines ?ls, None)\<rparr>"]
    unfolding http_response.simps scan_unlines [OF ls] dirs
    by (simp add: sample_Get_def sample_remote_def add_mset_commute)
qed

lemma sample_fetch_approvers:
  "FetchPRRApprovers sample_val_lib (RemoteFetcher sample_remote) = ([''ann'', ''bob''], None)"
  by code_simp

theorem FetchPRRApprovers_spec_witness:
  "FetchPRRApprovers sample_val_lib (RemoteFetcher sample_remote) = ([''ann'', ''bob''], None) \<and>
   (\<exists>resp b config. net_Get sample_val_lib (OwnersAliasesURL sample_remote) = Inr resp \<and> StatusCode resp = 200 \<and>
      Body resp = (b, None) \<and> yaml_Aliases sample_val_lib True b (\<lambda>_. []) = (config, None) \<and>
      {#''ann'', ''bob''#} = mset (config (PRRApproversAlias sample_remote)) +
        mset (config (PRRApproversEmeritusAlias sample_remote)))"
  using FetchPRRApprovers_spec [OF sample_val_lib_ok(2), THEN iffD1, OF sample_fetch_approvers]
    sample_fetch_approvers by simp

theorem isPRRRequired_iff_witness: "isPRRRequired sample_val_lib sample_proposal = (True, None)"
proof -
  have "LatestMilestone sample_proposal = minor_version 1 30" by code_simp
  then show ?thesis
    using isPRRRequired_iff [OF sample_val_lib_ok(3), of 1 30 sample_proposal]
    by (simp add: sample_proposal_def)
qed

definition sample_prr_fs :: fsys where
  "sample_prr_fs =
     \<lparr>fs_root = DirN mode_perm [(''prr'', DirN mode_perm [(''sig-node'', DirN mode_perm
        [(''42.yaml'', Reg mode_perm (unlines [''kep-number: 42'']))])])], fs_cwd = []\<rparr>"

lemma sample_prr_open:
  "Open sample_prr_fs (prr_filepath sample_proposal ''prr'') = Inr (unlines [''kep-number: 42''], None)"
  by code_simp

theorem ValidatePRR_nil_iff_witness:
  "ValidatePRR sample_val_lib sample_prr_fs sample_proposal sample_parser ''prr'' =
   Ret (sample_parser, None)"
proof -
  have "minor_version 1 30 = ''v1.30''" by code_simp
  then have required: "isPRRRequired sample_val_lib sample_proposal = (True, None)"
    using sample_val_lib_ok(3) release_1_21 [OF sample_val_lib_ok(3)] sample_ParseTolerant_minor [of 1 30]
    by (simp add: isPRRRequired_def sample_proposal_def IsMissingMilestone_def IsMissingStage_def
        status_names sample_LT_def release_def)
  have "list_all text_line [''kep-number: 42'']"
    by (simp add: text_line_def newline_def carriage_return_def MaxScanTokenSize_def)
  then have "approval_in sample_val_lib (unlines [''kep-number: 42''], None) sample_approval"
    unfolding approval_in_def
    by (simp add: scan_unlines sample_PRR_decoder_def prr_fields_def sample_approval_def
        zero_PRRApproval_def ValidStages_eq del: unlines_simps)
  moreover have "approved (PRRApprovers sample_parser) sample_proposal sample_approval"
    by (simp add: approved_def sample_parser_def sample_proposal_def sample_approval_def
        ValidStages_eq)
  moreover have "prr_Error sample_approval = None"
    by (simp add: sample_approval_def zero_PRRApproval_def)
  ultimately show ?thesis
    using ValidatePRR_nil_iff [OF sample_val_lib_ok(1,2), of sample_prr_fs sample_proposal
        sample_parser "''prr''" sample_parser] required sample_prr_open by blast
qed

end
