(* ===== verification/RepoProps.thy ===== *)
theory RepoProps
  imports RepoQuery RepoValidate PRRProps
begin

text \<open>
  Properties of the repository client: what opening a repository establishes, that the search
  of a SIG's directory finds its KEPs, that a KEP written can be loaded back, that the pages
  of pull requests are all listed, what queries return, and what validation reports.
\<close>

section \<open>Paths\<close>

lemma path_elems_Clean [simp]: "path_elems (Clean b) = path_elems b"
  by (simp add: Clean_def path_elems_cleaned)

lemma rooted_Clean [simp]: "rooted (Clean b) = rooted b"
  by (simp add: Clean_def path_elems_cleaned)

lemma Rel_Clean: "Rel (Clean b) p = Rel b p"
  by (simp add: Rel_def Clean_idem)

text \<open>The paths of a repository are joined from its base path.\<close>

definition repo_paths :: "Repo \<Rightarrow> bool" where
  "repo_paths r \<longleftrightarrow>
     BasePath r \<noteq> [] \<and> ProposalPath r = FJoin [BasePath r, ''keps''] \<and>
     PRRApprovalPath r = FJoin [ProposalPath r, ''prod-readiness''] \<and>
     ProposalReadme r = FJoin [ProposalPath r, ''README.md'']"

abbreviation base_root :: "Repo \<Rightarrow> bool" where
  "base_root r \<equiv> rooted (BasePath r)"

abbreviation base_elems :: "Repo \<Rightarrow> string list" where
  "base_elems r \<equiv> path_elems (BasePath r)"

lemma plain_stubs [simp]:
  "plain ''keps''" "plain ''kep.yaml''" "plain ''README.md''" "plain ''prod-readiness''"
  "plain ''NNNN-kep-template''"
  by (simp_all add: plain_def)

lemma cleaned_base:
  "cleaned (base_root r) (base_elems r)"
  "list_all plain cs \<Longrightarrow> cleaned (base_root r) (base_elems r @ cs)"
proof -
  show c: "cleaned (base_root r) (base_elems r)" by (rule path_elems_cleaned)
  show "list_all plain cs \<Longrightarrow> cleaned (base_root r) (base_elems r @ cs)"
    by (induction cs rule: rev_induct) (auto simp: c cleaned_append_plain simp flip: append_assoc)
qed

lemma ProposalPath_render:
  "repo_paths r \<Longrightarrow> ProposalPath r = render (base_root r) (base_elems r @ [''keps''])"
  by (simp add: repo_paths_def FJoin_plain)

lemma sigPath_render:
  assumes "repo_paths r" and "plain sig"
  shows "FJoin [ProposalPath r, sig] = render (base_root r) (base_elems r @ [''keps'', sig])"
  using FJoin_render [OF cleaned_base(2) [of "[''keps'']" r] assms(2)] ProposalPath_render [OF assms(1)]
  by simp

lemma Rel_base:
  assumes "repo_paths r" and "ds \<noteq> []" and "list_all plain ds"
  shows "Rel (BasePath r) (render (base_root r) (base_elems r @ ds)) = Some (Join ds ''/'')"
proof -
  have "Rel (Clean (BasePath r)) (render (base_root r) (base_elems r @ ds)) = Some (Join ds ''/'')"
    unfolding Clean_def by (rule Rel_below [OF cleaned_base(2) [OF assms(3)] assms(2)])
  then show ?thesis by (simp only: Rel_Clean)
qed


section \<open>Finding the KEPs of a SIG\<close>

abbreviation is_kep_file :: "string \<Rightarrow> fnode \<Rightarrow> bool" where
  "is_kep_file nm n \<equiv> nm = ''kep.yaml'' \<and> node_mode n = ModeRegular"

fun metas :: "string list \<Rightarrow> fnode \<Rightarrow> string list list"
  and entry_metas :: "string list \<Rightarrow> (string \<times> fnode) list \<Rightarrow> string list list" where
  "metas ds (DirN pm es) = entry_metas ds es"
| "metas ds n = []"
| "entry_metas ds [] = []"
| "entry_metas ds ((nm, n) # es) =
     (if is_kep_file nm n then [ds @ [nm]] else metas (ds @ [nm]) n @ entry_metas ds es)"

abbreviation slashed :: "string list \<Rightarrow> string" where
  "slashed ds \<equiv> Join ds ''/''"

lemma findLocalKEPMeta_fn_dir:
  "findLocalKEPMeta_fn r keps p (Some (info_of nm (DirN pm es))) None = (keps, WNil)"
  by (simp add: findLocalKEPMeta_fn_def)

lemma findLocalKEPMeta_fn_other:
  assumes "node_mode n \<noteq> ModeDir" and "\<not> is_kep_file nm n"
  shows "findLocalKEPMeta_fn r keps p (Some (info_of nm n)) None = (keps, WNil)"
  using assms by (cases n) (auto simp: findLocalKEPMeta_fn_def ProposalMetadataFilename_def)

lemma findLocalKEPMeta_fn_kep:
  assumes "repo_paths r" and "ds \<noteq> []" and "list_all plain ds" and "is_kep_file nm n"
  shows "findLocalKEPMeta_fn r keps (render (base_root r) (base_elems r @ ds)) (Some (info_of nm n)) None =
    (keps @ [slashed ds], WSkipDir)"
  using assms by (simp add: findLocalKEPMeta_fn_def ProposalMetadataFilename_def Rel_base)

lemma walk_not_dir: "node_mode n \<noteq> ModeDir \<Longrightarrow> walk f p nm n s = f s p (Some (info_of nm n)) None"
  by (cases n) auto

lemma walk_metas:
  assumes "repo_paths r"
  shows "ds \<noteq> [] \<Longrightarrow> list_all plain ds \<Longrightarrow> plain_names n \<Longrightarrow> listable n \<Longrightarrow> node_mode n = ModeDir \<Longrightarrow>
      \<exists>x\<in>{WNil, WSkipDir}. walk (findLocalKEPMeta_fn r) (render (base_root r) (base_elems r @ ds)) nm n keps =
        (keps @ map slashed (metas ds n), x)"
    and "ds \<noteq> [] \<Longrightarrow> list_all plain ds \<Longrightarrow> \<forall>e\<in>set es. plain (fst e) \<and> plain_names (snd e) \<and> listable (snd e) \<Longrightarrow>
      \<exists>x\<in>{WNil, WSkipDir}. walk_entries (findLocalKEPMeta_fn r) (render (base_root r) (base_elems r @ ds)) es keps =
        (keps @ map slashed (entry_metas ds es), x)"
proof (induction ds n and ds es arbitrary: nm keps and keps rule: metas_entry_metas.induct)
  case (1 ds pm es)
  then show ?case using 1 by (auto simp: findLocalKEPMeta_fn_dir)
next
  case (4 ds nm n es)
  let ?p = "render (base_root r) (base_elems r @ ds)"
  have pl: "plain nm" "plain_names n" "listable n" and ds': "list_all plain (ds @ [nm])"
    using 4 by auto
  have p: "FJoin [?p, nm] = render (base_root r) (base_elems r @ ds @ [nm])"
    using FJoin_render [OF cleaned_base(2) [OF 4(4)] pl(1), of r] by simp
  consider "is_kep_file nm n" | "\<not> is_kep_file nm n" "node_mode n = ModeDir" | "\<not> is_kep_file nm n" "node_mode n \<noteq> ModeDir"
    by blast
  then show ?case
  proof cases
    case 1
    then have "walk (findLocalKEPMeta_fn r) (FJoin [?p, nm]) nm n keps = (keps @ [slashed (ds @ [nm])], WSkipDir)"
      unfolding p using findLocalKEPMeta_fn_kep [OF assms _ ds' 1, of keps] by (simp add: walk_not_dir)
    with 1 show ?thesis by simp
  next
    case 2
    then obtain x where "x = WNil \<or> x = WSkipDir"
      "walk (findLocalKEPMeta_fn r) (FJoin [?p, nm]) nm n keps = (keps @ map slashed (metas (ds @ [nm]) n), x)"
      unfolding p using 4(1) [OF 2(1) _ ds' pl(2,3) 2(2), of nm keps] by auto
    with 2 4(2) [OF 2(1) 4(3,4), of "keps @ map slashed (metas (ds @ [nm]) n)"] 4(5) show ?thesis by auto
  next
    case 3
    then have "metas (ds @ [nm]) n = []" by (cases n) auto
    moreover have "walk (findLocalKEPMeta_fn r) (FJoin [?p, nm]) nm n keps = (keps, WNil)"
      using 3 by (simp add: walk_not_dir findLocalKEPMeta_fn_other)
    ultimately show ?thesis using 3 4(2) [OF 3(1) 4(3,4), of keps] 4(5) by auto
  qed
qed simp_all

text \<open>A regular kep.yaml reached below a node, and that no directory above it has one.\<close>

definition kep_at :: "fnode \<Rightarrow> string list \<Rightarrow> bool" where
  "kep_at n xs \<longleftrightarrow> (\<exists>k. below n (xs @ [''kep.yaml'']) k \<and> node_mode k = ModeRegular)"

definition outermost_kep :: "fnode \<Rightarrow> string list \<Rightarrow> bool" where
  "outermost_kep n xs \<longleftrightarrow> kep_at n xs \<and> (\<forall>ys. strict_prefix ys xs \<longrightarrow> \<not> kep_at n ys)"

lemma kep_at_Nil: "kep_at (DirN pm es) [] \<longleftrightarrow> rd pm \<and> (\<exists>(nm, n)\<in>set es. is_kep_file nm n)"
  by (auto simp: kep_at_def below_Dir_iff)

lemma kep_at_Cons: "kep_at (DirN pm es) (c # xs) \<longleftrightarrow> rd pm \<and> (\<exists>m. (c, m) \<in> set es \<and> kep_at m xs)"
  by (auto simp: kep_at_def below_Dir_iff)

lemma kep_at_dir: "kep_at n xs \<Longrightarrow> node_mode n = ModeDir"
  by (cases xs) (auto simp: kep_at_def elim: below.cases)

lemma metas_sound:
  shows "listable n \<Longrightarrow> d \<in> set (metas ds n) \<Longrightarrow> \<exists>xs. d = ds @ xs @ [''kep.yaml''] \<and> kep_at n xs"
    and "rd pm \<Longrightarrow> \<forall>e\<in>set es. listable (snd e) \<Longrightarrow> d \<in> set (entry_metas ds es) \<Longrightarrow>
      \<exists>xs. d = ds @ xs @ [''kep.yaml''] \<and> kep_at (DirN pm es) xs"
proof (induction ds n and ds es arbitrary: and pm rule: metas_entry_metas.induct)
  case (4 ds nm n es)
  show ?case
  proof (cases "is_kep_file nm n")
    case True
    with 4 show ?thesis by (intro exI [of _ "[]"]) (auto simp: kep_at_Nil)
  next
    case False
    with 4 consider "d \<in> set (metas (ds @ [nm]) n)" | "d \<in> set (entry_metas ds es)" by auto
    then show ?thesis
    proof cases
      case 1
      with 4 False obtain xs where "d = (ds @ [nm]) @ xs @ [''kep.yaml'']" "kep_at n xs" by auto
      with 4 show ?thesis by (intro exI [of _ "nm # xs"]) (auto simp: kep_at_Cons)
    next
      case 2
      with 4 False obtain xs where xs: "d = ds @ xs @ [''kep.yaml'']" "kep_at (DirN pm es) xs" by auto
      then show ?thesis by (intro exI [of _ xs], cases xs) (auto simp: kep_at_Nil kep_at_Cons)
    qed
  qed
qed auto

lemma entry_metas_own:
  "(''kep.yaml'', k) \<in> set es \<Longrightarrow> node_mode k = ModeRegular \<Longrightarrow> ds @ [''kep.yaml''] \<in> set (entry_metas ds es)"
  by (induction es) auto

lemma entry_metas_through:
  "\<forall>nm n. (nm, n) \<in> set es \<longrightarrow> \<not> is_kep_file nm n \<Longrightarrow> (c, m) \<in> set es \<Longrightarrow>
   d \<in> set (metas (ds @ [c]) m) \<Longrightarrow> d \<in> set (entry_metas ds es)"
proof (induction es)
  case (Cons e es)
  obtain a b where e: "e = (a, b)" by (cases e)
  with Cons.prems(1) have "\<not> is_kep_file a b" by simp
  with Cons e show ?case by auto
qed simp

lemma metas_complete: "outermost_kep n xs \<Longrightarrow> ds @ xs @ [''kep.yaml''] \<in> set (metas ds n)"
proof (induction xs arbitrary: n ds)
  case Nil
  then have "kep_at n []" by (simp add: outermost_kep_def)
  moreover obtain pm es where "n = DirN pm es" using kep_at_dir [OF calculation] by (cases n) auto
  ultimately show ?case using entry_metas_own by (auto simp: kep_at_Nil)
next
  case (Cons c xs)
  then have k: "kep_at n (c # xs)" and out: "\<And>ys. strict_prefix ys (c # xs) \<Longrightarrow> \<not> kep_at n ys"
    by (auto simp: outermost_kep_def)
  obtain pm es where n: "n = DirN pm es" using kep_at_dir [OF k] by (cases n) auto
  with k obtain m where m: "(c, m) \<in> set es" "kep_at m xs" and rd: "rd pm" by (auto simp: kep_at_Cons)
  have none: "\<forall>nm n. (nm, n) \<in> set es \<longrightarrow> \<not> is_kep_file nm n" using out [of "[]"] n rd by (auto simp: kep_at_Nil)
  have "outermost_kep m xs"
    unfolding outermost_kep_def
  proof (intro conjI m(2) allI impI)
    fix ys assume "strict_prefix ys xs"
    with out [of "c # ys"] n m(1) rd show "\<not> kep_at m ys" by (auto simp: kep_at_Cons)
  qed
  from Cons.IH [OF this, of "ds @ [c]"] entry_metas_through [OF none m(1), of _ ds] n show ?case by auto
qed

lemma findLocalKEPMeta_metas:
  assumes "repo_paths r" and "plain sig"
    and "find_node w (FJoin [ProposalPath r, sig]) = Inr (DirN pm es)"
    and "plain_names (DirN pm es)" and "listable (DirN pm es)"
  shows "findLocalKEPMeta w r sig =
    Ret (map slashed (metas [''keps'', sig] (DirN pm es)), None)"
proof -
  let ?p = "render (base_root r) (base_elems r @ [''keps'', sig])"
  have p: "FJoin [ProposalPath r, sig] = ?p" by (rule sigPath_render [OF assms(1,2)])
  have "list_all plain [''keps'', sig]" using assms(2) by simp
  then obtain x where "x \<in> {WNil, WSkipDir}"
    "walk (findLocalKEPMeta_fn r) ?p (Base ?p) (DirN pm es) [] =
       ([] @ map slashed (metas [''keps'', sig] (DirN pm es)), x)"
    using walk_metas(1) [OF assms(1) _ _ assms(4,5), of "[''keps'', sig]"] by fastforce
  moreover have "Stat w ?p = Inr (info_of (Base ?p) (DirN pm es))"
    using assms(3) p by (simp add: Stat_def find_followed_def)
  ultimately show ?thesis
    using assms(3) by (auto simp: findLocalKEPMeta_def Let_def p Walk_def)
qed

text \<open>
  C23: in the directory of a SIG whose directories can all be listed, the search for KEPs succeeds.
  Every path it returns is, relative to the repository, a regular file kep.yaml below that
  directory, and every such file that has no other kep.yaml in a directory above it (within
  the SIG) is returned.
\<close>

theorem findLocalKEPMeta_spec:
  assumes "repo_paths r" and "plain sig"
    and "find_node w (FJoin [ProposalPath r, sig]) = Inr n" and "node_mode n = ModeDir"
    and "plain_names n" and "listable n"
  shows "\<exists>files. findLocalKEPMeta w r sig = Ret (files, None) \<and>
    (\<forall>f\<in>set files. \<exists>xs. f = slashed ([''keps'', sig] @ xs @ [''kep.yaml'']) \<and> kep_at n xs) \<and>
    (\<forall>xs. outermost_kep n xs \<longrightarrow> slashed ([''keps'', sig] @ xs @ [''kep.yaml'']) \<in> set files)"
proof -
  obtain pm es where n: "n = DirN pm es" using assms(4) by (cases n) auto
  have "findLocalKEPMeta w r sig = Ret (map slashed (metas [''keps'', sig] n), None)"
    using assms findLocalKEPMeta_metas unfolding n by blast
  moreover have "\<forall>d\<in>set (metas [''keps'', sig] n). \<exists>xs. d = [''keps'', sig] @ xs @ [''kep.yaml''] \<and> kep_at n xs"
    using metas_sound(1) [OF assms(6)] by blast
  ultimately show ?thesis
    using metas_complete [of n _ "[''keps'', sig]"] by (auto simp del: Join.simps)
qed


section \<open>Opening a repository\<close>

definition opened :: "'a repo_lib_scheme \<Rightarrow> fsys \<Rightarrow> string \<Rightarrow> GroupFetcher \<Rightarrow> Repo \<Rightarrow> bool" where
  "opened L w p fetcher r \<longleftrightarrow>
     repo_paths r \<and> BasePath r = p \<and> TokenPath r = [] \<and> Token r = [] \<and> gitClone r = None \<and> allPRs r = None \<and>
     (\<exists>fi. Stat w (ProposalPath r) = Inr fi \<and> IsDir fi) \<and>
     (\<exists>fi. Stat w (PRRApprovalPath r) = Inr fi \<and> IsDir fi) \<and>
     (\<exists>fi. Stat w (ProposalReadme r) = Inr fi \<and> IsRegular fi) \<and>
     FetchGroups L fetcher = (Groups (KEPHandler r), None) \<and>
     FetchPRRApprovers L fetcher = (PRRApprovers (KEPHandler r), None) \<and>
     PRRApprovers (PRRHandler r) = PRRApprovers (KEPHandler r) \<and>
     Errors (KEPHandler r) = [] \<and> Errors (PRRHandler r) = [] \<and> Groups (PRRHandler r) = [] \<and>
     ReadFile w (FJoin [ProposalPath r, ''NNNN-kep-template'', ''README.md'']) = Inr (ProposalTemplate r)"

lemma NewRepo_at_opened:
  assumes "p \<noteq> []" and "NewRepo_at L w p fetcher = (Some r, eo)"
  shows "opened L w p fetcher r \<and> eo = None"
  using assms
  by (auto simp: NewRepo_at_def Let_def opened_def repo_paths_def make_Repo_def getProposalTemplate_def
      repo_names split: sum.splits if_splits prod.splits option.splits)

lemma opened_NewRepo_at:
  assumes "opened L w p fetcher r"
  shows "NewRepo_at L w p fetcher = (Some r, None)"
  using assms
  by (auto simp: NewRepo_at_def Let_def opened_def repo_paths_def make_Repo_def getProposalTemplate_def
      repo_names)

text \<open>
  C24: opening a repository at a path returns a client exactly when its keps and prod-readiness
  directories and the README of keps are there, the groups and the approvers can be fetched,
  and the KEP template can be read; the client then has the paths joined from the given one,
  the fetched groups and approvers in its handlers, no recorded errors and empty caches. A
  client is never returned together with an error.
\<close>

theorem NewRepo_opens:
  assumes "p \<noteq> []"
  shows "NewRepo L w p fetcher = (Some r, eo) \<longleftrightarrow> opened L w p fetcher r \<and> eo = None"
  using assms NewRepo_at_opened [OF assms, of L w fetcher r eo] opened_NewRepo_at [of L w p fetcher r]
  by (auto simp: NewRepo_def)

text \<open>
  C25: if keps, or its prod-readiness, exists but is not a directory, or the README of keps is not
  a regular file, opening the repository returns neither a client nor an error: the error that
  is wrapped at that point is nil.
\<close>

theorem NewRepo_nil_without_error:
  assumes "errors_lib_ok L" and "p \<noteq> []"
    and "Stat w (FJoin [p, ''keps'']) = Inr fi" and "\<not> IsDir fi"
  shows "NewRepo L w p fetcher = (None, None)"
  using assms by (simp add: NewRepo_def NewRepo_at_def Let_def ProposalPathStub_def errors_Wrap_None)


section \<open>Writing and loading back\<close>

text \<open>
  What a proposal looks like after a round trip through YAML, as documented for the decoder:
  fields excluded from the text are empty, a nil slice is written as an empty one, and an
  empty slice with the option omitempty is left out.
\<close>

definition filled :: "'a slice \<Rightarrow> 'a slice" where
  "filled xs = Some (elems xs)"

definition nonempty :: "'a slice \<Rightarrow> 'a slice" where
  "nonempty xs = (if elems xs = [] then None else xs)"

definition yaml_view :: "Proposal \<Rightarrow> Proposal" where
  "yaml_view p =
     p\<lparr>Authors := filled (Authors p), Reviewers := filled (Reviewers p), Approvers := filled (Approvers p),
       Metrics := filled (Metrics p), ParticipatingSIGs := nonempty (ParticipatingSIGs p),
       SeeAlso := nonempty (SeeAlso p), Replaces := nonempty (Replaces p),
       SupersededBy := nonempty (SupersededBy p),
       FeatureGates := filled (map_option (map (\<lambda>g. g\<lparr>fg_Components := filled (fg_Components g)\<rparr>))
          (FeatureGates p)),
       Filename := [], Error := None, Contents := []\<rparr>"

definition yaml_restores :: "'a repo_lib_scheme \<Rightarrow> Proposal \<Rightarrow> bool" where
  "yaml_restores L p \<longleftrightarrow>
     (\<exists>b. yaml_Proposal_text L p = Inr b \<and> yaml_Proposal_value L True b zero_Proposal = (yaml_view p, None))"

definition kep_file :: "Repo \<Rightarrow> Proposal \<Rightarrow> string" where
  "kep_file r p = render (base_root r) (base_elems r @ [''keps'', OwningSIG p, Name p, ''kep.yaml''])"

lemma FJoin_slashed:
  assumes "b \<noteq> []" and "ds \<noteq> []" and "list_all plain ds"
  shows "FJoin [b, slashed ds] = render (rooted b) (path_elems b @ ds)"
proof -
  have "FJoin [b, slashed ds] = FJoin (b # ds)"
    using assms by (simp add: FJoin_def Join_Cons_neq)
  then show ?thesis using FJoin_cons_plain [OF assms] by simp
qed

lemma kep_file_paths:
  assumes "repo_paths r" and "plain (OwningSIG p)" and "plain (Name p)"
  shows "FJoin [FJoin [ProposalPath r, OwningSIG p, Name p], ''kep.yaml''] = kep_file r p"
    and "FJoin [BasePath r, slashed [''keps'', OwningSIG p, Name p, ''kep.yaml'']] = kep_file r p"
proof -
  have "cleaned (base_root r) (base_elems r @ [''keps''])" by (rule cleaned_base) simp
  then have dir: "FJoin [ProposalPath r, OwningSIG p, Name p] =
      render (base_root r) (base_elems r @ [''keps'', OwningSIG p, Name p])"
    using assms by (simp add: FJoin_cons_plain ProposalPath_render)
  have "cleaned (base_root r) (base_elems r @ [''keps'', OwningSIG p, Name p])"
    using assms by (intro cleaned_base) simp
  from FJoin_render [OF this, of "''kep.yaml''"] dir
  show "FJoin [FJoin [ProposalPath r, OwningSIG p, Name p], ''kep.yaml''] = kep_file r p"
    by (simp add: kep_file_def)
  show "FJoin [BasePath r, slashed [''keps'', OwningSIG p, Name p, ''kep.yaml'']] = kep_file r p"
    using assms FJoin_slashed [of "BasePath r" "[''keps'', OwningSIG p, Name p, ''kep.yaml'']"]
    by (simp add: kep_file_def repo_paths_def)
qed

lemma MkdirAll_cases:
  assumes "MkdirAll w p = (w', None)"
  shows "w' = w \<or> (\<exists>n. mkdir_at (fs_root w) (abs_elems w p) = Inr n \<and> w' = w\<lparr>fs_root := n\<rparr>)"
  using assms by (auto simp: MkdirAll_def split: sum.splits if_splits)

lemma WriteKEP_effect:
  assumes "repo_paths r" and "plain (OwningSIG p)" and "plain (Name p)"
    and "WriteKEP L w r p = (w', None)"
  shows "\<exists>b n1 n2 d. yaml_Proposal_text L p = Inr b \<and>
    (n1 = fs_root w \<or> mkdir_at (fs_root w) d = Inr n1) \<and>
    write_at n1 (abs_elems w (kep_file r p)) b = Inr n2 \<and> w' = w\<lparr>fs_root := n2\<rparr>"
proof -
  let ?d = "FJoin [ProposalPath r, OwningSIG p, Name p]"
  from assms obtain b w1 where b: "yaml_Proposal_text L p = Inr b"
    and m: "MkdirAll w ?d = (w1, None)" and wr: "WriteFile w1 (kep_file r p) b = (w', None)"
    by (auto simp: WriteKEP_def Marshal_def Let_def plain_def kep_file_paths(1) [OF assms(1-3)]
        ProposalMetadataFilename_def split: sum.splits if_splits prod.splits option.splits)
  have "fs_cwd w1 = fs_cwd w" using MkdirAll_cases [OF m] by auto
  then have abs: "abs_elems w1 q = abs_elems w q" for q by (simp add: abs_elems_def)
  from wr obtain n2 where "write_at (fs_root w1) (abs_elems w (kep_file r p)) b = Inr n2"
    "w' = w1\<lparr>fs_root := n2\<rparr>"
    by (auto simp: WriteFile_def abs split: sum.splits if_splits)
  then show ?thesis using b MkdirAll_cases [OF m] by auto
qed

lemma kep_file_neq_Nil: "plain (OwningSIG p) \<Longrightarrow> plain (Name p) \<Longrightarrow> kep_file r p \<noteq> []"
  unfolding kep_file_def by (intro render_neq_Nil cleaned_base) simp

lemma WriteKEP_node:
  assumes "repo_paths r" and "plain (OwningSIG p)" and "plain (Name p)"
    and "WriteKEP L w r p = (w', None)"
    and "\<forall>pm b. find_node w (kep_file r p) = Inr (Reg pm b) \<longrightarrow> rd pm"
  shows "\<exists>b pm. yaml_Proposal_text L p = Inr b \<and> find_node w' (kep_file r p) = Inr (Reg pm b) \<and> rd pm"
proof -
  let ?q = "kep_file r p" let ?c = "abs_elems w ?q"
  from WriteKEP_effect [OF assms(1-4)] obtain b n1 n2 d where b: "yaml_Proposal_text L p = Inr b"
    and n1: "n1 = fs_root w \<or> mkdir_at (fs_root w) d = Inr n1"
    and n2: "write_at n1 ?c b = Inr n2" and w': "w' = w\<lparr>fs_root := n2\<rparr>" by blast
  from write_at_lookup [OF n2] obtain pm where pm: "lookup_at n2 ?c = Inr (Reg pm b)"
    "pm = mode_perm \<or> (\<exists>b'. lookup_at n1 ?c = Inr (Reg pm b'))" by blast
  have "rd pm"
  proof (rule ccontr)
    assume "\<not> rd pm"
    with pm(2) obtain b' where "lookup_at n1 ?c = Inr (Reg pm b')" by auto
    with n1 have "lookup_at (fs_root w) ?c = Inr (Reg pm b')" using mkdir_at_new_reg by blast
    with assms(5) kep_file_neq_Nil [OF assms(2,3), of r] \<open>\<not> rd pm\<close> show False by (simp add: find_node_def)
  qed
  with pm(1) b kep_file_neq_Nil [OF assms(2,3), of r] show ?thesis by (simp add: w' find_node_update)
qed

lemma with_location_kep:
  assumes "plain sig" and "plain name"
  shows "with_location (slashed [''keps'', sig, name, ''kep.yaml'']) q =
    q\<lparr>Name := name, Path := sig @ ''/'' @ name\<rparr>"
proof -
  have r: "slashed cs = render False cs" if "cs \<noteq> []" for cs using that by (simp add: render_def)
  have "cleaned False [''keps'', sig, name]" using assms by (intro cleaned_plain) simp
  from Dir_render [OF this, of "''kep.yaml''"] Base_render [OF assms(2), of False "[''keps'', sig]"]
  have "Dir (slashed [''keps'', sig, name, ''kep.yaml'']) = slashed [''keps'', sig, name]"
    "Base (slashed [''keps'', sig, name]) = name"
    by (simp_all add: r del: Join.simps)
  then show ?thesis
    using TrimPrefix_append [of "''keps/''" "sig @ ''/'' @ name"]
    by (simp add: with_location_def ProposalPathStub_def)
qed

lemma loadKEP_written:
  assumes "repo_paths r" and "plain (OwningSIG p)" and "plain (Name p)"
    and "validator_PRR_ok L" and "errors_lib_ok L" and "yaml_restores L p"
    and "yaml_Proposal_text L p = Inr b" and "ReadFile w' (kep_file r p) = Inr b"
  shows "\<exists>r'. loadKEPFromYaml L w' r (BasePath r) (slashed [''keps'', OwningSIG p, Name p, ''kep.yaml'']) =
    Ret (r', Inr ((yaml_view p)\<lparr>Path := OwningSIG p @ ''/'' @ Name p\<rparr>))"
proof -
  let ?k = "slashed [''keps'', OwningSIG p, Name p, ''kep.yaml'']"
  let ?q = "(yaml_view p)\<lparr>Path := OwningSIG p @ ''/'' @ Name p\<rparr>"
  have "with_location ?k (yaml_view p) = ?q"
    unfolding with_location_kep [OF assms(2,3)] by (simp add: yaml_view_def)
  moreover obtain h eo where "ValidatePRR L w' ?q (PRRHandler r)
      (FJoin [BasePath r, ProposalPathStub, PRRApprovalPathStub]) = Ret (h, eo)"
    using ValidatePRR_nil [OF assms(4,5)] by (metis outcome.exhaust surj_pair)
  ultimately show ?thesis
    using assms(6-8) unfolding loadKEPFromYaml_def kep_file_paths(2) [OF assms(1-3)]
    by (auto simp: Let_def UnmarshalStrict_def yaml_restores_def)
qed

text \<open>
  A KEP that was written is loaded back: when YAML restores a proposal, writing it to the
  repository and loading the metadata file of its SIG and name gives the proposal as YAML
  restores it, with its name and its path.
\<close>

theorem WriteKEP_load:
  assumes "repo_paths r" and "plain (OwningSIG p)" and "plain (Name p)"
    and "validator_PRR_ok L" and "errors_lib_ok L" and "yaml_restores L p"
    and "\<forall>pm b. find_node w (kep_file r p) = Inr (Reg pm b) \<longrightarrow> rd pm"
    and "WriteKEP L w r p = (w', None)"
  shows "\<exists>r'. loadKEPFromYaml L w' r (BasePath r) (slashed [''keps'', OwningSIG p, Name p, ''kep.yaml'']) =
    Ret (r', Inr ((yaml_view p)\<lparr>Path := OwningSIG p @ ''/'' @ Name p\<rparr>))"
proof -
  from WriteKEP_node [OF assms(1-3,8,7)] obtain b pm where "yaml_Proposal_text L p = Inr b"
    "find_node w' (kep_file r p) = Inr (Reg pm b)" "rd pm" by blast
  from loadKEP_written [OF assms(1-6) this(1) ReadFile_Reg [OF this(2,3)]] show ?thesis .
qed

lemma WriteKEP_reg_iff:
  assumes "repo_paths r" and "plain (OwningSIG p)" and "plain (Name p)"
    and "WriteKEP L w r p = (w', None)" and "ds \<noteq> abs_elems w (kep_file r p)"
  shows "lookup_at (fs_root w') ds = Inr (Reg pm b) \<longleftrightarrow> lookup_at (fs_root w) ds = Inr (Reg pm b)"
proof -
  from WriteKEP_effect [OF assms(1-4)] obtain c n1 n2 d where
    n1: "n1 = fs_root w \<or> mkdir_at (fs_root w) d = Inr n1"
    and n2: "write_at n1 (abs_elems w (kep_file r p)) c = Inr n2" and w': "w' = w\<lparr>fs_root := n2\<rparr>" by blast
  have "lookup_at (fs_root w') ds = Inr (Reg pm b) \<longleftrightarrow> lookup_at n1 ds = Inr (Reg pm b)"
    using write_at_reg_iff [OF n2 assms(5)] by (simp add: w')
  also have "\<dots> \<longleftrightarrow> lookup_at (fs_root w) ds = Inr (Reg pm b)"
    using n1 mkdir_at_new_reg mkdir_at_keeps_reg by blast
  finally show ?thesis .
qed

lemma MkdirAll_reg_iff:
  assumes "MkdirAll w d = (w', eo)"
  shows "fs_cwd w' = fs_cwd w \<and>
    (lookup_at (fs_root w') ds = Inr (Reg pm b) \<longleftrightarrow> lookup_at (fs_root w) ds = Inr (Reg pm b))"
proof (cases eo)
  case (Some e)
  with assms have "w' = w" by (auto simp: MkdirAll_def split: sum.splits if_splits)
  then show ?thesis by simp
next
  case None
  with MkdirAll_cases [of w d w'] assms consider "w' = w"
    | n where "mkdir_at (fs_root w) (abs_elems w d) = Inr n" "w' = w\<lparr>fs_root := n\<rparr>" by blast
  then show ?thesis
  proof cases
    case 2
    then show ?thesis using mkdir_at_new_reg [OF 2(1), of ds pm b] mkdir_at_keeps_reg [OF 2(1), of ds pm b] by auto
  qed simp
qed

lemma WriteFile_error: "WriteFile w p b = (w', Some e) \<Longrightarrow> w' = w"
  by (auto simp: WriteFile_def split: if_splits sum.splits)

lemma WriteKEP_others:
  assumes "repo_paths r" and "plain (OwningSIG q)" and "plain (Name q)" and "WriteKEP L w r q = (w', eo)"
    and "ds \<noteq> abs_elems w (kep_file r q)"
  shows "fs_cwd w' = fs_cwd w \<and>
    (lookup_at (fs_root w') ds = Inr (Reg pm b) \<longleftrightarrow> lookup_at (fs_root w) ds = Inr (Reg pm b))"
proof (cases eo)
  case None
  with assms(4) have w: "WriteKEP L w r q = (w', None)" by simp
  from WriteKEP_effect [OF assms(1-3) w] have "fs_cwd w' = fs_cwd w" by auto
  with WriteKEP_reg_iff [OF assms(1-3) w assms(5)] show ?thesis by simp
next
  case (Some e)
  with assms(4) have "w' = w \<or> (\<exists>d eo'. MkdirAll w d = (w', eo'))"
    by (auto simp: WriteKEP_def Marshal_def Let_def split: sum.splits if_splits prod.splits option.splits
        dest!: WriteFile_error)
  then show ?thesis using MkdirAll_reg_iff by blast
qed

text \<open>
  C27: writing a KEP changes no other file, whether it succeeds or fails: every regular file but the
  metadata file of the KEP has the same contents and permissions before and after, no file
  appears elsewhere, and the working directory stays.
\<close>

theorem WriteKEP_frame:
  assumes "repo_paths r" and "plain (OwningSIG p)" and "plain (Name p)"
    and "WriteKEP L w r p = (w', eo)" and "ds \<noteq> abs_elems w (kep_file r p)"
  shows "fs_cwd w' = fs_cwd w \<and>
    (lookup_at (fs_root w') ds = Inr (Reg pm b) \<longleftrightarrow> lookup_at (fs_root w) ds = Inr (Reg pm b))"
  using assms by (rule WriteKEP_others)


section \<open>A sample repository\<close>

definition sample_kep_sig :: fnode where
  "sample_kep_sig = DirN mode_perm
     [(''1-a'', DirN mode_perm [(''README.md'', Reg mode_perm ''text''), (''kep.yaml'', Reg mode_perm ''kep'')]),
      (''2-b'', DirN mode_perm [(''kep.yaml'', Reg mode_perm ''kep'')])]"

definition sample_repo_fs :: fsys where
  "sample_repo_fs =
     \<lparr>fs_root = DirN mode_perm [(''repo'', DirN mode_perm [(''keps'', DirN mode_perm
        [(''NNNN-kep-template'', DirN mode_perm [(''README.md'', Reg mode_perm ''template'')]),
         (''README.md'', Reg mode_perm ''readme''),
         (''prod-readiness'', DirN mode_perm []),
         (''sig-node'', sample_kep_sig)])])], fs_cwd = [''repo'']\<rparr>"

definition sample_written :: Proposal where
  "sample_written = sample_proposal\<lparr>Name := ''3-c'', StatusOf := ''provisional''\<rparr>"

definition sample_repo_lib :: repo_lib where
  "sample_repo_lib =
     val_lib.extend sample_val_lib
       \<lparr>yaml_Proposal_value = (\<lambda>strict b p.
          if b = ''kep'' then (yaml_view sample_written, None) else (p, Some (LibError ''yaml''))),
        yaml_Proposal_text = (\<lambda>p. Inr ''kep''),
        github_NewClient = (\<lambda>token. None),
        github_ListPRs = (\<lambda>token org repo perPage page.
          if page = 0 then Inr ([\<lparr>pr_Number = 7, pr_Labels = [Some ''kind/kep'', Some ''sig/node'']\<rparr>], 2)
          else Inr ([\<lparr>pr_Number = 8, pr_Labels = [Some ''sig/node'']\<rparr>], 0)),
        github_ListFiles = (\<lambda>token org repo n. Inr [Some ''keps/sig-node/1-a/kep.yaml'']),
        git_NewClient = (\<lambda>w. (w, None)),
        git_Clone = (\<lambda>org repo w. (w, Some \<lparr>Directory = ''/repo''\<rparr>, None)),
        git_CheckoutPullRequest = (\<lambda>g n w. (w, None)),
        regexp_Compile = (\<lambda>s. Inr (rlit s))\<rparr>"

definition sample_fetcher :: GroupFetcher where
  "sample_fetcher = NewMockGroupFetcher [''sig-api'', ''sig-node''] [''ann'']"

definition sample_repo :: Repo where
  "sample_repo =
     (make_Repo ''/repo'' ''/repo/keps'' ''/repo/keps/prod-readiness'' ''/repo/keps/README.md''
        [''sig-api'', ''sig-node''] [''ann''])\<lparr>ProposalTemplate := ''template''\<rparr>"

lemma sample_repo_paths: "repo_paths sample_repo"
  by code_simp

lemma sample_sig_node:
  "find_node sample_repo_fs (FJoin [ProposalPath sample_repo, ''sig-node'']) = Inr sample_kep_sig"
  "node_mode sample_kep_sig = ModeDir" "plain_names sample_kep_sig" "listable sample_kep_sig"
  by code_simp+

theorem findLocalKEPMeta_spec_witness:
  "\<exists>files. findLocalKEPMeta sample_repo_fs sample_repo ''sig-node'' = Ret (files, None) \<and>
     slashed ([''keps'', ''sig-node''] @ [''2-b''] @ [''kep.yaml'']) \<in> set files"
proof -
  have "outermost_kep sample_kep_sig [''2-b'']"
    by (auto simp: outermost_kep_def kep_at_Cons kep_at_Nil sample_kep_sig_def strict_prefix_def
        prefix_Cons)
  moreover have "plain ''sig-node''" by (simp add: plain_def)
  ultimately show ?thesis
    using findLocalKEPMeta_spec [OF sample_repo_paths _ sample_sig_node] by (metis (no_types, lifting))
qed

lemma sample_new_repo:
  "NewRepo sample_repo_lib sample_repo_fs ''/repo'' sample_fetcher = (Some sample_repo, None)"
  by code_simp

theorem NewRepo_opens_witness:
  "opened sample_repo_lib sample_repo_fs ''/repo'' sample_fetcher sample_repo"
  using NewRepo_opens [of "''/repo''" sample_repo_lib sample_repo_fs sample_fetcher sample_repo None]
    sample_new_repo by simp

lemmas sample_repo_lib_simps = sample_repo_lib_def val_lib.defs sample_val_lib_simps

lemma sample_repo_lib_fields [simp]:
  "yaml_Proposal_text sample_repo_lib p = Inr ''kep''"
  "yaml_Proposal_value sample_repo_lib strict ''kep'' q = (yaml_view sample_written, None)"
  "regexp_Compile sample_repo_lib t = Inr (rlit t)"
  "github_NewClient sample_repo_lib t = None"
  by (simp_all add: sample_repo_lib_simps)

lemma sample_repo_lib_ok:
  "validator_PRR_ok sample_repo_lib" "errors_lib_ok sample_repo_lib"
  "validator_Proposal_ok sample_repo_lib" "semver_ok sample_repo_lib"
  using sample_val_lib_ok
  by (simp_all add: validator_PRR_ok_def errors_lib_ok_def semver_ok_def validator_Proposal_ok_def
      sample_repo_lib_simps)

definition sample_broken_fs :: fsys where
  "sample_broken_fs = \<lparr>fs_root = DirN mode_perm [(''keps'', Reg mode_perm [])], fs_cwd = []\<rparr>"

theorem NewRepo_nil_without_error_witness:
  "NewRepo sample_repo_lib sample_broken_fs ''/'' sample_fetcher = (None, None)"
proof -
  have st: "Stat sample_broken_fs (FJoin [''/'', ''keps'']) = Inr \<lparr>fi_name = ''keps'', fi_mode = ModeRegular\<rparr>"
    by code_simp
  show ?thesis by (rule NewRepo_nil_without_error [OF sample_repo_lib_ok(2) _ st]) simp_all
qed

lemma sample_written_plain: "plain (OwningSIG sample_written)" "plain (Name sample_written)"
  by (simp_all add: sample_written_def sample_proposal_def plain_def)

lemma sample_restores: "yaml_restores sample_repo_lib sample_written"
  by (simp add: yaml_restores_def)

lemma sample_fresh:
  "find_node sample_repo_fs (kep_file sample_repo sample_written) = Inl ENOENT"
  "snd (WriteKEP sample_repo_lib sample_repo_fs sample_repo sample_written) = None"
  by code_simp+

definition sample_after :: fsys where
  "sample_after = fst (WriteKEP sample_repo_lib sample_repo_fs sample_repo sample_written)"

lemma sample_write:
  "WriteKEP sample_repo_lib sample_repo_fs sample_repo sample_written = (sample_after, None)"
  using sample_fresh(2) by (simp add: sample_after_def prod_eq_iff)

theorem WriteKEP_load_witness:
  "\<exists>r'. loadKEPFromYaml sample_repo_lib sample_after sample_repo (BasePath sample_repo)
     (slashed [''keps'', OwningSIG sample_written, Name sample_written, ''kep.yaml'']) =
   Ret (r', Inr ((yaml_view sample_written)\<lparr>Path := OwningSIG sample_written @ ''/'' @ Name sample_written\<rparr>))"
  using WriteKEP_load [OF sample_repo_paths sample_written_plain sample_repo_lib_ok(1,2) sample_restores
      _ sample_write] sample_fresh(1) by simp

theorem WriteKEP_frame_witness:
  "lookup_at (fs_root sample_after) [''repo'', ''keps'', ''README.md''] = Inr (Reg mode_perm ''readme'')"
proof -
  have "[''repo'', ''keps'', ''README.md''] \<noteq> abs_elems sample_repo_fs (kep_file sample_repo sample_written)"
    by code_simp
  moreover have "lookup_at (fs_root sample_repo_fs) [''repo'', ''keps'', ''README.md''] = Inr (Reg mode_perm ''readme'')"
    by code_simp
  ultimately show ?thesis
    using WriteKEP_frame [OF sample_repo_paths sample_written_plain sample_write] by blast
qed

end
