(* ===== verification/RepoQueryProps.thy ===== *)
theory RepoQueryProps
  imports RepoProps
begin

text \<open>
  Properties of pull request listings and of queries: all pages are listed and the listing
  returns, what a failed listing leaves behind, which pull requests and names are selected,
  which groups a query searches, what it returns, and what it leaves unchanged.
\<close>

section \<open>Listing pull requests\<close>

declare list_pages.simps [code]

abbreviation list_page :: "'a repo_lib_scheme \<Rightarrow> string \<Rightarrow> nat \<Rightarrow> goerr + PullRequest list \<times> nat" where
  "list_page L token page \<equiv> github_ListPRs L token remoteOrg remoteRepo 100 page"

text \<open>The pages the service chains together, up to the last one.\<close>

fun page_chain :: "(nat \<Rightarrow> goerr + PullRequest list \<times> nat) \<Rightarrow> nat \<Rightarrow> nat list \<Rightarrow> bool" where
  "page_chain get p [] \<longleftrightarrow> (\<exists>pulls. get p = Inr (pulls, 0))"
| "page_chain get p (q # qs) \<longleftrightarrow> (\<exists>pulls. get p = Inr (pulls, q)) \<and> q \<noteq> 0 \<and> page_chain get q qs"

definition pulls_of :: "(nat \<Rightarrow> goerr + PullRequest list \<times> nat) \<Rightarrow> nat \<Rightarrow> PullRequest list" where
  "pulls_of get p = fst (projr (get p))"

lemma list_pages_chain:
  "page_chain (list_page L token) p qs \<Longrightarrow>
   list_pages L token p acc =
     Some (acc @ concat (map (pulls_of (list_page L token)) (p # qs)), None)"
proof (induction qs arbitrary: p acc)
  case Nil
  then show ?case by (subst list_pages.simps) (auto simp: pulls_of_def)
next
  case (Cons q qs)
  then obtain pulls where "list_page L token p = Inr (pulls, q)" "q \<noteq> 0" by auto
  moreover from this have "pulls_of (list_page L token) p = pulls" by (simp add: pulls_of_def)
  ultimately show ?case using Cons by (subst list_pages.simps) simp
qed

lemma list_pages_returns:
  assumes "\<forall>p pulls q. list_page L token p = Inr (pulls, q) \<and> q \<noteq> 0 \<longrightarrow> p < q \<and> q \<le> N"
  shows "\<exists>res. list_pages L token p acc = Some res"
proof (induction "N - p" arbitrary: p acc rule: less_induct)
  case less
  show ?case
  proof (cases "list_page L token p")
    case (Inl e)
    then show ?thesis by (subst list_pages.simps) simp
  next
    case (Inr res)
    then obtain pulls q where res: "list_page L token p = Inr (pulls, q)" by (cases res) auto
    show ?thesis
    proof (cases "q = 0")
      case True
      with res show ?thesis by (subst list_pages.simps) simp
    next
      case False
      with assms res have "N - q < N - p" by fastforce
      from less [OF this] False res show ?thesis by (subst list_pages.simps) simp
    qed
  qed
qed

text \<open>
  C28: listing the pull requests returns when the service numbers its pages in ascending order up
  to some last page, whether or not a request fails on the way; and when no request fails, the
  cache is exactly the pull requests of all pages, in order.
\<close>

theorem fill_cache_lists_all:
  assumes "allPRs r = None"
    and "\<forall>p pulls q. list_page L (Token r) p = Inr (pulls, q) \<and> q \<noteq> 0 \<longrightarrow> p < q \<and> q \<le> N"
  shows "(\<exists>res. fill_cache L r = Some res) \<and>
    (page_chain (list_page L (Token r)) 0 qs \<longrightarrow>
       fill_cache L r =
         Some (r\<lparr>allPRs := Some (concat (map (pulls_of (list_page L (Token r))) (0 # qs)))\<rparr>, None))"
  using list_pages_returns [OF assms(2), of 0 "[]"] list_pages_chain [of L "Token r" 0 qs "[]"] assms(1)
  by (auto simp: fill_cache_def)

text \<open>
  A listing that fails leaves the pages read so far in the cache: the next call finds a cache,
  asks the service for nothing and reports no error, although the listing is incomplete.
\<close>

theorem failed_listing_is_kept:
  assumes "fill_cache L r = Some (r', Some e)"
  shows "fill_cache L' r' = Some (r', None) \<and> allPRs r = None \<and> (\<exists>prs. allPRs r' = Some prs)"
  using assms by (auto simp: fill_cache_def split: option.splits prod.splits)

definition sample_failing_lib :: repo_lib where
  "sample_failing_lib = sample_repo_lib\<lparr>github_ListPRs := (\<lambda>token org repo perPage page. Inl (LibError ''403''))\<rparr>"

lemma sample_failed_listing:
  "fill_cache sample_failing_lib sample_repo = Some (sample_repo\<lparr>allPRs := Some []\<rparr>, Some (LibError ''403''))"
  by (simp add: fill_cache_def sample_repo_def make_Repo_def list_pages.simps sample_failing_lib_def)

theorem failed_listing_is_kept_witness:
  "fill_cache sample_failing_lib (sample_repo\<lparr>allPRs := Some []\<rparr>) = Some (sample_repo\<lparr>allPRs := Some []\<rparr>, None)"
  using failed_listing_is_kept [OF sample_failed_listing, of sample_failing_lib] by blast

lemma sample_listing:
  "list_page sample_repo_lib token 0 =
     Inr ([\<lparr>pr_Number = 7, pr_Labels = [Some ''kind/kep'', Some ''sig/node'']\<rparr>], 2)"
  "list_page sample_repo_lib token (Suc p) = Inr ([\<lparr>pr_Number = 8, pr_Labels = [Some ''sig/node'']\<rparr>], 0)"
  by (simp_all add: sample_repo_lib_simps)

theorem fill_cache_lists_all_witness:
  "\<exists>r'. fill_cache sample_repo_lib sample_repo = Some (r', None) \<and>
     map pr_Number (elems (allPRs r')) = [7, 8]"
proof -
  have bound: "\<forall>p pulls q. list_page sample_repo_lib (Token sample_repo) p = Inr (pulls, q) \<and> q \<noteq> 0 \<longrightarrow> p < q \<and> q \<le> 2"
  proof (intro allI)
    fix p pulls q
    show "list_page sample_repo_lib (Token sample_repo) p = Inr (pulls, q) \<and> q \<noteq> 0 \<longrightarrow> p < q \<and> q \<le> 2"
      by (cases p) (auto simp: sample_listing)
  qed
  have chain: "page_chain (list_page sample_repo_lib (Token sample_repo)) 0 [2]"
    by (simp add: sample_listing numeral_2_eq_2)
  have none: "allPRs sample_repo = None" by (simp add: sample_repo_def make_Repo_def)
  from fill_cache_lists_all [OF none bound, of "[2]"] chain
  have "fill_cache sample_repo_lib sample_repo = Some (sample_repo\<lparr>allPRs :=
      Some (concat (map (pulls_of (list_page sample_repo_lib (Token sample_repo))) [0, 2]))\<rparr>, None)"
    by blast
  then show ?thesis by (simp add: pulls_of_def sample_listing numeral_2_eq_2)
qed


section \<open>Selecting pull requests\<close>

lemma scan_labels_eq:
  "None \<notin> set ls \<Longrightarrow> scan_labels l ls k s = Ret (k \<or> Some proposalLabel \<in> set ls, s \<or> Some l \<in> set ls)"
  by (induction l ls k s rule: scan_labels.induct) auto

definition is_kep_pr :: "string \<Rightarrow> PullRequest \<Rightarrow> bool" where
  "is_kep_pr sig pr \<longleftrightarrow> {Some ''kind/kep'', Some (sig_label sig)} \<subseteq> set (pr_Labels pr)"

lemma select_prs_eq:
  "\<forall>pr\<in>set prs. None \<notin> set (pr_Labels pr) \<Longrightarrow>
   select_prs (sig_label sig) prs = Ret (filter (is_kep_pr sig) prs)"
  by (induction prs) (auto simp: scan_labels_eq is_kep_pr_def proposalLabel_def)

lemma load_names_numbers:
  "load_names L w r g sig n ks keps = Ret (r', keps') \<Longrightarrow>
   \<exists>ps. keps' = keps @ map Some ps \<and> (\<forall>p\<in>set ps. PRNumber p = Itoa n)"
proof (induction L w r g sig n ks keps rule: load_names.induct)
  case (2 L w r g sig n k ks keps)
  then obtain r1 res where l: "loadKEPFromYaml L w r (Directory g)
      (FJoin [ProposalPathStub, sig, k, ProposalMetadataFilename]) = Ret (r1, res)"
    by (auto split: outcome.splits)
  show ?case
  proof (cases res)
    case (Inl e)
    with 2 l show ?thesis by simp
  next
    case (Inr kep)
    with "2.IH"(2) [OF l refl Inr] "2.prems" l obtain ps where
      "keps' = (keps @ [Some (kep\<lparr>PRNumber := Itoa n\<rparr>)]) @ map Some ps" "\<forall>p\<in>set ps. PRNumber p = Itoa n"
      by auto
    then show ?thesis by (intro exI [of _ "kep\<lparr>PRNumber := Itoa n\<rparr> # ps"]) simp
  qed
qed simp

lemma load_prs_numbers:
  "load_prs L order w r g sig prs keps = Ret (w', r', keps', None) \<Longrightarrow>
   \<exists>ps. keps' = keps @ map Some ps \<and> (\<forall>p\<in>set ps. \<exists>pr\<in>set prs. PRNumber p = Itoa (pr_Number pr))"
proof (induction L order w r g sig prs keps rule: load_prs.induct)
  case (2 L order w r g sig pr prs keps)
  let ?n = "pr_Number pr"
  from "2.prems" obtain files names where f: "github_ListFiles L (Token r) remoteOrg remoteRepo ?n = Inr files"
    and n: "kep_names sig files [] = Ret names" by (auto split: sum.splits outcome.splits)
  show ?case
  proof (cases "names = []")
    case True
    with 2(1) [OF f n True] "2.prems" f n show ?thesis by auto
  next
    case False
    with "2.prems" f n obtain w1 r1 keps1 where c: "git_CheckoutPullRequest L g ?n w = (w1, None)"
      and l: "load_names L w1 r g sig ?n (order names) keps = Ret (r1, keps1)"
      by (auto split: prod.splits option.splits outcome.splits)
    then have rest: "load_prs L order w1 r1 g sig prs keps1 = Ret (w', r', keps', None)"
      using "2.prems" f n False by simp
    from load_names_numbers [OF l] obtain ps where ps: "keps1 = keps @ map Some ps"
      "\<forall>p\<in>set ps. PRNumber p = Itoa ?n" by blast
    from 2(2) [OF f n False c [symmetric] refl l refl rest] obtain qs where
      "keps' = keps1 @ map Some qs" "\<forall>p\<in>set qs. \<exists>pr\<in>set prs. PRNumber p = Itoa (pr_Number pr)" by blast
    with ps show ?thesis by (intro exI [of _ "ps @ qs"]) auto
  qed
qed simp

lemma ensure_clone_cache: "ensure_clone L w r = (w', r', eo) \<Longrightarrow> allPRs r' = allPRs r"
  by (auto simp: ensure_clone_def split: option.splits prod.splits)

text \<open>
  C29: the KEPs loaded from pull requests carry the number of a pull request of the cache that has
  both the KEP label and the label of the SIG; without such a pull request nothing is loaded and
  neither the clone nor the file system is touched.
\<close>

theorem load_selected_spec:
  assumes "\<forall>pr\<in>set (elems (allPRs r)). None \<notin> set (pr_Labels pr)"
  shows "(load_selected L order w r sig = Ret (w', r', keps, None) \<longrightarrow>
      (\<exists>ps. keps = map Some ps \<and>
        (\<forall>p\<in>set ps. \<exists>pr\<in>set (elems (allPRs r)). is_kep_pr sig pr \<and> PRNumber p = Itoa (pr_Number pr)))) \<and>
    (filter (is_kep_pr sig) (elems (allPRs r)) = [] \<longrightarrow> load_selected L order w r sig = Ret (w, r, [], None))"
proof (intro conjI impI)
  note sel = select_prs_eq [OF assms, of sig]
  show "filter (is_kep_pr sig) (elems (allPRs r)) = [] \<Longrightarrow> load_selected L order w r sig = Ret (w, r, [], None)"
    by (simp add: load_selected_def sel)
  assume ok: "load_selected L order w r sig = Ret (w', r', keps, None)"
  show "\<exists>ps. keps = map Some ps \<and>
        (\<forall>p\<in>set ps. \<exists>pr\<in>set (elems (allPRs r)). is_kep_pr sig pr \<and> PRNumber p = Itoa (pr_Number pr))"
  proof (cases "filter (is_kep_pr sig) (elems (allPRs r)) = []")
    case True
    with ok show ?thesis by (simp add: load_selected_def sel)
  next
    case False
    with ok obtain w1 r1 g where
      "load_prs L order w1 r1 g sig (filter (is_kep_pr sig) (elems (allPRs r))) [] = Ret (w', r', keps, None)"
      by (auto simp: load_selected_def sel split: prod.splits option.splits)
    from load_prs_numbers [OF this] show ?thesis by fastforce
  qed
qed

section \<open>What loading leaves unchanged\<close>

text \<open>
  The relation between the repository before and after an operation that only loads: its
  paths, template, token path and KEP handler are the same, the PRR handler has the same
  approvers and groups, and its errors only grow.
\<close>

definition kept :: "Repo \<Rightarrow> Repo \<Rightarrow> bool" where
  "kept r r' \<longleftrightarrow>
     BasePath r' = BasePath r \<and> ProposalPath r' = ProposalPath r \<and> PRRApprovalPath r' = PRRApprovalPath r \<and>
     ProposalReadme r' = ProposalReadme r \<and> TokenPath r' = TokenPath r \<and>
     ProposalTemplate r' = ProposalTemplate r \<and> KEPHandler r' = KEPHandler r \<and>
     PRRApprovers (PRRHandler r') = PRRApprovers (PRRHandler r) \<and>
     Groups (PRRHandler r') = Groups (PRRHandler r) \<and>
     prefix (Errors (PRRHandler r)) (Errors (PRRHandler r')) \<and>
     (allPRs r \<noteq> None \<longrightarrow> allPRs r' = allPRs r) \<and> (gitClone r \<noteq> None \<longrightarrow> gitClone r' = gitClone r)"

lemma kept_refl [simp]: "kept r r"
  by (simp add: kept_def)

lemma kept_trans: "kept r r' \<Longrightarrow> kept r' r'' \<Longrightarrow> kept r r''"
  by (auto simp: kept_def)

lemma kept_updates [simp]:
  "kept r (r\<lparr>Token := t\<rparr>)" "allPRs r = None \<Longrightarrow> kept r (r\<lparr>allPRs := a\<rparr>)"
  "gitClone r = None \<Longrightarrow> kept r (r\<lparr>gitClone := g\<rparr>)"
  by (simp_all add: kept_def)

lemma kept_PRRHandler:
  "PRRApprovers h = PRRApprovers (PRRHandler r) \<Longrightarrow> Groups h = Groups (PRRHandler r) \<Longrightarrow>
   prefix (Errors (PRRHandler r)) (Errors h) \<Longrightarrow> kept r (r\<lparr>PRRHandler := h\<rparr>)"
  by (simp add: kept_def)

lemma PRRHandler_Parse_keeps:
  "PRRHandler_Parse L h r = (h', po, eo) \<Longrightarrow>
   PRRApprovers h' = PRRApprovers h \<and> Groups h' = Groups h \<and> prefix (Errors h) (Errors h')"
  by (auto simp: PRRHandler_Parse_def Let_def split: option.splits prod.splits)

lemma ValidatePRR_keeps:
  assumes "ValidatePRR L w kep h dir = Ret (h', eo)"
  shows "PRRApprovers h' = PRRApprovers h \<and> Groups h' = Groups h \<and> prefix (Errors h) (Errors h')"
proof (cases "\<exists>f. Open w (prr_filepath kep dir) = Inr f \<and> isPRRRequired L kep = (True, None)")
  case True
  then obtain f where f: "Open w (prr_filepath kep dir) = Inr f" "isPRRRequired L kep = (True, None)" by blast
  obtain h1 po eo1 where p: "PRRHandler_Parse L h f = (h1, po, eo1)" by (cases "PRRHandler_Parse L h f")
  with assms f have "h' = h1"
    by (auto simp: ValidatePRR_def Let_def split: option.splits)
  with PRRHandler_Parse_keeps [OF p] show ?thesis by simp
next
  case False
  with assms have "h' = h"
    by (auto simp: ValidatePRR_def Let_def split: option.splits prod.splits if_splits sum.splits)
  then show ?thesis by simp
qed

lemma loadKEPFromYaml_keeps: "loadKEPFromYaml L w r b k = Ret (r', res) \<Longrightarrow> kept r r'"
  by (auto simp: loadKEPFromYaml_def Let_def split: sum.splits prod.splits option.splits outcome.splits
      dest!: ValidatePRR_keeps intro: kept_PRRHandler)

lemma load_files_keeps: "load_files L w r fs keps = Ret (r', ks, eo) \<Longrightarrow> kept r r'"
proof (induction L w r fs keps rule: load_files.induct)
  case (2 L w r f fs keps)
  then obtain r1 res where l: "loadKEPFromYaml L w r (BasePath r) f = Ret (r1, res)"
    by (auto split: outcome.splits)
  with 2 loadKEPFromYaml_keeps [OF l] show ?case by (cases res) (auto intro: kept_trans)
qed simp

lemma LoadLocalKEPs_keeps: "LoadLocalKEPs L w r sig = Ret (r', ks, eo) \<Longrightarrow> kept r r'"
  by (auto simp: LoadLocalKEPs_def split: outcome.splits prod.splits option.splits dest: load_files_keeps)

lemma load_names_keeps: "load_names L w r g sig n ks keps = Ret (r', keps') \<Longrightarrow> kept r r'"
proof (induction L w r g sig n ks keps rule: load_names.induct)
  case (2 L w r g sig n k ks keps)
  then obtain r1 res where l: "loadKEPFromYaml L w r (Directory g)
      (FJoin [ProposalPathStub, sig, k, ProposalMetadataFilename]) = Ret (r1, res)"
    by (auto split: outcome.splits)
  with 2 loadKEPFromYaml_keeps [OF l] show ?case by (cases res) (auto intro: kept_trans)
qed simp

lemma load_prs_keeps: "load_prs L order w r g sig prs keps = Ret (w', r', keps', eo) \<Longrightarrow> kept r r'"
proof (induction L order w r g sig prs keps rule: load_prs.induct)
  case (2 L order w r g sig pr prs keps)
  show ?case
  proof (cases "github_ListFiles L (Token r) remoteOrg remoteRepo (pr_Number pr)")
    case (Inr files)
    with "2.prems" obtain names where n: "kep_names sig files [] = Ret names" by (auto split: outcome.splits)
    show ?thesis
    proof (cases "names = []")
      case True
      with 2 Inr n show ?thesis by simp
    next
      case False
      obtain w1 eo1 where c: "git_CheckoutPullRequest L g (pr_Number pr) w = (w1, eo1)" by force
      show ?thesis
      proof (cases eo1)
        case None
        with "2.prems" Inr n False c obtain r1 keps1 where
          l: "load_names L w1 r g sig (pr_Number pr) (order names) keps = Ret (r1, keps1)"
          by (auto split: outcome.splits)
        then have "load_prs L order w1 r1 g sig prs keps1 = Ret (w', r', keps', eo)"
          using "2.prems" Inr n False c None by simp
        from 2(2) [OF Inr n False c [symmetric] None l refl this] load_names_keeps [OF l]
        show ?thesis by (rule kept_trans [rotated])
      qed (use "2.prems" Inr n False c in auto)
    qed
  qed (use "2.prems" in auto)
qed simp

lemma LoadPullRequestKEPs_keeps:
  assumes "LoadPullRequestKEPs L order w r sig = Some (Ret (w', r', keps, eo))"
  shows "kept r r'"
proof -
  have fill: "kept r r1" if "fill_cache L r = Some (r1, e)" for r1 e
    using that by (auto simp: fill_cache_def split: option.splits prod.splits)
  have clone: "kept r1 r2" if "ensure_clone L w1 r1 = (w2, r2, e)" for w1 r1 w2 r2 e
    using that by (auto simp: ensure_clone_def split: option.splits prod.splits)
  have sel: "kept r1 r2" if "load_selected L order w1 r1 sig = Ret (w2, r2, ks, e)" for w1 r1 w2 r2 ks e
    using that by (auto simp: load_selected_def split: outcome.splits if_splits prod.splits option.splits
        dest!: clone load_prs_keeps intro: kept_trans)
  show ?thesis
    using assms by (auto simp: LoadPullRequestKEPs_def bind_eq_Some_conv split: option.splits prod.splits
        dest!: fill sel intro: kept_trans)
qed

text \<open>One group: the local search fails, or the remaining groups are loaded with more KEPs.\<close>

lemma load_groups_Cons:
  assumes "load_groups L order w r prs (sig # sigs) keps = Some (Ret res)"
  shows "(\<exists>r1 lk e. LoadLocalKEPs L w r sig = Ret (r1, lk, Some e) \<and>
      res = (w, r1, None, errors_Wrap L (Some e) ''loading local KEPs'')) \<or>
    (\<exists>w2 r2 keps2. kept r r2 \<and> load_groups L order w2 r2 prs sigs keps2 = Some (Ret res))"
proof -
  from assms obtain r1 lk eo1 where l: "LoadLocalKEPs L w r sig = Ret (r1, lk, eo1)"
    by (auto split: outcome.splits)
  note k1 = LoadLocalKEPs_keeps [OF l]
  show ?thesis
  proof (cases "eo1 = None \<and> prs")
    case True
    with assms l obtain x where x: "LoadPullRequestKEPs L order w r1 sig = Some x"
      by (cases "LoadPullRequestKEPs L order w r1 sig") (auto simp: Let_def)
    with assms l True obtain w2 r2 pk eo2 where p: "LoadPullRequestKEPs L order w r1 sig = Some (Ret (w2, r2, pk, eo2))"
      by (cases x) (auto simp: Let_def)
    with assms l True have "load_groups L order w2 r2 prs sigs ((keps @ elems lk) @ pk) = Some (Ret res)"
      by (simp add: Let_def)
    with kept_trans [OF k1 LoadPullRequestKEPs_keeps [OF p]] show ?thesis by blast
  next
    case False
    with assms l k1 show ?thesis by (cases eo1) (auto simp: Let_def)
  qed
qed

lemma load_groups_keeps:
  "load_groups L order w r prs sigs keps = Some (Ret (w', r', ks, eo)) \<Longrightarrow> kept r r'"
proof (induction sigs arbitrary: w r keps)
  case (Cons sig sigs)
  from load_groups_Cons [OF Cons.prems] Cons.IH show ?case
    by (auto dest!: LoadLocalKEPs_keeps intro: kept_trans)
qed simp

text \<open>Without a list there is an error.\<close>

lemma load_groups_nil:
  assumes "errors_lib_ok L"
  shows "load_groups L order w r prs sigs keps = Some (Ret (w', r', None, eo)) \<Longrightarrow> eo \<noteq> None"
proof (induction sigs arbitrary: w r keps)
  case (Cons sig sigs)
  from load_groups_Cons [OF Cons.prems] Cons.IH show ?case
    using errors_Wrap_None_iffs [OF assms] by auto
qed simp

lemma Query_kept:
  assumes "Query L order w r opts = Some (Ret (w', r', opts', ks, eo))"
  shows "kept r r'"
proof -
  have collect: "kept r1 r2" if "Query_collect L order w r1 o1 = Some (Ret (w2, r2, o2, k2, e2))"
    for r1 o1 w2 r2 o2 k2 e2
    using that unfolding Query_collect_def bind_eq_Some_conv
    by (elim exE conjE) (auto split: outcome.split_asm option.split_asm sum.split_asm dest!: load_groups_keeps)
  have token: "kept r r1" if "SetGitHubToken w1 r t = (r1, e)" for w1 t r1 e
    using that by (auto simp: SetGitHubToken_def split: if_splits sum.splits)
  show ?thesis
    using assms by (auto simp: Query_def split: prod.splits option.splits if_splits
        dest!: collect token intro: kept_trans)
qed

text \<open>
  A query changes nothing of the repository but its caches, the token and the collected
  errors: its paths, template and KEP handler are the same afterwards, the approvers of the PRR
  handler too, the errors recorded before are still there, in front, and a cache or a clone
  that was there is not replaced.
\<close>

theorem Query_keeps:
  assumes "Query L order w r opts = Some (Ret (w', r', opts', ks, eo))"
  shows "kept r r'"
  using assms by (rule Query_kept)


section \<open>Queries return\<close>

text \<open>
  The service numbers its pages in ascending order up to some last page; a query that is not
  to search pull requests does not depend on it.
\<close>

definition pages_ascend :: "'a repo_lib_scheme \<Rightarrow> bool" where
  "pages_ascend L \<longleftrightarrow>
     (\<forall>token. \<exists>N. \<forall>p pulls q. list_page L token p = Inr (pulls, q) \<and> q \<noteq> 0 \<longrightarrow> p < q \<and> q \<le> N)"

lemma LoadPullRequestKEPs_returns:
  assumes "pages_ascend L"
  shows "\<exists>res. LoadPullRequestKEPs L order w r sig = Some res"
proof -
  obtain N where "\<forall>p pulls q. list_page L (Token r) p = Inr (pulls, q) \<and> q \<noteq> 0 \<longrightarrow> p < q \<and> q \<le> N"
    using assms unfolding pages_ascend_def by blast
  from list_pages_returns [OF this, of 0 "[]"] obtain r1 e1 where "fill_cache L r = Some (r1, e1)"
    by (cases "allPRs r") (auto simp: fill_cache_def)
  then show ?thesis by (cases e1) (auto simp: LoadPullRequestKEPs_def split: option.split)
qed

lemma load_groups_returns:
  assumes "prs \<longrightarrow> pages_ascend L"
  shows "\<exists>res. load_groups L order w r prs sigs keps = Some res"
proof (induction sigs arbitrary: w r keps)
  case (Cons sig sigs)
  show ?case
  proof (cases "LoadLocalKEPs L w r sig")
    case (Ret res)
    then obtain r1 lk e1 where l: "LoadLocalKEPs L w r sig = Ret (r1, lk, e1)" by (cases res) auto
    show ?thesis
    proof (cases "e1 = None \<and> prs")
      case True
      with assms obtain x where x: "LoadPullRequestKEPs L order w r1 sig = Some x"
        using LoadPullRequestKEPs_returns by blast
      with l True Cons.IH show ?thesis by (cases x) (auto simp: Let_def)
    next
      case False
      with l Cons.IH show ?thesis by (cases e1) (auto simp: Let_def)
    qed
  qed simp
qed simp

lemma Query_returns:
  assumes "q_IncludePRs opts \<longrightarrow> pages_ascend L"
  shows "\<exists>res. Query L order w r opts = Some res"
proof -
  obtain o1 e1 where p: "PrepareQueryOpts L r opts = (o1, e1)" by force
  then have "q_IncludePRs o1 = q_IncludePRs opts"
    by (auto simp: PrepareQueryOpts_def Let_def split: option.splits prod.splits if_splits)
  then have c: "\<exists>res. Query_collect L order w r1 o1 = Some res" for r1
    using load_groups_returns [of "q_IncludePRs o1" L order w r1 "q_Groups o1" "[]"] assms
    by (auto simp: Query_collect_def split: outcome.split option.split sum.split)
  obtain r1 e2 where t: "SetGitHubToken w r (TokenPath r) = (r1, e2)" by force
  from c [of r] c [of r1] show ?thesis by (cases e1; cases e2) (auto simp: Query_def p t)
qed


section \<open>Query options and results\<close>

lemma sliceContains_iff [simp]: "sliceContains ks e \<longleftrightarrow> e \<in> set ks"
  by (induction ks) auto

interpretation slice_search: string_search sliceContains "\<lambda>v. v"
  by unfold_locales simp

lemma sliceToMap_iff [simp]: "sliceToMap s v \<longleftrightarrow> v \<in> set s"
proof -
  have "foldl (\<lambda>m v. m(v := True)) m s v \<longleftrightarrow> m v \<or> v \<in> set s" for m :: "string \<Rightarrow> bool"
    by (induction s arbitrary: m) auto
  then show ?thesis by (simp add: sliceToMap_def)
qed

lemma atLeastOne_iff [simp]: "atLeastOne vs allowed \<longleftrightarrow> (\<exists>v\<in>set vs. allowed v)"
  by (induction vs) auto

text \<open>The criteria: an empty one always holds, and one on lists asks for a common element.\<close>

definition meets :: "string list \<Rightarrow> string set \<Rightarrow> bool" where
  "meets crit vals \<longleftrightarrow> crit = [] \<or> set crit \<inter> vals \<noteq> {}"

definition query_spec :: "QueryOpts \<Rightarrow> Proposal \<Rightarrow> bool" where
  "query_spec opts k \<longleftrightarrow>
     meets (q_Status opts) {StatusOf k} \<and> meets (q_Stage opts) {StageOf k} \<and>
     meets (q_PRRApprover opts) {} \<and> meets (q_Author opts) (set (elems (Authors k))) \<and>
     meets (q_Approver opts) (set (elems (Approvers k))) \<and>
     meets (q_Participant opts) (set (elems (ParticipatingSIGs k)))"

lemma query_match_spec: "query_match opts k \<longleftrightarrow> query_spec opts k"
  by (auto simp: query_match_def query_spec_def meets_def)

lemma filter_keps_Inr:
  "filter_keps L opts ks acc = Inr res \<Longrightarrow>
   \<exists>ps. ks = map Some ps \<and> res = acc @ map Some (filter (query_spec opts) ps)"
proof (induction L opts ks acc rule: filter_keps.induct)
  case (3 L opts k ks acc)
  then obtain ps where "ks = map Some ps"
    "res = (if query_match opts k then acc @ [Some k] else acc) @ map Some (filter (query_spec opts) ps)"
    by auto
  then show ?case by (intro exI [of _ "k # ps"]) (auto simp: query_match_spec)
qed simp_all

lemma Query_loaded:
  assumes "Query L order w r opts = Some (Ret (w', r', opts', Some res, None))"
  shows "PrepareQueryOpts L r opts = (opts', None) \<and>
    (\<exists>r1 all eo. load_groups L order w r1 (q_IncludePRs opts') (q_Groups opts') [] =
        Some (Ret (w', r', Some (map Some all), eo)) \<and> kept r r1 \<and>
      res = map Some (filter (query_spec opts') all))"
proof -
  obtain r1 where p: "PrepareQueryOpts L r opts = (opts', None)" and r1: "kept r r1"
    and c: "Query_collect L order w r1 opts' = Some (Ret (w', r', opts', Some res, None))"
  proof -
    obtain o1 e1 where p: "PrepareQueryOpts L r opts = (o1, e1)" by force
    with assms have "e1 = None" by (cases e1) (auto simp: Query_def)
    moreover obtain r2 where "kept r r2"
      "Query_collect L order w r2 o1 = Some (Ret (w', r', opts', Some res, None))"
      using assms p \<open>e1 = None\<close>
      by (auto simp: Query_def SetGitHubToken_def split: if_splits sum.splits)
        (use kept_updates(1) kept_refl in blast)+
    moreover from this(2) have "o1 = opts'"
      unfolding Query_collect_def bind_eq_Some_conv
      by (elim exE conjE) (auto split: outcome.split_asm option.split_asm sum.split_asm)
    ultimately show thesis using p that by blast
  qed
  from c obtain all0 eo where g: "load_groups L order w r1 (q_IncludePRs opts') (q_Groups opts') [] =
      Some (Ret (w', r', Some all0, eo))" and f: "filter_keps L opts' all0 [] = Inr res"
    unfolding Query_collect_def bind_eq_Some_conv
    by (elim exE conjE) (auto split: outcome.split_asm option.split_asm sum.split_asm)
  from filter_keps_Inr [OF f] obtain ps where "all0 = map Some ps"
    "res = map Some (filter (query_spec opts') ps)" by auto
  with g p r1 show ?thesis by blast
qed

text \<open>
  A query that returns without an error has prepared its options and loaded, for the groups
  selected, a list of KEPs, and its result is exactly those that meet all criteria, in the order
  they were loaded.
\<close>

theorem Query_results:
  assumes "Query L order w r opts = Some (Ret (w', r', opts', Some res, None))"
  shows "PrepareQueryOpts L r opts = (opts', None) \<and>
    (\<exists>r1 all eo. load_groups L order w r1 (q_IncludePRs opts') (q_Groups opts') [] =
        Some (Ret (w', r', Some (map Some all), eo)) \<and> kept r r1 \<and>
      res = map Some (filter (query_spec opts') all))"
  using assms by (rule Query_loaded)

lemma Query_nil:
  assumes "errors_lib_ok L" and "Query L order w r opts = Some (Ret (w', r', opts', None, eo))"
  shows "eo \<noteq> None"
proof -
  have collect: "e2 \<noteq> None" if "Query_collect L order w1 r1 o1 = Some (Ret (w2, r2, o2, None, e2))"
    for w1 r1 o1 w2 r2 o2 e2
    using that unfolding Query_collect_def bind_eq_Some_conv
    by (elim exE conjE) (auto split: outcome.split_asm option.split_asm sum.split_asm dest: load_groups_nil [OF assms(1)])
  show ?thesis
    using assms(2) errors_Wrap_None_iffs [OF assms(1)]
    by (auto simp: Query_def split: prod.splits option.splits if_splits dest!: collect)
qed

definition group_matched :: "'a repo_lib_scheme \<Rightarrow> string list \<Rightarrow> string \<Rightarrow> bool" where
  "group_matched L xs g \<longleftrightarrow> (\<exists>x\<in>set xs. \<exists>re. regexp_Compile L x = Inr re \<and> MatchString re g)"

lemma match_any_eq:
  "\<forall>x\<in>set xs. \<exists>re. regexp_Compile L x = Inr re \<Longrightarrow> match_any L xs g = Inr (group_matched L xs g)"
  by (induction xs) (auto simp: group_matched_def)

lemma selectByRegexp_eq:
  "\<forall>x\<in>set xs. \<exists>re. regexp_Compile L x = Inr re \<Longrightarrow>
   selectByRegexp L gs xs = (filter (group_matched L xs) gs, None)"
  by (induction gs) (simp_all add: match_any_eq)

text \<open>
  C32: preparing a query succeeds exactly when the output format is valid and, if groups are asked
  for, one of them matches a known group; the query then searches the known groups, in their
  order, that match one of the expressions, or all of them, and the stage none stands for no
  stage.
\<close>

theorem PrepareQueryOpts_spec:
  assumes "\<forall>x\<in>set (q_Groups opts). \<exists>re. regexp_Compile L x = Inr re"
  shows "PrepareQueryOpts L r opts = (opts', None) \<longleftrightarrow>
    q_Output opts \<in> {''csv'', ''json'', ''table'', ''yaml''} \<and>
    (\<exists>gs. gs = (if q_Groups opts = [] then Groups (KEPHandler r)
               else filter (group_matched L (q_Groups opts)) (Groups (KEPHandler r))) \<and>
      (q_Groups opts \<noteq> [] \<longrightarrow> gs \<noteq> []) \<and>
      opts' = opts\<lparr>q_Groups := gs,
        q_Stage := map (\<lambda>v. if v = ''none'' then [] else v) (q_Stage opts)\<rparr>)"
  by (auto simp: PrepareQueryOpts_def QueryOpts_Validate_def ValidFormats_def Let_def
      selectByRegexp_eq [OF assms] none_to_empty_def)

lemma PrepareQueryOpts_PRRApprover:
  "PrepareQueryOpts L r opts = (opts', eo) \<Longrightarrow> q_PRRApprover opts' = q_PRRApprover opts"
  by (auto simp: PrepareQueryOpts_def Let_def split: option.splits prod.splits if_splits)

text \<open>The result of a query, through its preparation and its filter.\<close>

lemma Query_result_filtered:
  assumes "Query L order w r opts = Some (Ret (w', r', opts', Some res, None))"
  shows "(\<exists>e. PrepareQueryOpts L r opts = (opts', e)) \<and> (\<exists>all. filter_keps L opts' all [] = Inr res)"
proof -
  have collect: "o1 = o2 \<and> (\<exists>all. filter_keps L o2 all [] = Inr res)"
    if "Query_collect L order w1 r1 o1 = Some (Ret (w2, r2, o2, Some res, e2))" for w1 r1 o1 w2 r2 o2 e2
    using that unfolding Query_collect_def bind_eq_Some_conv
    by (elim exE conjE) (auto split: outcome.split_asm option.split_asm sum.split_asm)
  show ?thesis
    using assms by (auto simp: Query_def split: prod.splits option.splits if_splits dest!: collect)
qed

text \<open>
  A query that asks for a PRR approver returns no KEP at all, whatever is in the repository: the
  criterion is compared with an empty list of approvers.
\<close>

theorem Query_by_PRRApprover_is_empty:
  assumes "Query L order w r opts = Some (Ret (w', r', opts', Some res, None))"
    and "q_PRRApprover opts \<noteq> []"
  shows "res = []"
proof -
  from Query_result_filtered [OF assms(1)] obtain e all where "PrepareQueryOpts L r opts = (opts', e)"
    and f: "filter_keps L opts' all [] = Inr res" by auto
  then have "q_PRRApprover opts' \<noteq> []" using PrepareQueryOpts_PRRApprover assms(2) by metis
  then have "\<not> query_spec opts' k" for k by (simp add: query_spec_def meets_def)
  with filter_keps_Inr [OF f] show ?thesis by auto
qed


section \<open>Sample queries\<close>

definition sample_opts :: QueryOpts where
  "sample_opts =
     \<lparr>q_Groups = [''node''], q_Status = [''provisional''], q_Stage = [], q_PRRApprover = [], q_Author = [''@ann''],
      q_Approver = [], q_Participant = [], q_IncludePRs = False, q_Output = ''json''\<rparr>"

lemma sample_provisional:
  "ValidatePRR L w (with_location k (yaml_view sample_written)) h dir = Ret (h, None)"
  by (simp add: ValidatePRR_def isPRRRequired_def with_location_def yaml_view_def sample_written_def
      status_names)

lemma sample_load:
  "ReadFile w (FJoin [b, k]) = Inr ''kep'' \<Longrightarrow>
   loadKEPFromYaml sample_repo_lib w r b k = Ret (r, Inr (with_location k (yaml_view sample_written)))"
  by (simp add: loadKEPFromYaml_def Let_def UnmarshalStrict_def sample_provisional)

definition sample_loaded :: "Proposal list" where
  "sample_loaded =
     map (\<lambda>k. with_location k (yaml_view sample_written))
       [''keps/sig-node/1-a/kep.yaml'', ''keps/sig-node/2-b/kep.yaml'']"

lemma sample_found:
  "findLocalKEPMeta sample_repo_fs sample_repo ''sig-node'' =
     Ret ([''keps/sig-node/1-a/kep.yaml'', ''keps/sig-node/2-b/kep.yaml''], None)"
  "ReadFile sample_repo_fs (FJoin [BasePath sample_repo, ''keps/sig-node/1-a/kep.yaml'']) = Inr ''kep''"
  "ReadFile sample_repo_fs (FJoin [BasePath sample_repo, ''keps/sig-node/2-b/kep.yaml'']) = Inr ''kep''"
  by code_simp+

lemma sample_local:
  "LoadLocalKEPs sample_repo_lib sample_repo_fs sample_repo ''sig-node'' =
     Ret (sample_repo, Some (map Some sample_loaded), None)"
  using sample_found by (simp add: LoadLocalKEPs_def sample_load sample_loaded_def)

lemma sample_prepare:
  "PrepareQueryOpts sample_repo_lib sample_repo (sample_opts\<lparr>q_PRRApprover := as\<rparr>) =
     (sample_opts\<lparr>q_Groups := [''sig-node''], q_PRRApprover := as\<rparr>, None)"
proof -
  have "group_matched sample_repo_lib [''node''] ''sig-node''" "\<not> group_matched sample_repo_lib [''node''] ''sig-api''"
    unfolding group_matched_def MatchString_def by (auto simp: first_way_def ways_rlit)
  then show ?thesis
    by (simp add: PrepareQueryOpts_def QueryOpts_Validate_def ValidFormats_def sample_opts_def sample_repo_def
        make_Repo_def selectByRegexp_eq none_to_empty_def)
qed

lemma sample_query:
  "Query sample_repo_lib order sample_repo_fs sample_repo (sample_opts\<lparr>q_PRRApprover := as\<rparr>) =
   Some (Ret (sample_repo_fs, sample_repo, sample_opts\<lparr>q_Groups := [''sig-node''], q_PRRApprover := as\<rparr>,
     Some (if as = [] then map Some sample_loaded else []), None))"
proof -
  let ?o = "sample_opts\<lparr>q_Groups := [''sig-node''], q_PRRApprover := as\<rparr>"
  have "filter_keps sample_repo_lib ?o (map Some sample_loaded) [] =
      Inr (if as = [] then map Some sample_loaded else [])"
    by (simp add: sample_loaded_def query_match_spec query_spec_def meets_def sample_opts_def with_location_def
        yaml_view_def filled_def sample_written_def sample_proposal_def)
  then have "Query_collect sample_repo_lib order sample_repo_fs sample_repo ?o =
      Some (Ret (sample_repo_fs, sample_repo, ?o, Some (if as = [] then map Some sample_loaded else []), None))"
    unfolding Query_collect_def by (simp add: sample_opts_def sample_local)
  moreover have "TokenPath sample_repo = []" by (simp add: sample_repo_def make_Repo_def)
  ultimately show ?thesis by (simp add: Query_def sample_prepare)
qed

theorem Query_keeps_witness:
  "\<exists>r' opts res. Query sample_repo_lib id sample_repo_fs sample_repo sample_opts =
     Some (Ret (sample_repo_fs, r', opts, res, None)) \<and> kept sample_repo r'"
proof -
  have "sample_opts\<lparr>q_PRRApprover := []\<rparr> = sample_opts" by (simp add: sample_opts_def)
  with sample_query [of id "[]"] Query_keeps [OF sample_query [of id "[]"]] show ?thesis by auto
qed

theorem Query_results_witness:
  "\<exists>r1 all eo. load_groups sample_repo_lib id sample_repo_fs r1 False [''sig-node''] [] =
      Some (Ret (sample_repo_fs, sample_repo, Some (map Some all), eo)) \<and>
    map Some sample_loaded = map Some (filter (query_spec (sample_opts\<lparr>q_Groups := [''sig-node''], q_PRRApprover := []\<rparr>)) all)"
  using Query_results [OF sample_query [of id "[]", simplified]] by (auto simp: sample_opts_def)

theorem PrepareQueryOpts_spec_witness:
  "PrepareQueryOpts sample_repo_lib sample_repo sample_opts = (sample_opts\<lparr>q_Groups := [''sig-node'']\<rparr>, None)"
proof -
  have "group_matched sample_repo_lib [''node''] ''sig-node''" "\<not> group_matched sample_repo_lib [''node''] ''sig-api''"
    unfolding group_matched_def MatchString_def by (auto simp: first_way_def ways_rlit)
  then show ?thesis
    using PrepareQueryOpts_spec [of sample_opts sample_repo_lib sample_repo "sample_opts\<lparr>q_Groups := [''sig-node'']\<rparr>"]
    by (simp add: sample_opts_def sample_repo_def make_Repo_def)
qed

theorem Query_by_PRRApprover_is_empty_witness:
  "\<exists>opts res. Query sample_repo_lib id sample_repo_fs sample_repo (sample_opts\<lparr>q_PRRApprover := [''ann'']\<rparr>) =
     Some (Ret (sample_repo_fs, sample_repo, opts, Some res, None)) \<and> res = []"
proof -
  have "(if [''ann''] = ([]::string list) then map Some sample_loaded else []) = []"
    by (rule Query_by_PRRApprover_is_empty [OF sample_query [of id "[''ann'']"]]) simp
  with sample_query [of id "[''ann'']"] show ?thesis by (intro exI conjI) (auto simp: sample_opts_def)
qed

definition sample_pr :: PullRequest where
  "sample_pr = \<lparr>pr_Number = 7, pr_Labels = [Some ''kind/kep'', Some ''sig/node'']\<rparr>"

definition sample_from_pr :: Proposal where
  "sample_from_pr =
     (with_location ''keps/sig-node/1-a/kep.yaml'' (yaml_view sample_written))\<lparr>PRNumber := Itoa 7\<rparr>"

lemma sample_selected:
  "load_selected sample_repo_lib id sample_repo_fs (sample_repo\<lparr>allPRs := Some [sample_pr]\<rparr>) ''sig-node'' =
   Ret (sample_repo_fs,
     sample_repo\<lparr>allPRs := Some [sample_pr], gitClone := Some \<lparr>Directory = ''/repo''\<rparr>\<rparr>,
     [Some sample_from_pr], None)"
proof -
  have path: "FJoin [ProposalPathStub, ''sig-node'', ''1-a'', ProposalMetadataFilename] = ''keps/sig-node/1-a/kep.yaml''"
    and read: "ReadFile sample_repo_fs (FJoin [''/repo'', ''keps/sig-node/1-a/kep.yaml'']) = Inr ''kep''"
    and names: "kep_names ''sig-node'' [Some ''keps/sig-node/1-a/kep.yaml''] [] = Ret [''1-a'']"
    by code_simp+
  have lib: "github_ListFiles sample_repo_lib t o' p n = Inr [Some ''keps/sig-node/1-a/kep.yaml'']"
    "git_NewClient sample_repo_lib w = (w, None)"
    "git_Clone sample_repo_lib o' p w = (w, Some \<lparr>Directory = ''/repo''\<rparr>, None)"
    "git_CheckoutPullRequest sample_repo_lib g n w = (w, None)" for t o' p n w g
    by (simp_all add: sample_repo_lib_simps)
  have "gitClone sample_repo = None" by (simp add: sample_repo_def make_Repo_def)
  then show ?thesis
    by (simp add: load_selected_def sample_pr_def sample_from_pr_def proposalLabel_def sig_label_def ensure_clone_def lib names path
        sample_load [OF read] del: kep_names.simps)
qed

theorem load_selected_spec_witness:
  "is_kep_pr ''sig-node'' sample_pr \<and> PRNumber sample_from_pr = Itoa (pr_Number sample_pr)"
proof -
  let ?r = "sample_repo\<lparr>allPRs := Some [sample_pr]\<rparr>"
  have labels: "\<forall>pr\<in>set (elems (allPRs ?r)). None \<notin> set (pr_Labels pr)" by (simp add: sample_pr_def)
  from mp [OF conjunct1 [OF load_selected_spec [OF labels]] sample_selected]
  show ?thesis by auto
qed

end
