(* ===== verification/GoRegexpLang.thy ===== *)
theory GoRegexpLang
  imports GoRegexp
begin

text \<open>
  What a regular expression matches, as a relation between a string and what is left of it,
  free of preferences and captures; the matcher of \<open>FindStringSubmatch\<close> finds a match exactly
  where the relation has one.
\<close>

inductive rmatch :: "regexp \<Rightarrow> string \<Rightarrow> string \<Rightarrow> bool" where
  empty: "rmatch REmpty s s"
| char: "p c \<Longrightarrow> rmatch (RChar p) (c # s) s"
| final: "rmatch REnd [] []"
| seq: "rmatch q s t \<Longrightarrow> rmatch r t u \<Longrightarrow> rmatch (RSeq q r) s u"
| left: "rmatch q s t \<Longrightarrow> rmatch (RAlt q r) s t"
| right: "rmatch r s t \<Longrightarrow> rmatch (RAlt q r) s t"
| stop: "rmatch (RStar r) s s"
| more: "rmatch r s t \<Longrightarrow> length t < length s \<Longrightarrow> rmatch (RStar r) t u \<Longrightarrow> rmatch (RStar r) s u"
| group: "rmatch r s t \<Longrightarrow> rmatch (RGroup n r) s t"

inductive_simps rmatch_simps [simp]:
  "rmatch REmpty s t" "rmatch (RChar p) s t" "rmatch REnd s t" "rmatch (RSeq q r) s t"
  "rmatch (RAlt q r) s t" "rmatch (RGroup n r) s t"
inductive_simps rmatch_star: "rmatch (RStar r) s t"

lemma ways_rmatch: "m \<in> set (ways r s cs) \<Longrightarrow> rmatch r s (fst m)"
proof (induction r s cs arbitrary: m rule: ways.induct)
  case (6 r s cs)
  from "6.prems" consider (stop) "m = (s, cs)"
    | (more) k where "k \<in> set (ways r s cs)" "length (fst k) < length s" "m \<in> set (ways (RStar r) (fst k) (snd k))"
    by (auto simp: ways.simps(6) [of r s cs] split: if_splits)
  then show ?case
  proof cases
    case more
    from rmatch.more [OF "6.IH"(1) [OF more(1)] more(2) "6.IH"(2) [OF more]] show ?thesis .
  qed (simp add: rmatch.stop)
qed (fastforce split: list.splits if_splits)+

lemma rmatch_ways: "rmatch r s t \<Longrightarrow> \<exists>cs'. (t, cs') \<in> set (ways r s cs)"
proof (induction r s t arbitrary: cs rule: rmatch.induct)
  case (seq q s t r u)
  then obtain c1 where c1: "(t, c1) \<in> set (ways q s cs)" by blast
  moreover from seq obtain c2 where "(u, c2) \<in> set (ways r t c1)" by blast
  ultimately show ?case by (intro exI [of _ c2]) (force intro: bexI [of _ "(t, c1)"])
next
  case (more r s t u)
  then obtain c1 where c1: "(t, c1) \<in> set (ways r s cs)" by blast
  moreover from more obtain c2 where "(u, c2) \<in> set (ways (RStar r) t c1)" by blast
  ultimately show ?case
    using more.hyps(2) by (intro exI [of _ c2]) (force simp: ways.simps(6) [of r s cs] intro: bexI [of _ "(t, c1)"])
next
  case (group r s t n)
  then obtain c1 where "(t, c1) \<in> set (ways r s cs)" by blast
  then show ?case by force
next
  case (stop r s)
  then show ?case by (auto simp: ways.simps(6) [of r s cs])
next
  case (left q s t r)
  then show ?case by fastforce
next
  case (right r s t q)
  then show ?case by fastforce
qed simp_all

lemma first_way_iff: "first_way r s \<noteq> None \<longleftrightarrow> (\<exists>t. rmatch r s t)"
proof
  assume "first_way r s \<noteq> None"
  then obtain m ms where "ways r s (\<lambda>_. []) = m # ms" by (auto simp: first_way_def split: list.splits)
  then have "rmatch r s (fst m)" by (intro ways_rmatch [where cs = "\<lambda>_. []"]) simp
  then show "\<exists>t. rmatch r s t" by blast
next
  assume "\<exists>t. rmatch r s t"
  then obtain t cs' where "(t, cs') \<in> set (ways r s (\<lambda>_. []))" using rmatch_ways by blast
  then show "first_way r s \<noteq> None" by (auto simp: first_way_def split: list.splits)
qed

lemma MatchString_iff: "MatchString r s \<longleftrightarrow> (\<exists>a b t. s = a @ b \<and> rmatch r b t)"
proof (induction s)
  case Nil
  then show ?case using first_way_iff [of r "[]"] by (simp add: MatchString_def)
next
  case (Cons c s)
  have "(\<exists>a b t. c # s = a @ b \<and> rmatch r b t) \<longleftrightarrow> (\<exists>t. rmatch r (c # s) t) \<or> (\<exists>a b t. s = a @ b \<and> rmatch r b t)"
    by (metis append_Cons append_Nil list.inject neq_Nil_conv)
  with Cons show ?case using first_way_iff [of r "c # s"] by (auto simp: MatchString_def split: option.splits)
qed

lemma rmatch_star_char: "rmatch (RStar (RChar p)) s t \<longleftrightarrow> (\<exists>u. s = u @ t \<and> list_all p u)"
proof
  have "rmatch r s t \<Longrightarrow> r = RStar (RChar p) \<Longrightarrow> \<exists>u. s = u @ t \<and> list_all p u" for r
  proof (induction r s t rule: rmatch.induct)
    case (more r s t u)
    then obtain c v where "s = c # t" "p c" "t = v @ u" "list_all p v" by auto
    then show ?case by (intro exI [of _ "c # v"]) simp
  qed auto
  then show "rmatch (RStar (RChar p)) s t \<Longrightarrow> \<exists>u. s = u @ t \<and> list_all p u" by blast
  have "list_all p u \<Longrightarrow> rmatch (RStar (RChar p)) (u @ t) t" for u
    by (induction u) (auto intro: rmatch.stop rmatch.more [OF rmatch.char])
  then show "\<exists>u. s = u @ t \<and> list_all p u \<Longrightarrow> rmatch (RStar (RChar p)) s t" by blast
qed

lemma rmatch_plus_char:
  "rmatch (RPlus (RChar p)) s t \<longleftrightarrow> (\<exists>u. u \<noteq> [] \<and> s = u @ t \<and> list_all p u)"
  by (auto simp: RPlus_def rmatch_star_char) (metis append_Cons list.pred_inject(2) neq_Nil_conv)+

lemma rmatch_rlit: "rmatch (rlit p) s t \<longleftrightarrow> s = p @ t"
  by (induction p arbitrary: s) auto

end
