(* ===== verification/ProposalCmdsProps.thy ===== *)
theory ProposalCmdsProps
  imports ProposalCmds RepoQueryProps GoRegexpLang
begin

text \<open>
  Properties of the creation and promotion of KEPs: which names the options accept, what a new
  KEP holds and where it is written, and that promotion changes a KEP's stage and release only.
\<close>

section \<open>Options\<close>

lemma MatchString_name_number:
  "MatchString (RSeq (RGroup 1 (RPlus (RChar P))) (RSeq (rlit a) (RGroup 2
      (RSeq (RGroup 3 (RSeq (rlit b) (RPlus (RChar Q)))) (RSeq (rlit c) (RPlus (RChar R))))))) s \<longleftrightarrow>
   (\<exists>l u v x t. s = l @ u @ a @ b @ v @ c @ x @ t \<and> (u \<noteq> [] \<and> list_all P u) \<and>
      (v \<noteq> [] \<and> list_all Q v) \<and> (x \<noteq> [] \<and> list_all R x))"
  unfolding MatchString_iff rmatch_simps rmatch_plus_char rmatch_rlit by auto blast+

lemma first_of_run: "(\<exists>x t. s = x @ t \<and> (x \<noteq> [] \<and> list_all P x)) \<longleftrightarrow> (\<exists>y t. s = y # t \<and> P y)"
proof
  show "\<exists>x t. s = x @ t \<and> (x \<noteq> [] \<and> list_all P x) \<Longrightarrow> \<exists>y t. s = y # t \<and> P y"
    by (metis append_Cons list.exhaust list.pred_inject(2))
  show "\<exists>y t. s = y # t \<and> P y \<Longrightarrow> \<exists>x t. s = x @ t \<and> (x \<noteq> [] \<and> list_all P x)"
    by (metis append_Cons append_Nil list.distinct(1) list.pred_inject)
qed

lemma last_of_run: "(\<exists>l u. s = l @ u \<and> (u \<noteq> [] \<and> list_all P u)) \<longleftrightarrow> (\<exists>l y. s = l @ [y] \<and> P y)"
proof
  show "\<exists>l u. s = l @ u \<and> (u \<noteq> [] \<and> list_all P u) \<Longrightarrow> \<exists>l y. s = l @ [y] \<and> P y"
    by (metis append.assoc append_butlast_last_id list_all_ends)
  show "\<exists>l y. s = l @ [y] \<and> P y \<Longrightarrow> \<exists>l u. s = l @ u \<and> (u \<noteq> [] \<and> list_all P u)"
    by (metis list.distinct(1) list.pred_inject)
qed

lemma run_of_char: "v \<noteq> [] \<and> list_all (\<lambda>x. x = d) v \<longleftrightarrow> (\<exists>n. v = replicate (Suc n) d)"
proof
  assume v: "v \<noteq> [] \<and> list_all (\<lambda>x. x = d) v"
  then have "v = replicate (length v) d" by (intro replicate_eqI) (auto simp: list_all_iff)
  with v show "\<exists>n. v = replicate (Suc n) d" by (cases v) auto
qed (auto simp: list_all_iff)

lemma options_regexp_match:
  "MatchString options_regexp kep \<longleftrightarrow>
   (\<exists>a c n y z. kep = a @ [c] @ ''/'' @ [backslash] @ replicate (Suc n) (CHR ''d'') @ ''-'' @ [y] @ z \<and>
      name_class c \<and> any_char y)"
proof -
  have shape: "(\<exists>l u v x t. s = l @ u @ a @ b @ v @ c @ x @ t \<and> (u \<noteq> [] \<and> list_all P u) \<and>
      (v \<noteq> [] \<and> list_all (\<lambda>x. x = d) v) \<and> (x \<noteq> [] \<and> list_all R x)) \<longleftrightarrow>
    (\<exists>l k n y z. s = l @ [k] @ a @ b @ replicate (Suc n) d @ c @ [y] @ z \<and> P k \<and> R y)"
    for s a b c :: string and P R d
  proof -
    have "(\<exists>l u v x t. s = l @ u @ a @ b @ v @ c @ x @ t \<and> (u \<noteq> [] \<and> list_all P u) \<and>
        (v \<noteq> [] \<and> list_all (\<lambda>x. x = d) v) \<and> (x \<noteq> [] \<and> list_all R x)) \<longleftrightarrow>
      (\<exists>i j v. s = i @ a @ b @ v @ c @ j \<and> (\<exists>l u. i = l @ u \<and> (u \<noteq> [] \<and> list_all P u)) \<and>
        (v \<noteq> [] \<and> list_all (\<lambda>x. x = d) v) \<and> (\<exists>x t. j = x @ t \<and> (x \<noteq> [] \<and> list_all R x)))"
      by auto (metis append.assoc)+
    also have "\<dots> \<longleftrightarrow> (\<exists>l k n y z. s = l @ [k] @ a @ b @ replicate (Suc n) d @ c @ [y] @ z \<and> P k \<and> R y)"
      unfolding first_of_run last_of_run run_of_char by auto (metis append.assoc append_Cons append_Nil)+
    finally show ?thesis .
  qed
  show ?thesis unfolding options_regexp_def MatchString_name_number by (rule shape)
qed

text \<open>
  \<open>NewOptions\<close> accepts a name exactly when it has, after a slash, a literal backslash with
  letters d where the error message asks for a number.
\<close>

theorem NewOptions_accepts_iff:
  "NewOptions L kep sig name number = Inr opts \<longleftrightarrow>
   opts = \<lparr>o_KEP = kep, o_Name = name, o_Number = number, o_SIG = sig\<rparr> \<and>
   (\<exists>a c n y z. kep = a @ [c] @ ''/'' @ [backslash] @ replicate (Suc n) (CHR ''d'') @ ''-'' @ [y] @ z \<and>
      name_class c \<and> any_char y)"
  unfolding options_regexp_match [symmetric]
  by (auto simp: NewOptions_def MatchString_def options_regexp_def first_way_def RPlus_def split: option.splits)

corollary NewOptions_rejects_documented_name:
  "NewOptions L ''sig-architecture/0000-new-kep'' sig name number =
   Inl (errors_New L ''invalid KEP name: sig-architecture/0000-new-kep'')"
proof -
  have "find_submatch options_regexp ''sig-architecture/0000-new-kep'' = None" by code_simp
  then show ?thesis by (simp add: NewOptions_def)
qed


section \<open>Creating\<close>

lemma foldl_snoc_map: "foldl (\<lambda>xs x. xs @ [f x]) acc ys = acc @ map f ys"
  by (induction ys arbitrary: acc) simp_all

lemma updatePersonReference_map: "updatePersonReference names = map at_prefixed names"
  by (simp add: updatePersonReference_def foldl_snoc_map)

lemma at_prefixed_prefix: "HasPrefix (at_prefixed n) ''@''"
  by (simp add: at_prefixed_def HasPrefix_def)

lemma at_prefixed_idem [simp]: "at_prefixed (at_prefixed n) = at_prefixed n"
  using at_prefixed_prefix by (subst at_prefixed_def) simp

lemma populateProposal_fields [simp]:
  "Name (populateProposal now p opts) = o_Name opts"
  "OwningSIG (populateProposal now p opts) = o_SIG opts"
  "Title (populateProposal now p opts) = c_Title opts"
  "Number (populateProposal now p opts) = o_Number opts"
  "StageOf (populateProposal now p opts) = c_Stage opts"
  "CreationDate (populateProposal now p opts) = format_date now"
  "LastUpdated (populateProposal now p opts) = ''v1.19''"
  "StatusOf (populateProposal now p opts) = (if c_State opts = [] then StatusOf p else c_State opts)"
  "ParticipatingSIGs (populateProposal now p opts) = Some (c_ParticipatingSIGs opts @ [o_SIG opts])"
  by (simp_all add: populateProposal_def Let_def go_append_def)

lemma populateProposal_people [simp]:
  "elems (Authors (populateProposal now zero_Proposal opts)) = map at_prefixed (c_Authors opts)"
  "elems (Approvers (populateProposal now zero_Proposal opts)) = map at_prefixed (c_Approvers opts)"
  "elems (Reviewers (populateProposal now zero_Proposal opts)) = map at_prefixed (c_Reviewers opts)"
  by (simp_all add: populateProposal_def Let_def foldl_snoc_map updatePersonReference_map zero_Proposal_def)

definition readme_file :: "Repo \<Rightarrow> string \<Rightarrow> string \<Rightarrow> string" where
  "readme_file r sig name = render (base_root r) (base_elems r @ [''keps'', sig, name, ''README.md''])"

lemma readme_path:
  assumes "repo_paths r" and "plain sig" and "plain name"
  shows "FJoin [ProposalPath r, sig, name, ProposalFilename] = readme_file r sig name"
proof -
  have c: "cleaned (base_root r) (base_elems r @ [''keps''])" by (rule cleaned_base) simp
  show ?thesis
    using FJoin_cons_plain [of "ProposalPath r" "[sig, name, ''README.md'']"] assms c
    by (simp add: ProposalPath_render ProposalFilename_def readme_file_def)
qed

lemma readme_neq_kep:
  assumes "plain (OwningSIG p)" and "plain (Name p)"
  shows "abs_elems w (kep_file r p) \<noteq> abs_elems w (readme_file r (OwningSIG p) (Name p))"
proof -
  have c: "cleaned (base_root r) (base_elems r @ [''keps'', OwningSIG p, Name p])"
    using assms by (intro cleaned_base) simp
  show ?thesis
    using abs_elems_snoc [OF c, of "''kep.yaml''" w] abs_elems_snoc [OF c, of "''README.md''" w]
    by (simp add: kep_file_def readme_file_def)
qed

text \<open>
  C36: a KEP created without an error is valid for the groups of the repository, its README is the
  template, its metadata file loads back as the proposal made from the options, whose authors,
  approvers and reviewers are those given, each with an at sign in front; an invalid one is
  reported before anything is written.
\<close>

theorem Create_writes_kep:
  assumes "repo_paths r" and "plain (o_SIG opts)" and "plain (o_Name opts)"
    and "validator_PRR_ok L" and "errors_lib_ok L" and "c_Repo opts = Some r"
    and "kep = populateProposal now zero_Proposal opts" and "yaml_restores L kep"
    and "\<forall>q\<in>{kep_file r kep, readme_file r (o_SIG opts) (o_Name opts)}.
      \<forall>pm b. find_node w q = Inr (Reg pm b) \<longrightarrow> rd pm"
  shows "(Create L now w opts = Ret (w', None) \<longrightarrow>
      KEPHandler_Validate L (KEPHandler r) kep = [] \<and>
      ReadFile w' (readme_file r (o_SIG opts) (o_Name opts)) = Inr (ProposalTemplate r) \<and>
      (\<exists>r'. loadKEPFromYaml L w' r (BasePath r) (slashed [''keps'', o_SIG opts, o_Name opts, ''kep.yaml'']) =
        Ret (r', Inr ((yaml_view kep)\<lparr>Path := o_SIG opts @ ''/'' @ o_Name opts\<rparr>))) \<and>
      elems (Authors kep) = map at_prefixed (c_Authors opts) \<and>
      elems (Approvers kep) = map at_prefixed (c_Approvers opts) \<and>
      elems (Reviewers kep) = map at_prefixed (c_Reviewers opts)) \<and>
    (KEPHandler_Validate L (KEPHandler r) kep \<noteq> [] \<longrightarrow> (\<exists>e. Create L now w opts = Ret (w, Some e)))"
proof (intro conjI impI)
  show "KEPHandler_Validate L (KEPHandler r) kep \<noteq> [] \<Longrightarrow> \<exists>e. Create L now w opts = Ret (w, Some e)"
    using assms(6,7) by (simp add: Create_def Let_def)
  have sig: "OwningSIG kep = o_SIG opts" and name: "Name kep = o_Name opts" by (simp_all add: assms(7))
  let ?q = "kep_file r kep" let ?d = "readme_file r (o_SIG opts) (o_Name opts)"
  assume "Create L now w opts = Ret (w', None)"
  then have v: "KEPHandler_Validate L (KEPHandler r) kep = []" and "createKEP L w kep r opts = (w', None)"
    using assms(6,7) by (auto simp: Create_def Let_def split: if_splits)
  moreover note wrap = errors_Wrap_None_iffs [OF assms(5)]
  ultimately obtain w1 where w1: "WriteKEP L w r kep = (w1, None)"
    and w2: "WriteFile w1 ?d (ProposalTemplate r) = (w', None)"
    by (auto simp: createKEP_def Let_def readme_path [OF assms(1-3)] split: prod.splits option.splits)
  show "KEPHandler_Validate L (KEPHandler r) kep = []" by (rule v)
  have plain: "plain (OwningSIG kep)" "plain (Name kep)" using assms(2,3) sig name by simp_all
  have kneq: "abs_elems w ?q \<noteq> abs_elems w ?d" using readme_neq_kep [OF plain, of w r] sig name by simp
  have cwd: "abs_elems w1 q = abs_elems w q" for q
    using WriteKEP_effect [OF assms(1) plain w1] by (auto simp: abs_elems_def)
  from WriteKEP_node [OF assms(1) plain w1] assms(9) obtain b pm where b: "yaml_Proposal_text L kep = Inr b"
    "find_node w1 ?q = Inr (Reg pm b)" "rd pm" by auto
  then have "find_node w' ?q = Inr (Reg pm b)" using WriteFile_other [OF w2] kneq cwd by simp
  from loadKEP_written [OF assms(1) plain assms(4,5,8) b(1) ReadFile_Reg [OF this b(3)]]
  show "\<exists>r'. loadKEPFromYaml L w' r (BasePath r) (slashed [''keps'', o_SIG opts, o_Name opts, ''kep.yaml'']) =
      Ret (r', Inr ((yaml_view kep)\<lparr>Path := o_SIG opts @ ''/'' @ o_Name opts\<rparr>))"
    by (simp only: sig name)
  have "find_node w1 ?d = Inr (Reg pm c) \<longleftrightarrow> find_node w ?d = Inr (Reg pm c)" for pm c
    using WriteKEP_reg_iff [OF assms(1) plain w1, of "abs_elems w ?d"] kneq cwd
    by (simp add: find_node_def)
  with assms(9) have "\<forall>pm b. find_node w1 ?d = Inr (Reg pm b) \<longrightarrow> rd pm" by auto
  from WriteFile_node [OF w2 this] obtain pm' where "find_node w' ?d = Inr (Reg pm' (ProposalTemplate r))" "rd pm'"
    by blast
  then show "ReadFile w' ?d = Inr (ProposalTemplate r)" by (rule ReadFile_Reg)
qed (simp_all add: assms(7))


section \<open>Promoting\<close>

lemma LoadLocalKEP_loaded:
  assumes "LoadLocalKEP L w r sig name = Ret (r1, Some p, None)" and "plain sig" and "plain name"
  shows "kept r r1 \<and> Name p = name \<and> Path p = sig @ ''/'' @ name"
proof -
  let ?k = "slashed [''keps'', sig, name, ''kep.yaml'']"
  have "FJoin [''keps'', sig, name, ''kep.yaml''] = ?k"
    using FJoin_cons_plain [of "''keps''" "[sig, name, ''kep.yaml'']"] assms(2,3) path_elems_render [of False "[''keps'']"]
    by (simp add: render_def rooted_def)
  with assms(1) have l: "loadKEPFromYaml L w r (BasePath r) ?k = Ret (r1, Inr p)"
    by (auto simp: LoadLocalKEP_def Let_def repo_names split: sum.splits outcome.splits)
  then obtain q where "p = with_location ?k q"
    by (auto simp: loadKEPFromYaml_def Let_def split: sum.splits prod.splits option.splits outcome.splits)
  with loadKEPFromYaml_keeps [OF l] with_location_kep [OF assms(2,3)] show ?thesis by simp
qed

lemma kept_repo_paths: "kept r r' \<Longrightarrow> repo_paths r \<Longrightarrow> repo_paths r'"
  by (simp add: kept_def repo_paths_def)

text \<open>
  C37: promoting a KEP of the SIG that owns it sets its stage, its latest milestone and the release
  of its last update, and nothing else: the KEP loaded afterwards is the one loaded before with
  these fields changed, as YAML restores it, and every other regular file is as it was.
\<close>

theorem Promote_promotes:
  assumes "repo_paths r" and "plain (o_SIG opts)" and "plain (o_Name opts)"
    and "validator_PRR_ok L" and "errors_lib_ok L" and "p_Repo opts = Some r"
    and "LoadLocalKEP L w r (o_SIG opts) (o_Name opts) = Ret (r1, Some p, None)"
    and "OwningSIG p = o_SIG opts" and "yaml_restores L (promoted opts p)"
    and "\<forall>pm b. find_node w (kep_file r p) = Inr (Reg pm b) \<longrightarrow> rd pm"
    and "Promote L w opts = Ret (w', opts', None)"
  shows "(\<exists>r'. loadKEPFromYaml L w' r1 (BasePath r1) (slashed [''keps'', o_SIG opts, o_Name opts, ''kep.yaml'']) =
      Ret (r', Inr (yaml_view (p\<lparr>StageOf := p_Stage opts, LatestMilestone := p_Release opts,
        LastUpdated := p_Release opts\<rparr>)))) \<and>
    (\<forall>ds pm b. ds \<noteq> abs_elems w (kep_file r p) \<longrightarrow>
      (lookup_at (fs_root w') ds = Inr (Reg pm b) \<longleftrightarrow> lookup_at (fs_root w) ds = Inr (Reg pm b)))"
proof -
  note loaded = LoadLocalKEP_loaded [OF assms(7,2,3)]
  let ?p = "promoted opts p"
  have r1: "repo_paths r1" using loaded assms(1) kept_repo_paths by blast
  have w: "WriteKEP L w r1 ?p = (w', None)"
    using assms(6,7,11) by (auto simp: Promote_def LoadLocalKEP_ptr_def split: prod.splits option.splits)
  have sig: "OwningSIG ?p = o_SIG opts" and name: "Name ?p = o_Name opts"
    using assms(8) loaded by (simp_all add: promoted_def)
  then have plain: "plain (OwningSIG ?p)" "plain (Name ?p)" using assms(2,3) by simp_all
  have same: "kep_file r1 ?p = kep_file r p"
    using loaded by (simp add: kep_file_def promoted_def kept_def)
  have view: "(yaml_view ?p)\<lparr>Path := o_SIG opts @ ''/'' @ o_Name opts\<rparr> = yaml_view ?p"
    using loaded by (simp add: yaml_view_def promoted_def)
  from WriteKEP_node [OF r1 plain w] assms(10) same obtain b pm where b: "yaml_Proposal_text L ?p = Inr b"
    "find_node w' (kep_file r1 ?p) = Inr (Reg pm b)" "rd pm" by auto
  from loadKEP_written [OF r1 plain assms(4,5,9) b(1) ReadFile_Reg [OF b(2,3)]]
  have "\<exists>r'. loadKEPFromYaml L w' r1 (BasePath r1) (slashed [''keps'', o_SIG opts, o_Name opts, ''kep.yaml'']) =
      Ret (r', Inr (yaml_view ?p))" by (simp only: sig name view)
  moreover note WriteKEP_reg_iff [OF r1 plain w, unfolded same]
  ultimately show ?thesis by (simp add: promoted_def)
qed


section \<open>Samples\<close>

text \<open>A YAML library that also restores one more proposal.\<close>

definition sample_cmd_lib :: "Proposal \<Rightarrow> repo_lib" where
  "sample_cmd_lib kep = sample_repo_lib
     \<lparr>yaml_Proposal_text := (\<lambda>p. if p = kep then Inr ''other'' else Inr ''kep''),
      yaml_Proposal_value := (\<lambda>strict b p.
        if b = ''other'' then (yaml_view kep, None)
        else if b = ''kep'' then (yaml_view sample_written, None) else (p, Some (LibError ''yaml'')))\<rparr>"

lemma sample_cmd_lib_ok:
  "validator_PRR_ok (sample_cmd_lib kep)" "errors_lib_ok (sample_cmd_lib kep)" "yaml_restores (sample_cmd_lib kep) kep"
  using sample_repo_lib_ok
  by (simp_all add: validator_PRR_ok_def errors_lib_ok_def sample_cmd_lib_def yaml_restores_def PRRApproval_Validate_def)

definition sample_create_opts :: CreateOpts where
  "sample_create_opts =
     \<lparr>o_KEP = [], o_Name = ''4-d'', o_Number = ''4'', o_SIG = ''sig-node'', c_Repo = Some sample_repo, c_Title = ''T'',
      c_Approvers = [''@bob''], c_Authors = [''ann''], c_Reviewers = [], c_Type = ''feature'',
      c_State = ''provisional'', c_Stage = ''alpha'', c_ParticipatingSIGs = [], c_PRRApprovers = []\<rparr>"

definition sample_date :: date where
  "sample_date = \<lparr>d_Year = 2024, d_Month = 2, d_Day = 9\<rparr>"

definition sample_created :: Proposal where
  "sample_created = populateProposal sample_date zero_Proposal sample_create_opts"

definition sample_created_fs :: fsys where
  "sample_created_fs =
     (case Create (sample_cmd_lib sample_created) sample_date sample_repo_fs sample_create_opts of
        Ret (w, e) \<Rightarrow> w | Panic \<Rightarrow> sample_repo_fs)"

lemma sample_create:
  "Create (sample_cmd_lib sample_created) sample_date sample_repo_fs sample_create_opts = Ret (sample_created_fs, None)"
proof -
  have "map_outcome snd (Create (sample_cmd_lib sample_created) sample_date sample_repo_fs sample_create_opts) = Ret None"
    by code_simp
  then show ?thesis
    by (cases "Create (sample_cmd_lib sample_created) sample_date sample_repo_fs sample_create_opts")
      (auto simp: sample_created_fs_def)
qed

lemma sample_create_paths:
  "find_node sample_repo_fs (kep_file sample_repo sample_created) = Inl ENOENT"
  "find_node sample_repo_fs (readme_file sample_repo ''sig-node'' ''4-d'') = Inl ENOENT"
  "plain ''sig-node''" "plain ''4-d''"
  by code_simp+

theorem Create_writes_kep_witness:
  "ReadFile sample_created_fs (readme_file sample_repo ''sig-node'' ''4-d'') = Inr ''template'' \<and>
   elems (Authors sample_created) = [''@ann'']"
proof -
  have fields: "o_SIG sample_create_opts = ''sig-node''" "o_Name sample_create_opts = ''4-d''"
    "c_Repo sample_create_opts = Some sample_repo" "map at_prefixed (c_Authors sample_create_opts) = [''@ann'']"
    "ProposalTemplate sample_repo = ''template''"
    by (simp_all add: sample_create_opts_def at_prefixed_def HasPrefix_def sample_repo_def make_Repo_def)
  have "plain (o_SIG sample_create_opts)" "plain (o_Name sample_create_opts)"
    using sample_create_paths(3,4) by (simp_all only: fields)
  note * = Create_writes_kep [OF sample_repo_paths this sample_cmd_lib_ok(1,2) fields(3) sample_created_def
      sample_cmd_lib_ok(3), of sample_repo_fs sample_created_fs]
  show ?thesis
    using * sample_create sample_create_paths by (simp add: fields)
qed

definition sample_promote_opts :: PromoteOpts where
  "sample_promote_opts =
     \<lparr>o_KEP = [], o_Name = ''1-a'', o_Number = [], o_SIG = ''sig-node'', p_Repo = Some sample_repo,
      p_Release = ''v1.31'', p_Stage = ''stable''\<rparr>"

definition sample_loaded_kep :: Proposal where
  "sample_loaded_kep = with_location ''keps/sig-node/1-a/kep.yaml'' (yaml_view sample_written)"

abbreviation sample_promote_lib :: repo_lib where
  "sample_promote_lib \<equiv> sample_cmd_lib (promoted sample_promote_opts sample_loaded_kep)"

definition sample_promoted_fs :: fsys where
  "sample_promoted_fs =
     (case Promote sample_promote_lib sample_repo_fs sample_promote_opts of
        Ret (w, e) \<Rightarrow> w | Panic \<Rightarrow> sample_repo_fs)"

lemma sample_promote_checks:
  "LoadLocalKEP sample_promote_lib sample_repo_fs sample_repo ''sig-node'' ''1-a'' =
     Ret (sample_repo, Some sample_loaded_kep, None)"
  "map_outcome snd (Promote sample_promote_lib sample_repo_fs sample_promote_opts) = Ret (sample_promote_opts, None)"
  "find_node sample_repo_fs (kep_file sample_repo sample_loaded_kep) = Inr (Reg mode_perm ''kep'')"
  "abs_elems sample_repo_fs (kep_file sample_repo sample_loaded_kep) = [''repo'', ''keps'', ''sig-node'', ''1-a'', ''kep.yaml'']"
  "plain ''1-a''" "OwningSIG sample_loaded_kep = ''sig-node''"
  by code_simp+

lemma sample_promote:
  "Promote sample_promote_lib sample_repo_fs sample_promote_opts = Ret (sample_promoted_fs, sample_promote_opts, None)"
  using sample_promote_checks(2)
  by (cases "Promote sample_promote_lib sample_repo_fs sample_promote_opts") (auto simp: sample_promoted_fs_def)

theorem Promote_promotes_witness:
  "(\<exists>r' q. loadKEPFromYaml sample_promote_lib sample_promoted_fs sample_repo (BasePath sample_repo)
      (slashed [''keps'', ''sig-node'', ''1-a'', ''kep.yaml'']) = Ret (r', Inr q) \<and> StageOf q = ''stable'') \<and>
   (lookup_at (fs_root sample_promoted_fs) [''repo'', ''keps'', ''README.md''] = Inr (Reg mode_perm ''readme'') \<longleftrightarrow>
    lookup_at (fs_root sample_repo_fs) [''repo'', ''keps'', ''README.md''] = Inr (Reg mode_perm ''readme''))"
proof -
  have fields: "o_SIG sample_promote_opts = ''sig-node''" "o_Name sample_promote_opts = ''1-a''"
    "p_Repo sample_promote_opts = Some sample_repo" "p_Stage sample_promote_opts = ''stable''"
    by (simp_all add: sample_promote_opts_def)
  have "plain (o_SIG sample_promote_opts)" "plain (o_Name sample_promote_opts)"
    using sample_create_paths(3) sample_promote_checks(5) by (simp_all only: fields)
  note * = Promote_promotes [OF sample_repo_paths this sample_cmd_lib_ok(1,2) fields(3), unfolded fields,
      OF sample_promote_checks(1,6) sample_cmd_lib_ok(3) _ sample_promote]
  have "\<forall>pm b. find_node sample_repo_fs (kep_file sample_repo sample_loaded_kep) = Inr (Reg pm b) \<longrightarrow> rd pm"
    by (simp add: sample_promote_checks(3))
  note ** = * [OF this]
  have stage: "StageOf (yaml_view (p\<lparr>StageOf := s, LatestMilestone := a, LastUpdated := b\<rparr>)) = s" for p s a b
    by (simp add: yaml_view_def)
  have "[''repo'', ''keps'', ''README.md''] \<noteq> abs_elems sample_repo_fs (kep_file sample_repo sample_loaded_kep)"
    by (simp add: sample_promote_checks(4))
  with conjunct2 [OF **] have "lookup_at (fs_root sample_promoted_fs) [''repo'', ''keps'', ''README.md''] = Inr (Reg mode_perm ''readme'') \<longleftrightarrow>
    lookup_at (fs_root sample_repo_fs) [''repo'', ''keps'', ''README.md''] = Inr (Reg mode_perm ''readme'')"
    by (simp del: lookup_at.simps)
  moreover from conjunct1 [OF **] obtain r' where "loadKEPFromYaml sample_promote_lib sample_promoted_fs sample_repo
      (BasePath sample_repo) (slashed [''keps'', ''sig-node'', ''1-a'', ''kep.yaml'']) =
      Ret (r', Inr (yaml_view (sample_loaded_kep\<lparr>StageOf := ''stable'', LatestMilestone := p_Release sample_promote_opts,
        LastUpdated := p_Release sample_promote_opts\<rparr>)))" ..
  ultimately show ?thesis by (intro conjI exI) (assumption, rule stage, assumption)
qed

end
