(* ===== verification/OutputProps.thy ===== *)
theory OutputProps
  imports Output
begin

text \<open>
  Properties of the printing of proposals: which formats exist, that printing ends and only
  appends to the streams, that a CSV document can be read back column by column, and that a
  JSON document is one line from which the proposals can be read back.
\<close>

section \<open>The interface of a printer\<close>

text \<open>
  A printer given proposals that are not nil returns, and what it did is append to the two
  streams; it does not look at what is there already.
\<close>

locale printer =
  fixes print :: "Proposal option list \<Rightarrow> streams \<Rightarrow> streams outcome"
  assumes print_appends:
    "list_all (\<lambda>k. k \<noteq> None) ps \<Longrightarrow>
     \<exists>out err. \<forall>s. print ps s = Ret (put_out out (put_err err s))"
begin

lemma print_returns: "list_all (\<lambda>k. k \<noteq> None) ps \<Longrightarrow> print ps s \<noteq> Panic"
  using print_appends [of ps] by auto

lemma print_prefix:
  "list_all (\<lambda>k. k \<noteq> None) ps \<Longrightarrow> print ps s = Ret s' \<Longrightarrow>
   prefix (Out s) (Out s') \<and> prefix (Err s) (Err s')"
  using print_appends [of ps] by fastforce

end

lemma row_values_Some:
  "list_all (\<lambda>c. valueFunc c \<noteq> None) cs \<Longrightarrow>
   row_values cs (Some p) = Ret (map (\<lambda>c. the (valueFunc c) p) cs)"
  by (induction cs) (auto simp: printConfig_Value_def)

lemma csv_rows_Some:
  "list_all (\<lambda>c. valueFunc c \<noteq> None) cs \<Longrightarrow>
   csv_rows cs (map Some ps) = Ret (map (\<lambda>p. map (\<lambda>c. the (valueFunc c) p) cs) ps)"
  by (induction ps) (simp_all add: row_values_Some)

lemma table_rows_returns:
  "list_all (\<lambda>c. valueFunc c \<noteq> None) cs \<Longrightarrow> table_rows L cs (map Some ps) rows \<noteq> Panic"
  by (induction ps arbitrary: rows) (auto simp: row_values_Some split: option.splits)

lemma not_nil_map_Some: "list_all (\<lambda>k. k \<noteq> None) ks \<Longrightarrow> \<exists>ps. ks = map Some ps"
  by (induction ks) (auto simp: Cons_eq_map_conv)

lemma put_neutral [simp]: "put_out [] s = s" "put_err [] s = s"
  by (simp_all add: put_out_def put_err_def)

lemma put_commute: "put_err e (put_out t s) = put_out t (put_err e s)"
  by (simp add: put_out_def put_err_def)

lemma appends:
  shows appends_out: "(\<And>s. f s = Ret (put_out t s)) \<Longrightarrow> \<exists>out err. \<forall>s. f s = Ret (put_out out (put_err err s))"
    and appends_err: "(\<And>s. f s = Ret (put_err t s)) \<Longrightarrow> \<exists>out err. \<forall>s. f s = Ret (put_out out (put_err err s))"
    and appends_none: "(\<And>s. f s = Ret s) \<Longrightarrow> \<exists>out err. \<forall>s. f s = Ret (put_out out (put_err err s))"
  by (rule exI [of _ t], rule exI [of _ "[]"], simp, rule exI [of _ "[]"], rule exI [of _ t], simp,
      rule exI [of _ "[]"], rule exI [of _ "[]"], simp)

interpretation yaml_printer: printer "YAML_PrintProposals L" for L :: "'a out_lib_scheme"
proof unfold_locales
  fix ps show "\<exists>out err. \<forall>s. YAML_PrintProposals L ps s = Ret (put_out out (put_err err s))"
  proof (cases "yaml_Proposals L ps")
    case (Inl e)
    then show ?thesis by (intro appends_err) (simp add: YAML_PrintProposals_def Marshal_def)
  next
    case (Inr data)
    then show ?thesis by (intro appends_out) (simp add: YAML_PrintProposals_def Marshal_def)
  qed
qed

interpretation json_printer: printer "JSON_PrintProposals L" for L :: "'a out_lib_scheme"
  by unfold_locales (rule appends_out, simp add: JSON_PrintProposals_def json_Marshal_def)

lemma csv_print_appends:
  assumes "list_all (\<lambda>c. valueFunc c \<noteq> None) cs" and "list_all (\<lambda>k. k \<noteq> None) ps"
  shows "\<exists>out err. \<forall>s. CSV_PrintProposals cs ps s = Ret (put_out out (put_err err s))"
proof -
  obtain ps' where "ps = map Some ps'" using not_nil_map_Some [OF assms(2)] by blast
  then show ?thesis
    by (intro appends_out) (simp add: CSV_PrintProposals_def csv_rows_Some [OF assms(1)])
qed

lemma table_print_appends:
  assumes "list_all (\<lambda>c. valueFunc c \<noteq> None) cs" and "list_all (\<lambda>k. k \<noteq> None) ps"
  shows "\<exists>out err. \<forall>s. Table_PrintProposals L cs ps s = Ret (put_out out (put_err err s))"
proof (cases "cs = []")
  case True
  then show ?thesis by (intro appends_none) (simp add: Table_PrintProposals_def)
next
  case False
  obtain ps' where "ps = map Some ps'" using not_nil_map_Some [OF assms(2)] by blast
  then obtain res where res: "table_rows L cs ps [] = Ret res"
    using table_rows_returns [OF assms(1), of L ps' "[]"] by (cases "table_rows L cs ps []") auto
  show ?thesis
  proof (cases res)
    case (Inl e)
    with False res show ?thesis
      by (intro appends_err) (simp add: Table_PrintProposals_def Let_def)
  next
    case (Inr rows)
    obtain t eo where r: "table_Render L (map printConfig_Title cs) rows = (t, eo)" by force
    show ?thesis
      using False res Inr r
      by (intro exI [of _ t] exI [of _ "case eo of None \<Rightarrow> []
            | Some e \<Rightarrow> ''error printing KEPs as table: '' @ error_text e"])
        (simp add: Table_PrintProposals_def Let_def put_commute split: option.splits)
  qed
qed

abbreviation csv_configs :: "printConfig list" where
  "csv_configs \<equiv> DefaultPrintConfigs
     [''Title'', ''Authors'', ''SIG'', ''Stage'', ''Status'', ''LastUpdated'', ''Link'']"

abbreviation table_configs :: "printConfig list" where
  "table_configs \<equiv> DefaultPrintConfigs
     [''LastUpdated'', ''Stage'', ''Status'', ''SIG'', ''Authors'', ''Title'', ''Link'']"

lemma configs_have_values:
  "list_all (\<lambda>c. valueFunc c \<noteq> None) csv_configs" "list_all (\<lambda>c. valueFunc c \<noteq> None) table_configs"
  by (simp_all add: DefaultPrintConfigs_def defaultConfig_def)

interpretation csv_printer: printer "CSV_PrintProposals csv_configs"
  by unfold_locales (rule csv_print_appends [OF configs_have_values(1)])

interpretation table_printer: printer "Table_PrintProposals L table_configs" for L :: "'a out_lib_scheme"
  by unfold_locales (rule table_print_appends [OF configs_have_values(2)])

lemma NewOutput_cases:
  assumes "NewOutput f = Inr out"
  obtains "out = JSONOutput" | "out = YAMLOutput" | "out = CSVOutput csv_configs"
    | "out = TableOutput table_configs"
  using assms by (auto simp: NewOutput_def split: if_splits)

lemma PrintProposals_printer:
  assumes "NewOutput f = Inr out"
  shows "printer (PrintProposals L out)"
  using assms
proof (cases rule: NewOutput_cases)
  case 1
  then show ?thesis
    using json_printer.printer_axioms [of L] by (simp add: printer_def)
next
  case 2
  then show ?thesis
    using yaml_printer.printer_axioms [of L] by (simp add: printer_def)
next
  case 3
  then show ?thesis
    using csv_printer.printer_axioms by (simp add: printer_def)
next
  case 4
  then show ?thesis
    using table_printer.printer_axioms [of L] by (simp add: printer_def)
qed

text \<open>
  C20: the formats \<open>ValidFormats\<close> lists are exactly those \<open>NewOutput\<close> makes an output for.
  An output made by it prints every list of proposals without a panic, and printing only
  appends to what the two streams hold.
\<close>

theorem NewOutput_valid:
  "((\<exists>out. NewOutput f = Inr out) \<longleftrightarrow> f \<in> set ValidFormats) \<and>
   (NewOutput f = Inr out \<longrightarrow>
     (\<exists>s'. PrintProposals L out (map Some ps) s = Ret s' \<and>
        prefix (Out s) (Out s') \<and> prefix (Err s) (Err s')))"
proof (intro conjI impI)
  show "(\<exists>out. NewOutput f = Inr out) \<longleftrightarrow> f \<in> set ValidFormats"
    by (auto simp: NewOutput_def ValidFormats_def)
  assume "NewOutput f = Inr out"
  then have p: "printer (PrintProposals L out)" by (rule PrintProposals_printer)
  have ps: "list_all (\<lambda>k. k \<noteq> None) (map Some ps)" by (simp add: list_all_iff)
  from printer.print_returns [OF p ps, of s] obtain s' where
    "PrintProposals L out (map Some ps) s = Ret s'" by (cases "PrintProposals L out (map Some ps) s") auto
  with printer.print_prefix [OF p ps] show "\<exists>s'. PrintProposals L out (map Some ps) s = Ret s' \<and>
      prefix (Out s) (Out s') \<and> prefix (Err s) (Err s')" by blast
qed

section \<open>Reading CSV back\<close>

text \<open>
  A reader of comma separated values (RFC 4180) as a machine over the characters, with the
  current field and row: at the start of a field, in a plain field, inside quotes, and after
  a quote inside quotes.
\<close>

datatype csv_mode = FieldStart | InPlain | InQuotes | AfterQuote

fun csv_read :: "csv_mode \<Rightarrow> string \<Rightarrow> string list \<Rightarrow> string \<Rightarrow> string list list" where
  "csv_read m f row [] = (if m = FieldStart \<and> row = [] then [] else [row @ [f]])"
| "csv_read m f row (c # cs) =
     (if m = InQuotes then
        (if c = quote_mark then csv_read AfterQuote f row cs else csv_read InQuotes (f @ [c]) row cs)
      else if c = CHR '','' then csv_read FieldStart [] (row @ [f]) cs
      else if c = newline then (row @ [f]) # csv_read FieldStart [] [] cs
      else if c = quote_mark \<and> m = FieldStart then csv_read InQuotes [] row cs
      else if c = quote_mark \<and> m = AfterQuote then csv_read InQuotes (f @ [c]) row cs
      else csv_read InPlain (f @ [c]) row cs)"

definition csv_special :: "char set" where
  "csv_special = {newline, carriage_return, quote_mark, CHR '',''}"

lemma csv_chars [simp]:
  "newline \<noteq> quote_mark" "quote_mark \<noteq> newline" "newline \<noteq> CHR '',''" "CHR '','' \<noteq> newline"
  "quote_mark \<noteq> CHR '',''" "CHR '','' \<noteq> quote_mark"
  by (simp_all add: newline_def quote_mark_def)

lemma csv_read_quoted:
  "csv_read InQuotes f row
     (concat (map (\<lambda>c. if c = quote_mark then [quote_mark, quote_mark] else [c]) g) @ quote_mark # cs) =
   csv_read AfterQuote (f @ g) row cs"
  by (induction g arbitrary: f) simp_all

lemma csv_read_plain:
  "set g \<inter> csv_special = {} \<Longrightarrow> m \<noteq> InQuotes \<Longrightarrow> g \<noteq> [] \<Longrightarrow>
   csv_read m f row (g @ cs) = csv_read InPlain (f @ g) row cs"
proof (induction g arbitrary: m f)
  case (Cons c g)
  then show ?case by (cases "g = []") (auto simp: csv_special_def)
qed simp

lemma csv_needs_quotes_special: "\<not> csv_needs_quotes f \<Longrightarrow> set f \<inter> csv_special = {}"
  by (auto simp: csv_needs_quotes_def csv_special_def list_ex_iff)

definition field_end :: "char \<Rightarrow> bool" where
  "field_end c \<longleftrightarrow> c = CHR '','' \<or> c = newline"

lemma csv_read_field:
  assumes "field_end c"
  shows "\<exists>m. m \<noteq> InQuotes \<and> csv_read FieldStart [] row (csv_field f @ c # cs) = csv_read m f row (c # cs)"
proof (cases "csv_needs_quotes f")
  case True
  then have "csv_read FieldStart [] row (csv_field f @ c # cs) = csv_read AfterQuote f row (c # cs)"
    using csv_read_quoted [of "[]" row f "c # cs"] by (simp add: csv_field_def)
  then show ?thesis by blast
next
  case False
  then show ?thesis
    using csv_read_plain [OF csv_needs_quotes_special [OF False], of FieldStart "[]" row "c # cs"]
    by (cases "f = []") (auto simp: csv_field_def)
qed

lemma csv_read_record:
  "fs \<noteq> [] \<Longrightarrow> csv_read FieldStart [] row (csv_Write fs @ cs) =
     (row @ fs) # csv_read FieldStart [] [] cs"
proof (induction fs arbitrary: row)
  case (Cons f fs)
  show ?case
  proof (cases "fs = []")
    case True
    obtain m where "m \<noteq> InQuotes"
      "csv_read FieldStart [] row (csv_field f @ newline # cs) = csv_read m f row (newline # cs)"
      using csv_read_field [of newline row f cs] by (auto simp: field_end_def)
    with True show ?thesis by (simp add: csv_Write_def)
  next
    case False
    let ?rest = "Join (map csv_field fs) '','' @ newline # cs"
    obtain m where "m \<noteq> InQuotes"
      "csv_read FieldStart [] row (csv_field f @ CHR '','' # ?rest) = csv_read m f row (CHR '','' # ?rest)"
      using csv_read_field [of "CHR '',''" row f ?rest] by (auto simp: field_end_def)
    moreover have "csv_Write (f # fs) @ cs = csv_field f @ CHR '','' # ?rest"
      using False by (simp add: csv_Write_def Join_Cons_neq)
    moreover have "?rest = csv_Write fs @ cs" by (simp add: csv_Write_def)
    ultimately show ?thesis using Cons.IH [OF False, of "row @ [f]"] by simp
  qed
qed simp

lemma csv_read_records:
  "list_all (\<lambda>fs. fs \<noteq> []) rows \<Longrightarrow> csv_read FieldStart [] [] (concat (map csv_Write rows)) = rows"
  by (induction rows) (simp_all add: csv_read_record)

text \<open>
  C21: the CSV document of a list of proposals, read back, has the header and then for every
  proposal one row with its title, authors, SIG, stage, status, date and link, whatever
  commas, quotes and line ends these contain.
\<close>

theorem CSV_round_trip:
  "\<exists>out. PrintProposals L (CSVOutput csv_configs) (map Some ps) \<lparr>Out = [], Err = []\<rparr> =
       Ret \<lparr>Out = out, Err = []\<rparr> \<and>
     csv_read FieldStart [] [] out =
       [''Title'', ''Authors'', ''SIG'', ''Stage'', ''Status'', ''Updated'', ''Link''] #
       map (\<lambda>p. [title_value p, authors_value p, sig_value p, StageOf p, StatusOf p, LastUpdated p,
                link_value p]) ps"
proof -
  let ?rows = "map printConfig_Title csv_configs #
    map (\<lambda>p. map (\<lambda>c. the (valueFunc c) p) csv_configs) ps"
  have titles: "map printConfig_Title csv_configs =
      [''Title'', ''Authors'', ''SIG'', ''Stage'', ''Status'', ''Updated'', ''Link'']"
    by (simp add: DefaultPrintConfigs_def defaultConfig_def printConfig_Title_def)
  have vals: "map (\<lambda>c. the (valueFunc c) p) csv_configs =
      [title_value p, authors_value p, sig_value p, StageOf p, StatusOf p, LastUpdated p, link_value p]" for p
    by (simp add: DefaultPrintConfigs_def defaultConfig_def)
  have "PrintProposals L (CSVOutput csv_configs) (map Some ps) \<lparr>Out = [], Err = []\<rparr> =
      Ret \<lparr>Out = concat (map csv_Write ?rows), Err = []\<rparr>"
    by (simp add: CSV_PrintProposals_def csv_rows_Some [OF configs_have_values(1)] put_out_def)
  moreover have "csv_read FieldStart [] [] (concat (map csv_Write ?rows)) = ?rows"
    by (rule csv_read_records) (simp add: titles vals list_all_iff)
  ultimately show ?thesis by (simp add: titles vals)
qed


section \<open>JSON documents\<close>

lemma fits_strings: "0 < d \<Longrightarrow> fits d (json_strings xs)"
  by (auto simp: json_strings_def split: option.split)

lemma fits_Proposal: "3 < d \<Longrightarrow> fits d (json_Proposal p)"
  by (auto simp: json_Proposal_def json_Milestone_def json_FeatureGate_def omitempty_def fits_strings
      split: option.split)

lemma fits_Proposals: "fits maxNestingDepth (json_Proposals ks)"
  by (auto simp: json_Proposals_def maxNestingDepth_def fits_Proposal split: option.split)

text \<open>
  JSON output is one line: between what the stream held before and the line end that closes it
  there is no control character, in particular no line end, whatever the fields of the
  proposals and their markdown contain.
\<close>

theorem JSON_one_line:
  "\<exists>line. PrintProposals L JSONOutput ks s = Ret (put_out (line @ [newline]) s) \<and>
    list_all printable line"
  using show_json_printable [OF fits_Proposals, of ks] by (auto simp: JSON_PrintProposals_def json_Marshal_def)

text \<open>
  Reading a proposal from a value, the way a decoder does it by the tags of the struct: a field
  whose key is absent keeps its zero value.
\<close>

definition field :: "(string \<times> json) list \<Rightarrow> string \<Rightarrow> json" where
  "field kvs k = (case map_of kvs k of None \<Rightarrow> JNull | Some j \<Rightarrow> j)"

definition fields_of :: "json \<Rightarrow> string \<Rightarrow> json" where
  "fields_of j = (case j of JObj kvs \<Rightarrow> field kvs | _ \<Rightarrow> (\<lambda>k. JNull))"

definition read_text :: "json \<Rightarrow> string" where
  "read_text j = (case j of JStr s \<Rightarrow> s | _ \<Rightarrow> [])"

definition read_list :: "(json \<Rightarrow> 'b) \<Rightarrow> json \<Rightarrow> 'b slice" where
  "read_list f j = (case j of JArr js \<Rightarrow> Some (map f js) | _ \<Rightarrow> None)"

definition read_Milestone :: "json \<Rightarrow> Milestone" where
  "read_Milestone j =
     (let t = (\<lambda>k. read_text (fields_of j k)) in
      \<lparr>m_Alpha = t ''alpha'', m_Beta = t ''beta'', m_Stable = t ''stable'', m_Deprecated = t ''deprecated'',
       m_Removed = t ''removed'', m_Disabled = t ''disabled''\<rparr>)"

definition read_FeatureGate :: "json \<Rightarrow> FeatureGate" where
  "read_FeatureGate j =
     \<lparr>fg_Name = read_text (fields_of j ''name''),
      fg_Components = read_list read_text (fields_of j ''components'')\<rparr>"

definition read_Proposal :: "json \<Rightarrow> Proposal" where
  "read_Proposal j =
     (let v = fields_of j; t = (\<lambda>k. read_text (v k)); ts = (\<lambda>k. read_list read_text (v k)) in
      \<lparr>ID = t ''id'', PRNumber = t ''prNumber'', Name = t ''name'', Path = t ''path'', Title = t ''title'',
       Number = t ''kepNumber'', Authors = ts ''authors'', OwningSIG = t ''owningSig'',
       ParticipatingSIGs = ts ''participatingSigs'', Reviewers = ts ''reviewers'',
       Approvers = ts ''approvers'', Editor = t ''editor'', CreationDate = t ''creationDate'',
       LastUpdated = t ''lastUpdated'', StatusOf = t ''status'', SeeAlso = ts ''seeAlso'',
       Replaces = ts ''replaces'', SupersededBy = ts ''supersededBy'', StageOf = t ''stage'',
       LatestMilestone = t ''latestMilestone'', MilestoneOf = read_Milestone (v ''milestone''),
       FeatureGates = read_list read_FeatureGate (v ''featureGates''),
       DisableSupported = (v ''disableSupported'' = JBool True), Metrics = ts ''metrics'',
       Filename = [], Error = None, Contents = t ''markdown''\<rparr>)"

lemma field_simps:
  "field ((k, j) # kvs) k' = (if k = k' then j else field kvs k')"
  "field (omitempty k v @ kvs) k' = (if v \<noteq> [] \<and> k = k' then JStr v else field kvs k')"
  "field [] k' = JNull"
  by (simp_all add: field_def omitempty_def)

lemma read_simps:
  "read_text (JStr s) = s" "read_text JNull = []" "read_list read_text (json_strings xs) = xs"
  by (simp_all add: read_text_def read_list_def json_strings_def comp_def split: option.split)

lemma read_Milestone: "read_Milestone (json_Milestone m) = m"
  by (simp add: read_Milestone_def json_Milestone_def fields_of_def field_simps read_simps)

lemma read_FeatureGate: "read_FeatureGate (json_FeatureGate g) = g"
  by (simp add: read_FeatureGate_def json_FeatureGate_def fields_of_def field_simps read_simps)

lemma read_FeatureGates:
  "read_list read_FeatureGate (case gs of None \<Rightarrow> JNull | Some gs \<Rightarrow> JArr (map json_FeatureGate gs)) = gs"
  by (simp add: read_list_def comp_def read_FeatureGate split: option.split)

lemma read_Proposal: "read_Proposal (json_Proposal p) = p\<lparr>Filename := [], Error := None\<rparr>"
  unfolding read_Proposal_def json_Proposal_def
  by (simp add: fields_of_def field_simps read_simps read_Milestone read_FeatureGates)

lemma JSON_print_reads:
  assumes "valid_json (json_Proposals (map Some ps))"
  shows "\<exists>line js. PrintProposals L JSONOutput (map Some ps) s = Ret (put_out (line @ [newline]) s) \<and>
    list_all printable line \<and> json_Decode (line @ [newline], None) = Inr (JArr js) \<and>
    map read_Proposal js = map (\<lambda>p. p\<lparr>Filename := [], Error := None\<rparr>) ps"
proof -
  let ?line = "show_json (json_Proposals (map Some ps))"
  have "json_Decode (?line @ [newline], None) = Inr (JArr (map json_Proposal ps))"
    using json_Decode_show [OF fits_Proposals [of "map Some ps"], of "[newline]" None] clean_json_eq [OF assms]
    by (simp add: json_Proposals_def comp_def self_delimiting_def)
  moreover have "list_all printable ?line" by (rule show_json_printable [OF fits_Proposals])
  ultimately show ?thesis
    by (intro exI [of _ ?line] exI [of _ "map json_Proposal ps"])
      (simp add: JSON_PrintProposals_def json_Marshal_def read_Proposal comp_def)
qed

text \<open>
  C22: JSON output can be read back. What is written to the stream is one line without control
  characters, and a decoder of JSON streams finds in it one array with a value for each
  proposal, from which the proposal is read by the tags of its fields: no field is lost or
  confused with another, whatever quotes, line ends or markup the texts contain, as long as they
  are valid UTF-8. Only the file name and the error, which are not marshalled, are absent.
\<close>

theorem JSON_round_trip:
  assumes "valid_json (json_Proposals (map Some ps))"
  shows "\<exists>line js. PrintProposals L JSONOutput (map Some ps) s = Ret (put_out (line @ [newline]) s) \<and>
    list_all printable line \<and> json_Decode (line @ [newline], None) = Inr (JArr js) \<and>
    map read_Proposal js = map (\<lambda>p. p\<lparr>Filename := [], Error := None\<rparr>) ps"
  using assms by (rule JSON_print_reads)

definition sample_out_lib :: out_lib where
  "sample_out_lib =
     \<lparr>yaml_Proposals = (\<lambda>ps. Inr ''[]''),
      table_Append = (\<lambda>rows row. None), table_Render = (\<lambda>hs rows. (Join hs '' | '', None))\<rparr>"

theorem JSON_round_trip_witness:
  "\<exists>line js. PrintProposals sample_out_lib JSONOutput [Some (zero_Proposal\<lparr>Title := ''a \"b\"''\<rparr>)]
      \<lparr>Out = [], Err = []\<rparr> = Ret \<lparr>Out = line @ [newline], Err = []\<rparr> \<and>
     json_Decode (line @ [newline], None) = Inr (JArr js) \<and> map (\<lambda>j. Title (read_Proposal j)) js = [''a \"b\"'']"
proof -
  let ?p = "zero_Proposal\<lparr>Title := ''a \"b\"''\<rparr>"
  have "valid_json (json_Proposals (map Some [?p]))" by code_simp
  from JSON_round_trip [OF this, of sample_out_lib "\<lparr>Out = [], Err = []\<rparr>"]
  obtain line js where p: "PrintProposals sample_out_lib JSONOutput [Some ?p] \<lparr>Out = [], Err = []\<rparr> =
      Ret \<lparr>Out = line @ [newline], Err = []\<rparr>" and d: "json_Decode (line @ [newline], None) = Inr (JArr js)"
    and r: "map read_Proposal js = [?p\<lparr>Filename := [], Error := None\<rparr>]"
    by (auto simp: put_out_def)
  from r have "map Title (map read_Proposal js) = [''a \"b\"'']" by simp
  with p d show ?thesis by (auto simp: comp_def)
qed

theorem NewOutput_valid_witness:
  "\<exists>s'. PrintProposals sample_out_lib (TableOutput table_configs) (map Some [zero_Proposal])
     \<lparr>Out = ''x'', Err = []\<rparr> = Ret s' \<and> prefix ''x'' (Out s')"
  using NewOutput_valid [of "''table''" "TableOutput table_configs" sample_out_lib "[zero_Proposal]"
      "\<lparr>Out = ''x'', Err = []\<rparr>"]
  by (simp add: NewOutput_def ValidFormats_def del: PrintProposals.simps)

end
