(* ===== verification/KepctlProps.thy ===== *)
theory KepctlProps
  imports Kepctl ProposalCmdsProps OutputProps
begin

text \<open>
  Properties of kepctl: what the query command prints, from the command line to the output
  streams, that every command ends, and that the promote command does not get to see the KEP
  it is given.
\<close>

section \<open>The query command\<close>

lemma Execute_query:
  assumes "i_command i = QueryCmd"
  shows "Execute L O' setup order now path w s i =
    (case initLogging setup (root_flags path (i_flags i)) of
       Some e \<Rightarrow> Some (Ret (w, s, Some e))
     | None \<Rightarrow> cmd_query L O' order w s (root_flags path (i_flags i)) i)"
  using assms by (simp add: Execute_def Let_def split: option.splits)

lemma runQuery_cases:
  assumes "errors_lib_ok L" and "runQuery L O' order w s ro opts = Some (Ret (w', s', eo))"
  shows "(eo \<noteq> None \<and> s' = s) \<or>
    (\<exists>r r' opts' res o'. eo = None \<and> New L w (RepoPath ro) = (Some r, None) \<and>
       Query L order w (r\<lparr>TokenPath := k_TokenPath ro\<rparr>) opts = Some (Ret (w', r', opts', Some res, None)) \<and>
       NewOutput (q_Output opts') = Inr o' \<and> PrintProposals O' o' res s = Ret s')"
proof -
  obtain rc e0 where n: "New L w (RepoPath ro) = (rc, e0)" by force
  show ?thesis
  proof (cases "e0 = None \<and> rc \<noteq> None")
    case False
    with assms(2) n errors_Wrap_None_iffs [OF assms(1)] show ?thesis
      by (cases e0; cases rc) (auto simp: runQuery_def)
  next
    case True
    then obtain r where r: "rc = Some r" "e0 = None" by auto
    let ?r = "r\<lparr>TokenPath := k_TokenPath ro\<rparr>"
    from assms(2) n r obtain x where "Query L order w ?r opts = Some x"
      by (cases "Query L order w ?r opts") (auto simp: runQuery_def)
    with assms(2) n r obtain w1 r1 o1 ks e1 where q: "Query L order w ?r opts = Some (Ret (w1, r1, o1, ks, e1))"
      by (cases x) (auto simp: runQuery_def)
    show ?thesis
    proof (cases e1)
      case (Some e)
      with assms(2) n r q show ?thesis by (auto simp: runQuery_def)
    next
      case None
      then obtain res where res: "ks = Some res" using q Query_nil [OF assms(1)] by (cases ks) blast+
      show ?thesis
        using assms(2) n r q None res
        by (cases "NewOutput (q_Output o1)"; cases "PrintProposals O' (projr (NewOutput (q_Output o1))) res s")
          (auto simp: runQuery_def)
    qed
  qed
qed

text \<open>
  C39: the query command prints, in the format asked for, exactly the KEPs of the selected groups
  that meet the criteria of its flags, in the order they were loaded from the repository at the
  path of the global flag; when it fails it prints no KEP at all.
\<close>

theorem query_command_prints:
  assumes "errors_lib_ok L" and "i_command i = QueryCmd"
    and "Execute L O' setup order now path w s i = Some (Ret (w', s', eo))"
  shows "(eo \<noteq> None \<longrightarrow> s' = s) \<and>
    (eo = None \<longrightarrow>
      (\<exists>r r1 r2 opts all eo' o'.
         New L w (RepoPath (root_flags path (i_flags i))) = (Some r, None) \<and>
         kept (r\<lparr>TokenPath := k_TokenPath (root_flags path (i_flags i))\<rparr>) r1 \<and>
         PrepareQueryOpts L (r\<lparr>TokenPath := k_TokenPath (root_flags path (i_flags i))\<rparr>) (query_flags (i_flags i)) = (opts, None) \<and>
         load_groups L order w r1 (q_IncludePRs opts) (q_Groups opts) [] = Some (Ret (w', r2, Some (map Some all), eo')) \<and>
         NewOutput (q_Output opts) = Inr o' \<and>
         PrintProposals O' o' (map Some (filter (query_spec opts) all)) s = Ret s'))"
proof -
  let ?ro = "root_flags path (i_flags i)"
  have "(eo \<noteq> None \<and> s' = s) \<or> runQuery L O' order w s ?ro (query_flags (i_flags i)) = Some (Ret (w', s', eo))"
    using assms(3) unfolding Execute_query [OF assms(2)] cmd_query_def Let_def
    by (cases "initLogging setup ?ro"; cases "QueryOpts_Validate (query_flags (i_flags i))"; simp) blast+
  then consider "eo \<noteq> None" "s' = s"
    | r r' opts' res o' where "eo = None" "New L w (RepoPath ?ro) = (Some r, None)"
       "Query L order w (r\<lparr>TokenPath := k_TokenPath ?ro\<rparr>) (query_flags (i_flags i)) = Some (Ret (w', r', opts', Some res, None))"
       "NewOutput (q_Output opts') = Inr o'" "PrintProposals O' o' res s = Ret s'"
    using runQuery_cases [OF assms(1)] by metis
  then show ?thesis
  proof cases
    case 2
    from Query_loaded [OF 2(3)] obtain r1 all eo' where
      p: "PrepareQueryOpts L (r\<lparr>TokenPath := k_TokenPath ?ro\<rparr>) (query_flags (i_flags i)) = (opts', None)" and
      g: "load_groups L order w r1 (q_IncludePRs opts') (q_Groups opts') [] = Some (Ret (w', r', Some (map Some all), eo'))"
        "kept (r\<lparr>TokenPath := k_TokenPath ?ro\<rparr>) r1" and res: "res = map Some (filter (query_spec opts') all)"
      by blast
    with 2 show ?thesis by blast
  qed blast
qed

text \<open>What is asked of a query without flags: everything, as a table.\<close>

lemma query_flags_none:
  assumes "given_string fl = Map.empty" and "given_strings fl = Map.empty" and "given_bool fl = Map.empty"
  shows "query_spec (query_flags fl) k \<and> q_Groups (query_flags fl) = [] \<and> QueryOpts_Validate (query_flags fl) = None"
  using assms by (simp add: query_flags_def StringsVar_def StringVar_def BoolVar_def query_spec_def meets_def
      QueryOpts_Validate_def DefaultFormat_def ValidFormats_def)


section \<open>Every command ends\<close>

lemma runQuery_returns:
  assumes "q_IncludePRs opts \<longrightarrow> pages_ascend L"
  shows "\<exists>res. runQuery L O' order w s ro opts = Some res"
proof -
  obtain rc e0 where n: "New L w (RepoPath ro) = (rc, e0)" by force
  show ?thesis
  proof (cases "e0 = None \<and> rc \<noteq> None")
    case False
    with n show ?thesis by (cases e0; cases rc) (auto simp: runQuery_def)
  next
    case True
    then obtain r where r: "rc = Some r" "e0 = None" by auto
    obtain res where q: "Query L order w (r\<lparr>TokenPath := k_TokenPath ro\<rparr>) opts = Some res"
      using Query_returns [OF assms] by blast
    with n r show ?thesis
      by (cases res) (auto simp: runQuery_def split: option.split sum.split outcome.split)
  qed
qed

text \<open>
  Every command ends, whatever the command line, the files and the answers of the services are;
  only a query that includes pull requests needs, for that, the service to number the pages of
  its listing in ascending order up to a last one.
\<close>

lemma Execute_returns:
  assumes "i_command i = QueryCmd \<and> q_IncludePRs (query_flags (i_flags i)) \<longrightarrow> pages_ascend L"
  shows "\<exists>res. Execute L O' setup order now path w s i = Some res"
proof (cases "i_command i")
  case QueryCmd
  with assms have "\<exists>res. runQuery L O' order w s (root_flags path (i_flags i)) (query_flags (i_flags i)) = Some res"
    by (intro runQuery_returns) blast
  then show ?thesis unfolding Execute_query [OF QueryCmd] cmd_query_def Let_def
    by (simp split: option.split)
qed (auto simp: Execute_def Let_def with_streams_def split: option.splits outcome.splits)


section \<open>The promote command\<close>

lemma promote_path: "FJoin [ProposalPathStub, [], [], ProposalMetadataFilename] = ''keps/kep.yaml''"
  by code_simp

text \<open>
  The promote command takes its KEP as an argument that nothing reads: it looks for the file
  keps/kep.yaml, whatever the arguments and flags are, and fails without changing anything
  when there is none.
\<close>

theorem promote_command_ignores_its_argument:
  assumes "errors_lib_ok L" and "i_command i = PromoteCmd" and "Stat w ''keps/kep.yaml'' = Inl e"
  shows "\<exists>e'. Execute L O' setup order now path w s i = Some (Ret (w, s, Some e'))"
proof -
  have load: "\<exists>e'. LoadLocalKEP_ptr L w ro [] [] = Ret (ro, None, Some e')" for ro
    using errors_Wrap_Some [OF assms(1), of e "''getting file info for keps/kep.yaml''"] assms(3)
    by (cases ro) (auto simp: LoadLocalKEP_ptr_def LoadLocalKEP_def promote_path)
  let ?po = "promote_flags (i_flags i)"
  have "\<exists>e'. runPromote L w (root_flags path (i_flags i)) ?po = Ret (w, Some e')"
  proof -
    obtain rc eo where n: "New L w (RepoPath (root_flags path (i_flags i))) = (rc, eo)" by force
    show ?thesis
    proof (cases eo)
      case None
      obtain e' where "LoadLocalKEP_ptr L w rc [] [] = Ret (rc, None, Some e')" using load by blast
      with n None show ?thesis by (simp add: runPromote_def Promote_def promote_flags_def)
    next
      case (Some e1)
      with n errors_Wrap_Some [OF assms(1), of e1 "''creating repo client''"] show ?thesis
        by (auto simp: runPromote_def)
    qed
  qed
  then show ?thesis
    by (auto simp: Execute_def Let_def assms(2) cmd_promote_def PromoteOpts_Validate_def with_streams_def
        split: option.splits)
qed


section \<open>Samples\<close>

definition sample_flags :: flags where
  "sample_flags =
     \<lparr>given_string = [''repo-path'' \<mapsto> ''/repo'', ''output'' \<mapsto> ''json''],
      given_strings = [''status'' \<mapsto> [''provisional''], ''sig'' \<mapsto> [''node''], ''author'' \<mapsto> [''@ann'']],
      given_bool = Map.empty\<rparr>"

definition sample_invocation :: "command \<Rightarrow> invocation" where
  "sample_invocation c = \<lparr>i_command = c, i_flags = sample_flags, i_args = [''sig-node/1-a'']\<rparr>"

abbreviation sample_execute :: "command \<Rightarrow> streams \<Rightarrow> (fsys \<times> streams \<times> goerr option) outcome option" where
  "sample_execute c s \<equiv>
     Execute sample_repo_lib sample_out_lib (\<lambda>_. None) id sample_date [] sample_repo_fs s (sample_invocation c)"

lemma sample_default_groups:
  "FetchGroups sample_repo_lib DefaultGroupFetcher = ([''sig-api'', ''sig-node''], None)"
proof -
  let ?ls = "[''- dir: sig-node'', ''- dir: sig-api'']"
  have ls: "list_all text_line ?ls"
    by (simp add: text_line_def newline_def carriage_return_def MaxScanTokenSize_def)
  have dirs: "group_matches ?ls = [''sig-node'', ''sig-api'']" by code_simp
  define f where "f = (case DefaultGroupFetcher of RemoteFetcher f \<Rightarrow> f)"
  have f: "DefaultGroupFetcher = RemoteFetcher f" by (simp add: f_def DefaultGroupFetcher_def)
  have "net_Get sample_repo_lib (GroupsListURL f) = Inr \<lparr>StatusCode = 200, Body = (unlines ?ls, None)\<rparr>"
    by (simp add: f_def DefaultGroupFetcher_def sample_repo_lib_simps sample_Get_def)
  then have "FetchGroups sample_repo_lib (RemoteFetcher f) = (sort (group_matches ?ls), None)"
    unfolding FetchGroups.simps Remote_FetchGroups_def Let_def
    by (simp only: sum.case http_response.simps scan_unlines [OF ls] option.case) simp
  then show ?thesis unfolding f dirs by simp
qed

lemma sample_default_approvers:
  "FetchPRRApprovers sample_repo_lib DefaultGroupFetcher = ([''ann''], None)"
  by (simp add: DefaultGroupFetcher_def Remote_FetchPRRApprovers_def sample_repo_lib_simps sample_Get_def ReadAll_def
      UnmarshalStrict_def sample_Aliases_decoder_def)

lemma NewRepo_fetcher_cong:
  assumes "FetchGroups L f = FetchGroups L f'" and "FetchPRRApprovers L f = FetchPRRApprovers L f'"
  shows "NewRepo L w p f = NewRepo L w p f'"
  unfolding NewRepo_def NewRepo_at_def assms by (rule refl)

lemma sample_New: "New sample_repo_lib sample_repo_fs ''/repo'' = (Some sample_repo, None)"
proof -
  have "FetchGroups sample_repo_lib sample_fetcher = ([''sig-api'', ''sig-node''], None)"
    "FetchPRRApprovers sample_repo_lib sample_fetcher = ([''ann''], None)"
    by (simp_all add: sample_fetcher_def NewMockGroupFetcher_def Mock_FetchGroups_def Mock_FetchPRRApprovers_def)
  with sample_default_groups sample_default_approvers sample_new_repo show ?thesis
    unfolding New_def using NewRepo_fetcher_cong [of sample_repo_lib DefaultGroupFetcher sample_fetcher] by metis
qed

lemma sample_query_flags:
  "query_flags sample_flags = sample_opts\<lparr>q_PRRApprover := []\<rparr>"
  "RepoPath (root_flags [] sample_flags) = ''/repo''" "k_TokenPath (root_flags [] sample_flags) = []"
  "sample_repo\<lparr>TokenPath := []\<rparr> = sample_repo" "q_Output sample_opts = ''json''"
  "QueryOpts_Validate (query_flags sample_flags) = None"
  by (simp_all add: sample_flags_def query_flags_def root_flags_def StringVar_def StringsVar_def BoolVar_def
      sample_opts_def sample_repo_def make_Repo_def QueryOpts_Validate_def ValidFormats_def)

lemma sample_query_command:
  "sample_execute QueryCmd s =
   Some (Ret (sample_repo_fs, put_out (show_json (json_Proposals (map Some sample_loaded)) @ [newline]) s, None))"
proof -
  have "runQuery sample_repo_lib sample_out_lib id sample_repo_fs s (root_flags [] sample_flags) (query_flags sample_flags) =
      Some (Ret (sample_repo_fs, put_out (show_json (json_Proposals (map Some sample_loaded)) @ [newline]) s, None))"
    by (simp add: runQuery_def sample_query_flags sample_New sample_query NewOutput_def JSON_PrintProposals_def
        json_Marshal_def)
  then show ?thesis
    by (simp add: Execute_def Let_def initLogging_def sample_invocation_def cmd_query_def sample_query_flags(6))
qed

theorem query_command_prints_witness:
  "\<exists>s' opts all o'. sample_execute QueryCmd \<lparr>Out = [], Err = []\<rparr> = Some (Ret (sample_repo_fs, s', None)) \<and>
     NewOutput (q_Output opts) = Inr o' \<and>
     PrintProposals sample_out_lib o' (map Some (filter (query_spec opts) all)) \<lparr>Out = [], Err = []\<rparr> = Ret s'"
proof -
  have "i_command (sample_invocation QueryCmd) = QueryCmd" by (simp add: sample_invocation_def)
  from query_command_prints [OF sample_repo_lib_ok(2) this sample_query_command] sample_query_command
  show ?thesis by blast
qed

lemma promote_command_sample:
  "\<exists>e. sample_execute PromoteCmd s = Some (Ret (sample_repo_fs, s, Some e))"
proof -
  have "Stat sample_repo_fs ''keps/kep.yaml'' = Inl (PathError ''stat'' ''keps/kep.yaml'' ENOENT)" by code_simp
  moreover have "i_command (sample_invocation PromoteCmd) = PromoteCmd" by (simp add: sample_invocation_def)
  ultimately show ?thesis
    using promote_command_ignores_its_argument [OF sample_repo_lib_ok(2)] by blast
qed

end
