(* ===== verification/RepoLocal.thy ===== *)
theory RepoLocal
  imports RepoQueryProps
begin

text \<open>
  Queries that do not include pull requests, as a function of the files alone: which metadata
  files they read, what a file stands for, and that the result is the KEPs of these files that
  meet the criteria, or an error when one of them cannot be read.
\<close>

section \<open>The KEPs of a group\<close>

text \<open>A group whose directory is missing has no KEPs; any other directory must be listable.\<close>

definition sig_node :: "fsys \<Rightarrow> Repo \<Rightarrow> string \<Rightarrow> errno + fnode" where
  "sig_node w r sig = find_node w (FJoin [ProposalPath r, sig])"

definition sig_ok :: "fsys \<Rightarrow> Repo \<Rightarrow> string \<Rightarrow> bool" where
  "sig_ok w r sig \<longleftrightarrow> plain sig \<and>
     (case sig_node w r sig of
        Inl e \<Rightarrow> e = ENOENT
      | Inr n \<Rightarrow> node_mode n = ModeDir \<and> plain_names n \<and> listable n)"

definition kep_files :: "fsys \<Rightarrow> Repo \<Rightarrow> string \<Rightarrow> string list" where
  "kep_files w r sig =
     (case sig_node w r sig of Inl e \<Rightarrow> [] | Inr n \<Rightarrow> map slashed (metas [''keps'', sig] n))"

text \<open>What a metadata file stands for: the decoded proposal with its name and path.\<close>

definition read_kep :: "'a repo_lib_scheme \<Rightarrow> fsys \<Rightarrow> string \<Rightarrow> string \<Rightarrow> Proposal option" where
  "read_kep L w base f =
     (case ReadFile w (FJoin [base, f]) of
        Inl e \<Rightarrow> None
      | Inr b \<Rightarrow>
          (case yaml_Proposal_value L True b zero_Proposal of
             (p, Some e) \<Rightarrow> None
           | (p, None) \<Rightarrow> Some (with_location f p)))"

text \<open>The KEPs that the files of the groups stand for, or None when one cannot be read.\<close>

definition keps_of_groups :: "'a repo_lib_scheme \<Rightarrow> fsys \<Rightarrow> Repo \<Rightarrow> string list \<Rightarrow> Proposal list option" where
  "keps_of_groups L w r sigs =
     those (map (read_kep L w (BasePath r)) (concat (map (kep_files w r) sigs)))"

lemma findLocalKEPMeta_kep_files:
  assumes "repo_paths r" and "sig_ok w r sig"
  shows "findLocalKEPMeta w r sig = Ret (kep_files w r sig, None)"
proof (cases "sig_node w r sig")
  case (Inl e)
  with assms(2) show ?thesis
    by (simp add: sig_ok_def sig_node_def kep_files_def findLocalKEPMeta_def Let_def Stat_def find_followed_def)
next
  case (Inr n)
  with assms(2) have n: "plain sig" "node_mode n = ModeDir" "plain_names n" "listable n"
    by (simp_all add: sig_ok_def)
  then obtain pm es where "n = DirN pm es" by (cases n) auto
  with n Inr findLocalKEPMeta_metas [OF assms(1) n(1), of w pm es] show ?thesis
    by (simp add: sig_node_def kep_files_def)
qed

lemma loadKEPFromYaml_read:
  assumes "validator_PRR_ok L" and "errors_lib_ok L"
  shows "case read_kep L w base f of
      Some p \<Rightarrow> \<exists>r'. loadKEPFromYaml L w r base f = Ret (r', Inr p)
    | None \<Rightarrow> \<exists>r' e. loadKEPFromYaml L w r base f = Ret (r', Inl e)"
proof (cases "ReadFile w (FJoin [base, f])")
  case (Inl e)
  then show ?thesis by (simp add: read_kep_def loadKEPFromYaml_def)
next
  case (Inr b)
  obtain p eo where d: "yaml_Proposal_value L True b zero_Proposal = (p, eo)" by force
  show ?thesis
  proof (cases eo)
    case (Some e)
    with Inr d show ?thesis by (simp add: read_kep_def loadKEPFromYaml_def UnmarshalStrict_def)
  next
    case None
    let ?p = "with_location f p" and ?d = "FJoin [base, ProposalPathStub, PRRApprovalPathStub]"
    have "ValidatePRR L w ?p (PRRHandler r) ?d \<noteq> Panic" using ValidatePRR_nil [OF assms] by blast
    then obtain h e where "ValidatePRR L w ?p (PRRHandler r) ?d = Ret (h, e)"
      by (cases "ValidatePRR L w ?p (PRRHandler r) ?d") auto
    with Inr d None show ?thesis
      by (simp add: read_kep_def loadKEPFromYaml_def UnmarshalStrict_def Let_def)
  qed
qed

lemma those_append: "those (xs @ ys) = (case those xs of None \<Rightarrow> None | Some a \<Rightarrow> map_option (\<lambda>b. a @ b) (those ys))"
  by (induction xs) (auto simp: option.map_comp comp_def map_option_case split: option.splits)

lemma load_files_read:
  assumes "validator_PRR_ok L" and "errors_lib_ok L"
  shows "\<exists>r'. kept r r' \<and>
    (case those (map (read_kep L w (BasePath r)) fs) of
       Some ps \<Rightarrow> load_files L w r fs keps = Ret (r', Some (keps @ map Some ps), None)
     | None \<Rightarrow> \<exists>e. load_files L w r fs keps = Ret (r', None, Some e))"
proof (induction fs arbitrary: r keps)
  case (Cons f fs)
  note load = loadKEPFromYaml_read [OF assms, where w = w and base = "BasePath r" and f = f and r = r]
  show ?case
  proof (cases "read_kep L w (BasePath r) f")
    case None
    with load obtain r1 e where l: "loadKEPFromYaml L w r (BasePath r) f = Ret (r1, Inl e)" by auto
    obtain e' where "errors_Wrap L (Some e) (''reading KEP '' @ f @ '' from yaml'') = Some e'"
      using errors_Wrap_ex [OF assms(2)] by blast
    with None l loadKEPFromYaml_keeps [OF l] show ?thesis by (intro exI [of _ r1]) simp
  next
    case (Some p)
    with load obtain r1 where l: "loadKEPFromYaml L w r (BasePath r) f = Ret (r1, Inr p)" by auto
    have k: "kept r r1" by (rule loadKEPFromYaml_keeps [OF l])
    then have b: "BasePath r1 = BasePath r" by (simp add: kept_def)
    from Cons.IH [of r1 "keps @ [Some p]"] obtain r2 where "kept r1 r2"
      "case those (map (read_kep L w (BasePath r)) fs) of
         Some ps \<Rightarrow> load_files L w r1 fs (keps @ [Some p]) = Ret (r2, Some ((keps @ [Some p]) @ map Some ps), None)
       | None \<Rightarrow> \<exists>e. load_files L w r1 fs (keps @ [Some p]) = Ret (r2, None, Some e)"
      unfolding b by blast
    with Some l kept_trans [OF k] show ?thesis by (intro exI [of _ r2]) (auto split: option.splits)
  qed
qed simp

lemma kept_files:
  assumes "kept r r'"
  shows "kep_files w r' sig = kep_files w r sig" "sig_ok w r' sig = sig_ok w r sig" "repo_paths r' = repo_paths r"
    "BasePath r' = BasePath r"
  using assms by (simp_all add: kept_def kep_files_def sig_ok_def sig_node_def repo_paths_def)

lemma load_groups_read:
  assumes "validator_PRR_ok L" and "errors_lib_ok L"
  shows "repo_paths r \<Longrightarrow> \<forall>sig\<in>set sigs. sig_ok w r sig \<Longrightarrow> \<exists>r'. kept r r' \<and>
    (case those (map (read_kep L w (BasePath r)) (concat (map (kep_files w r) sigs))) of
       Some ps \<Rightarrow> load_groups L order w r False sigs keps = Some (Ret (w, r', Some (keps @ map Some ps), None))
     | None \<Rightarrow> \<exists>e. load_groups L order w r False sigs keps = Some (Ret (w, r', None, Some e)))"
proof (induction sigs arbitrary: r keps)
  case (Cons sig sigs)
  have l: "LoadLocalKEPs L w r sig = load_files L w r (kep_files w r sig) []"
    using findLocalKEPMeta_kep_files [of r w sig] Cons.prems by (simp add: LoadLocalKEPs_def)
  from load_files_read [OF assms, of r w "kep_files w r sig" "[]"] obtain r1 where k: "kept r r1"
    and f: "case those (map (read_kep L w (BasePath r)) (kep_files w r sig)) of
       Some ps \<Rightarrow> load_files L w r (kep_files w r sig) [] = Ret (r1, Some (map Some ps), None)
     | None \<Rightarrow> \<exists>e. load_files L w r (kep_files w r sig) [] = Ret (r1, None, Some e)"
    unfolding append_Nil by blast
  show ?case
  proof (cases "those (map (read_kep L w (BasePath r)) (kep_files w r sig))")
    case None
    with f obtain e where "load_files L w r (kep_files w r sig) [] = Ret (r1, None, Some e)" by auto
    moreover obtain e' where "errors_Wrap L (Some e) ''loading local KEPs'' = Some e'"
      using errors_Wrap_ex [OF assms(2)] by blast
    ultimately show ?thesis using None k l by (intro exI [of _ r1]) (simp add: those_append)
  next
    case (Some ps)
    with f have lf: "load_files L w r (kep_files w r sig) [] = Ret (r1, Some (map Some ps), None)" by simp
    note same = kept_files [OF k]
    have "\<forall>sig\<in>set sigs. sig_ok w r1 sig" "repo_paths r1" using Cons.prems by (simp_all add: same)
    from Cons.IH [OF this(2,1), of "keps @ map Some ps"] obtain r2 where "kept r1 r2"
      "case those (map (read_kep L w (BasePath r)) (concat (map (kep_files w r) sigs))) of
         Some qs \<Rightarrow> load_groups L order w r1 False sigs (keps @ map Some ps) =
           Some (Ret (w, r2, Some ((keps @ map Some ps) @ map Some qs), None))
       | None \<Rightarrow> \<exists>e. load_groups L order w r1 False sigs (keps @ map Some ps) = Some (Ret (w, r2, None, Some e))"
      unfolding same by blast
    with Some lf l kept_trans [OF k] show ?thesis
      by (intro exI [of _ r2]) (auto simp: those_append Let_def split: option.splits)
  qed
qed simp

lemma filter_keps_Some:
  "filter_keps L opts (map Some ps) acc = Inr (acc @ map Some (filter (query_spec opts) ps))"
  by (induction ps arbitrary: acc) (simp_all add: query_match_spec)


section \<open>Local queries\<close>

text \<open>The token file, if there is one to read.\<close>

definition token_ok :: "fsys \<Rightarrow> Repo \<Rightarrow> bool" where
  "token_ok w r \<longleftrightarrow> TokenPath r = [] \<or> (\<exists>t. ReadFile w (TokenPath r) = Inr t)"

lemma Query_local_read:
  assumes "validator_PRR_ok L" and "errors_lib_ok L" and "repo_paths r" and "token_ok w r"
    and "\<not> q_IncludePRs opts" and "PrepareQueryOpts L r opts = (opts', None)"
    and "\<forall>sig\<in>set (q_Groups opts'). sig_ok w r sig"
  shows "\<exists>r'. kept r r' \<and>
    (case those (map (read_kep L w (BasePath r)) (concat (map (kep_files w r) (q_Groups opts')))) of
       Some ps \<Rightarrow> Query L order w r opts =
         Some (Ret (w, r', opts', Some (map Some (filter (query_spec opts') ps)), None))
     | None \<Rightarrow> \<exists>e. Query L order w r opts = Some (Ret (w, r', opts', None, Some e)))"
proof -
  obtain r1 where k: "kept r r1" and q: "Query L order w r opts = Query_collect L order w r1 opts'"
  proof (cases "TokenPath r = []")
    case True
    with assms(6) show ?thesis by (intro that [of r]) (simp_all add: Query_def)
  next
    case False
    with assms(4) obtain t where "ReadFile w (TokenPath r) = Inr t" by (auto simp: token_ok_def)
    with False assms(6) show ?thesis
      by (intro that [of "r\<lparr>Token := Trim t [newline, carriage_return]\<rparr>"]) (simp_all add: Query_def SetGitHubToken_def)
  qed
  have prs: "q_IncludePRs opts' = False"
    using assms(5,6) by (auto simp: PrepareQueryOpts_def Let_def split: option.splits prod.splits if_splits)
  note same = kept_files [OF k]
  have ok: "repo_paths r1" "\<forall>sig\<in>set (q_Groups opts'). sig_ok w r1 sig" using assms(3,7) by (simp_all add: same)
  from load_groups_read [OF assms(1,2) ok, where keps = "[]" and order = order] obtain r2 where r2: "kept r1 r2"
    "case those (map (read_kep L w (BasePath r)) (concat (map (kep_files w r) (q_Groups opts')))) of
       Some ps \<Rightarrow> load_groups L order w r1 False (q_Groups opts') [] = Some (Ret (w, r2, Some (map Some ps), None))
     | None \<Rightarrow> \<exists>e. load_groups L order w r1 False (q_Groups opts') [] = Some (Ret (w, r2, None, Some e))"
    unfolding same append_Nil by blast
  with kept_trans [OF k r2(1)] show ?thesis
    using filter_keps_Some [where L = L and opts = opts' and acc = "[]"]
    by (intro exI [of _ r2]) (auto simp: q Query_collect_def prs split: option.splits)
qed

text \<open>
  C31: a query without pull requests is a function of the files. Once its options are prepared, it
  reads the metadata files below the directories of the selected groups. If all of them can be
  read and decoded, it returns exactly the KEPs they stand for that meet all criteria, in the
  order of the groups and of the traversal; if one cannot, it returns an error and no KEP. It
  changes no file, and of the client only the token and the collected errors.
\<close>

theorem Query_refines:
  assumes "validator_PRR_ok L" and "errors_lib_ok L" and "repo_paths r" and "token_ok w r"
    and "\<not> q_IncludePRs opts" and "PrepareQueryOpts L r opts = (opts', None)"
    and "\<forall>sig\<in>set (q_Groups opts'). sig_ok w r sig"
  shows "\<exists>r'. kept r r' \<and>
    (case keps_of_groups L w r (q_Groups opts') of
       Some ps \<Rightarrow> Query L order w r opts =
         Some (Ret (w, r', opts', Some (map Some (filter (query_spec opts') ps)), None))
     | None \<Rightarrow> \<exists>e. Query L order w r opts = Some (Ret (w, r', opts', None, Some e)))"
  using assms unfolding keps_of_groups_def by (rule Query_local_read)

lemma sample_kep_files:
  "kep_files sample_repo_fs sample_repo ''sig-node'' =
     [''keps/sig-node/1-a/kep.yaml'', ''keps/sig-node/2-b/kep.yaml'']"
  "sig_ok sample_repo_fs sample_repo ''sig-node''"
  by code_simp+

lemma sample_read_keps:
  "keps_of_groups sample_repo_lib sample_repo_fs sample_repo [''sig-node''] = Some sample_loaded"
  using sample_found(2,3) by (simp add: keps_of_groups_def sample_kep_files read_kep_def sample_loaded_def)

theorem Query_refines_witness:
  "\<exists>r'. Query sample_repo_lib id sample_repo_fs sample_repo (sample_opts\<lparr>q_PRRApprover := []\<rparr>) =
     Some (Ret (sample_repo_fs, r', sample_opts\<lparr>q_Groups := [''sig-node''], q_PRRApprover := []\<rparr>,
       Some (map Some (filter (query_spec (sample_opts\<lparr>q_Groups := [''sig-node''], q_PRRApprover := []\<rparr>)) sample_loaded)), None))"
proof -
  have "token_ok sample_repo_fs sample_repo" by (simp add: token_ok_def sample_repo_def make_Repo_def)
  from Query_refines [OF sample_repo_lib_ok(1,2) sample_repo_paths this _ sample_prepare [of "[]"], of id]
  show ?thesis
    using sample_read_keps sample_kep_files(2) by (auto simp: sample_opts_def)
qed

end
