(* ===== verification/KepctlQuery.thy ===== *)
theory KepctlQuery
  imports KepctlProps RepoLocal
begin

text \<open>
  The query command end to end: from the flags of the command line and the files of the
  repository to the exit code and to the JSON document on the standard output.
\<close>

lemma Getwd_not_nil: "Getwd w = Inr wd \<Longrightarrow> wd \<noteq> []"
  by (auto simp: Getwd_def render_def split: if_splits sum.splits fnode.splits)

lemma New_repo_paths:
  assumes "New L w p = (Some r, eo)"
  shows "repo_paths r"
  using assms NewRepo_at_opened [of p L w DefaultGroupFetcher r eo] Getwd_not_nil [of w]
    NewRepo_at_opened [where L = L and w = w and fetcher = DefaultGroupFetcher and r = r and eo = eo]
  by (auto simp: New_def NewRepo_def opened_def split: if_splits sum.splits)

lemma PrepareQueryOpts_token: "PrepareQueryOpts L (r\<lparr>TokenPath := t\<rparr>) opts = PrepareQueryOpts L r opts"
proof -
  have "KEPHandler (r\<lparr>TokenPath := t\<rparr>) = KEPHandler r" by simp
  then show ?thesis unfolding PrepareQueryOpts_def by (simp only:)
qed

lemma PrepareQueryOpts_output: "PrepareQueryOpts L r opts = (opts', eo) \<Longrightarrow> q_Output opts' = q_Output opts"
  by (auto simp: PrepareQueryOpts_def Let_def split: option.splits prod.splits if_splits)

lemma PrepareQueryOpts_valid: "PrepareQueryOpts L r opts = (opts', None) \<Longrightarrow> QueryOpts_Validate opts = None"
  by (auto simp: PrepareQueryOpts_def Let_def split: option.splits prod.splits if_splits)

section \<open>The exit code\<close>

lemma Query_local_ends:
  assumes "validator_PRR_ok L" and "errors_lib_ok L" and "repo_paths r" and "\<not> q_IncludePRs opts"
    and "\<forall>opts'. PrepareQueryOpts L r opts = (opts', None) \<longrightarrow> (\<forall>sig\<in>set (q_Groups opts'). sig_ok w r sig)"
  shows "\<exists>r' opts' res eo. Query L order w r opts = Some (Ret (w, r', opts', res, eo)) \<and>
    (eo = None \<longleftrightarrow> (\<exists>opts'. PrepareQueryOpts L r opts = (opts', None) \<and> token_ok w r \<and>
       keps_of_groups L w r (q_Groups opts') \<noteq> None)) \<and>
    (eo = None \<longrightarrow> (\<exists>ps. res = Some (map Some ps)) \<and> q_Output opts' = q_Output opts)"
proof -
  obtain o1 e1 where p: "PrepareQueryOpts L r opts = (o1, e1)" by force
  show ?thesis
  proof (cases "e1 = None \<and> token_ok w r")
    case True
    with p assms(5) have "PrepareQueryOpts L r opts = (o1, None)" "\<forall>sig\<in>set (q_Groups o1). sig_ok w r sig" by auto
    from Query_local_read [OF assms(1-3) _ assms(4) this, where order = order] True
      PrepareQueryOpts_output [OF this(1)] this(1)
    show ?thesis by (cases "keps_of_groups L w r (q_Groups o1)") (auto simp: keps_of_groups_def)
  next
    case False
    have "\<exists>r' e. Query L order w r opts = Some (Ret (w, r', o1, None, Some e))"
    proof (cases e1)
      case None
      with False have t: "TokenPath r \<noteq> []" "\<nexists>t. ReadFile w (TokenPath r) = Inr t" by (auto simp: token_ok_def)
      then obtain e where "ReadFile w (TokenPath r) = Inl e" by (cases "ReadFile w (TokenPath r)") auto
      moreover obtain e' where "errors_Wrap L (Some e) ''setting GitHub token'' = Some e'"
        using errors_Wrap_ex [OF assms(2)] by blast
      ultimately show ?thesis using p None t by (simp add: Query_def SetGitHubToken_def)
    qed (simp add: Query_def p)
    with False p show ?thesis by auto
  qed
qed

lemma runQuery_local_ends:
  assumes "validator_PRR_ok L" and "errors_lib_ok L" and "New L w (RepoPath ro) = (Some r, None)"
    and "\<not> q_IncludePRs opts" and "q_Output opts \<in> set ValidFormats"
    and "\<forall>opts'. PrepareQueryOpts L r opts = (opts', None) \<longrightarrow> (\<forall>sig\<in>set (q_Groups opts'). sig_ok w r sig)"
  shows "\<exists>s' eo. runQuery L O' order w s ro opts = Some (Ret (w, s', eo)) \<and>
    (eo = None \<longleftrightarrow> (\<exists>opts'. PrepareQueryOpts L r opts = (opts', None) \<and>
       token_ok w (r\<lparr>TokenPath := k_TokenPath ro\<rparr>) \<and> keps_of_groups L w r (q_Groups opts') \<noteq> None))"
proof -
  let ?r = "r\<lparr>TokenPath := k_TokenPath ro\<rparr>"
  have r: "repo_paths ?r" using New_repo_paths [OF assms(3)] by (simp add: repo_paths_def)
  have files: "kep_files w ?r = kep_files w r" by (simp add: fun_eq_iff kep_files_def sig_node_def)
  then have same: "sig_ok w ?r = sig_ok w r" "keps_of_groups L w ?r = keps_of_groups L w r"
    by (intro ext; simp add: sig_ok_def sig_node_def keps_of_groups_def)+
  from Query_local_ends [OF assms(1,2) r assms(4), of w order, unfolded PrepareQueryOpts_token same, OF assms(6)]
  obtain r' o1 res eo where q: "Query L order w ?r opts = Some (Ret (w, r', o1, res, eo))"
    and eo: "eo = None \<longleftrightarrow> (\<exists>opts'. PrepareQueryOpts L r opts = (opts', None) \<and> token_ok w ?r \<and>
       keps_of_groups L w r (q_Groups opts') \<noteq> None)"
    and ok: "eo = None \<longrightarrow> (\<exists>ps. res = Some (map Some ps)) \<and> q_Output o1 = q_Output opts"
    by blast
  show ?thesis
  proof (cases eo)
    case (Some e)
    with q assms(3) eo show ?thesis by (auto simp: runQuery_def)
  next
    case None
    with ok obtain ps where res: "res = Some (map Some ps)" "q_Output o1 = q_Output opts" by blast
    from assms(5) obtain o' where o': "NewOutput (q_Output opts) = Inr o'"
      by (auto simp: NewOutput_def ValidFormats_def)
    have "PrintProposals O' o' (map Some ps) s \<noteq> Panic"
      using printer.print_returns [OF PrintProposals_printer [OF o', of O'], of "map Some ps" s] by (simp add: list_all_iff)
    then obtain s' where "PrintProposals O' o' (map Some ps) s = Ret s'"
      by (cases "PrintProposals O' o' (map Some ps) s") auto
    with q assms(3) eo None res o' show ?thesis by (auto simp: runQuery_def)
  qed
qed

text \<open>
  C30: what the exit code of kepctl query says, for a query without pull requests over groups that
  are plain directory names and whose directories, where they exist, can be listed. It ends with 0
  exactly when the logger is set up, the format is known, the repository opens, the options can be
  prepared, the token file, if given, can be read and every metadata file of the selected groups
  can be read and decoded. It ends with 2, a panic, exactly when opening the repository
  returns neither a client nor an error, and with 1 in all other cases.
\<close>

theorem kepctl_query_exit:
  assumes "validator_PRR_ok L" and "errors_lib_ok L" and "i_command i = QueryCmd"
    and "\<not> q_IncludePRs (query_flags (i_flags i))"
    and "\<forall>r opts. New L w (RepoPath (root_flags path (i_flags i))) = (Some r, None) \<and>
      PrepareQueryOpts L r (query_flags (i_flags i)) = (opts, None) \<longrightarrow> (\<forall>sig\<in>set (q_Groups opts). sig_ok w r sig)"
  shows "kepctl_main L O' setup order now path w s i = Some
    (if setup (LogLevel (root_flags path (i_flags i))) \<noteq> None \<or>
       q_Output (query_flags (i_flags i)) \<notin> {''csv'', ''json'', ''table'', ''yaml''} then 1
     else case New L w (RepoPath (root_flags path (i_flags i))) of
         (_, Some e) \<Rightarrow> 1
       | (None, None) \<Rightarrow> 2
       | (Some r, None) \<Rightarrow>
           if \<exists>opts. PrepareQueryOpts L r (query_flags (i_flags i)) = (opts, None) \<and>
             token_ok w (r\<lparr>TokenPath := k_TokenPath (root_flags path (i_flags i))\<rparr>) \<and>
             keps_of_groups L w r (q_Groups opts) \<noteq> None
           then 0 else 1)"
proof -
  let ?ro = "root_flags path (i_flags i)" and ?qo = "query_flags (i_flags i)"
  have valid: "QueryOpts_Validate ?qo = None \<longleftrightarrow> q_Output ?qo \<in> set ValidFormats"
    by (simp add: QueryOpts_Validate_def)
  have fmt: "set ValidFormats = {''csv'', ''json'', ''table'', ''yaml''}" by (simp add: ValidFormats_def)
  obtain rc eo where n: "New L w (RepoPath ?ro) = (rc, eo)" by force
  consider (early) "setup (LogLevel ?ro) \<noteq> None \<or> q_Output ?qo \<notin> set ValidFormats"
    | (run) "initLogging setup ?ro = None" "QueryOpts_Validate ?qo = None" "setup (LogLevel ?ro) = None"
      "q_Output ?qo \<in> set ValidFormats"
    by (auto simp: initLogging_def valid)
  then show ?thesis
  proof cases
    case early
    then have "\<exists>e. Execute L O' setup order now path w s i = Some (Ret (w, s, Some e))"
      unfolding Execute_query [OF assms(3)] cmd_query_def Let_def initLogging_def valid [symmetric]
      by (auto split: option.split)
    with early show ?thesis unfolding fmt by (auto simp: kepctl_main_def)
  next
    case run
    have main: "kepctl_main L O' setup order now path w s i =
        map_option (\<lambda>res. case res of Panic \<Rightarrow> 2 | Ret (w, s, Some e) \<Rightarrow> 1 | Ret (w, s, None) \<Rightarrow> 0)
          (runQuery L O' order w s ?ro ?qo)"
      unfolding kepctl_main_def Execute_query [OF assms(3)] cmd_query_def Let_def run(1,2) option.case by (rule refl)
    have go: "(setup (LogLevel ?ro) \<noteq> None \<or> q_Output ?qo \<notin> {''csv'', ''json'', ''table'', ''yaml''}) = False"
      unfolding fmt [symmetric] using run(3,4) by simp
    show ?thesis
    proof (cases eo)
      case (Some e)
      obtain e' where "errors_Wrap L (Some e) ''creating repo client'' = Some e'"
        using errors_Wrap_ex [OF assms(2)] by blast
      with n Some show ?thesis unfolding main go by (cases rc) (simp_all add: runQuery_def)
    next
      case None
      show ?thesis
      proof (cases rc)
        case None
        with \<open>eo = None\<close> n show ?thesis unfolding main go by (simp add: runQuery_def)
      next
        case (Some r)
        with \<open>eo = None\<close> n have r: "New L w (RepoPath ?ro) = (Some r, None)" by simp
        then have "\<forall>opts. PrepareQueryOpts L r ?qo = (opts, None) \<longrightarrow> (\<forall>sig\<in>set (q_Groups opts). sig_ok w r sig)"
          using assms(5) by blast
        from runQuery_local_ends [OF assms(1,2) r assms(4) run(4) this, of O' order s]
        obtain s' e1 where "runQuery L O' order w s ?ro ?qo = Some (Ret (w, s', e1))"
          "e1 = None \<longleftrightarrow> (\<exists>opts. PrepareQueryOpts L r ?qo = (opts, None) \<and>
             token_ok w (r\<lparr>TokenPath := k_TokenPath ?ro\<rparr>) \<and> keps_of_groups L w r (q_Groups opts) \<noteq> None)"
          by blast
        then show ?thesis unfolding main go r by (cases e1) simp_all
      qed
    qed
  qed
qed

theorem kepctl_query_exit_witness:
  "kepctl_main sample_repo_lib sample_out_lib (\<lambda>_. None) id sample_date [] sample_repo_fs
     \<lparr>Out = [], Err = []\<rparr> (sample_invocation QueryCmd) = Some 0"
proof -
  let ?opts = "sample_opts\<lparr>q_Groups := [''sig-node''], q_PRRApprover := []\<rparr>"
  have i: "i_flags (sample_invocation QueryCmd) = sample_flags" "i_command (sample_invocation QueryCmd) = QueryCmd"
    by (simp_all add: sample_invocation_def)
  have fields: "\<not> q_IncludePRs (query_flags sample_flags)" "q_Output (query_flags sample_flags) = ''json''"
    by (simp_all add: sample_query_flags sample_opts_def)
  have prep: "PrepareQueryOpts sample_repo_lib sample_repo (query_flags sample_flags) = (?opts, None)"
    using sample_prepare [of "[]"] by (simp add: sample_query_flags)
  have sigs: "\<forall>r opts. New sample_repo_lib sample_repo_fs (RepoPath (root_flags [] sample_flags)) = (Some r, None) \<and>
      PrepareQueryOpts sample_repo_lib r (query_flags sample_flags) = (opts, None) \<longrightarrow>
      (\<forall>sig\<in>set (q_Groups opts). sig_ok sample_repo_fs r sig)"
    using prep sample_kep_files(2) by (auto simp: sample_query_flags(2) sample_New)
  have "token_ok sample_repo_fs (sample_repo\<lparr>TokenPath := k_TokenPath (root_flags [] sample_flags)\<rparr>)"
    "keps_of_groups sample_repo_lib sample_repo_fs sample_repo (q_Groups ?opts) \<noteq> None"
    using sample_read_keps by (simp_all add: token_ok_def sample_query_flags(3))
  with kepctl_query_exit [where w = sample_repo_fs and path = "[]" and O' = sample_out_lib and order = id
      and now = sample_date and s = "\<lparr>Out = [], Err = []\<rparr>", OF sample_repo_lib_ok(1,2) i(2), unfolded i, OF fields(1) sigs]
    prep fields(2)
  show ?thesis by (simp add: sample_query_flags(2) sample_New)
qed


section \<open>The answer\<close>

text \<open>
  C38: kepctl query --output json, from the command line to the standard output. On a repository
  that opens, with the metadata of the selected groups readable, the command succeeds, changes
  no file, and writes one line. Decoded, that line is an array of exactly the KEPs that these
  files stand for and that meet the criteria of the flags, in the order of the groups and of the
  traversal, with every field intact but the two that are not marshalled.
\<close>

theorem query_command_answers:
  assumes "validator_PRR_ok L" and "errors_lib_ok L" and "i_command i = QueryCmd"
    and "initLogging setup (root_flags path (i_flags i)) = None"
    and "New L w (RepoPath (root_flags path (i_flags i))) = (Some r, None)"
    and "token_ok w (r\<lparr>TokenPath := k_TokenPath (root_flags path (i_flags i))\<rparr>)"
    and "\<not> q_IncludePRs (query_flags (i_flags i))" and "q_Output (query_flags (i_flags i)) = ''json''"
    and "PrepareQueryOpts L r (query_flags (i_flags i)) = (opts, None)"
    and "\<forall>sig\<in>set (q_Groups opts). sig_ok w r sig"
    and "keps_of_groups L w r (q_Groups opts) = Some ps"
    and "valid_json (json_Proposals (map Some (filter (query_spec opts) ps)))"
  shows "\<exists>line js. Execute L O' setup order now path w s i = Some (Ret (w, put_out (line @ [newline]) s, None)) \<and>
    list_all printable line \<and> json_Decode (line @ [newline], None) = Inr (JArr js) \<and>
    map read_Proposal js = map (\<lambda>p. p\<lparr>Filename := [], Error := None\<rparr>) (filter (query_spec opts) ps)"
proof -
  let ?ro = "root_flags path (i_flags i)" and ?qo = "query_flags (i_flags i)"
  let ?r = "r\<lparr>TokenPath := k_TokenPath ?ro\<rparr>" and ?ps = "filter (query_spec opts) ps"
  have "repo_paths ?r" using New_repo_paths [OF assms(5)] by (simp add: repo_paths_def)
  moreover have "PrepareQueryOpts L ?r ?qo = (opts, None)" using assms(9) by (simp only: PrepareQueryOpts_token)
  moreover have files: "kep_files w ?r = kep_files w r" "sig_ok w ?r = sig_ok w r"
    by (simp_all add: fun_eq_iff kep_files_def sig_ok_def sig_node_def)
  ultimately obtain r' where q: "Query L order w ?r ?qo = Some (Ret (w, r', opts, Some (map Some ?ps), None))"
    using Query_local_read [OF assms(1,2) _ assms(6,7), of opts order] assms(10,11) by (auto simp: keps_of_groups_def)
  obtain line js where p: "PrintProposals O' JSONOutput (map Some ?ps) s = Ret (put_out (line @ [newline]) s)"
    and l: "list_all printable line" "json_Decode (line @ [newline], None) = Inr (JArr js)"
      "map read_Proposal js = map (\<lambda>p. p\<lparr>Filename := [], Error := None\<rparr>) ?ps"
    using JSON_print_reads [OF assms(12)] by blast
  have "NewOutput (q_Output opts) = Inr JSONOutput"
    using PrepareQueryOpts_output [OF assms(9)] assms(8) by (simp add: NewOutput_def)
  with assms(5) q p have "runQuery L O' order w s ?ro ?qo = Some (Ret (w, put_out (line @ [newline]) s, None))"
    by (simp add: runQuery_def)
  with l show ?thesis
    unfolding Execute_query [OF assms(3)] cmd_query_def Let_def assms(4) PrepareQueryOpts_valid [OF assms(9)]
    by auto
qed

theorem query_command_answers_witness:
  "\<exists>line js. sample_execute QueryCmd \<lparr>Out = [], Err = []\<rparr> =
       Some (Ret (sample_repo_fs, \<lparr>Out = line @ [newline], Err = []\<rparr>, None)) \<and>
     json_Decode (line @ [newline], None) = Inr (JArr js) \<and> length js = 2"
proof -
  let ?i = "sample_invocation QueryCmd"
  let ?opts = "sample_opts\<lparr>q_Groups := [''sig-node''], q_PRRApprover := []\<rparr>"
  have ro: "root_flags [] (i_flags ?i) = root_flags [] sample_flags" "i_command ?i = QueryCmd"
    "query_flags (i_flags ?i) = sample_opts\<lparr>q_PRRApprover := []\<rparr>"
    by (simp_all add: sample_invocation_def sample_query_flags)
  have keps: "filter (query_spec ?opts) sample_loaded = sample_loaded"
    by (simp add: sample_loaded_def query_spec_def meets_def sample_opts_def with_location_def
        yaml_view_def filled_def sample_written_def sample_proposal_def)
  have "valid_json (json_Proposals (map Some sample_loaded))" by code_simp
  then have "\<exists>line js. sample_execute QueryCmd \<lparr>Out = [], Err = []\<rparr> =
       Some (Ret (sample_repo_fs, put_out (line @ [newline]) \<lparr>Out = [], Err = []\<rparr>, None)) \<and>
     list_all printable line \<and> json_Decode (line @ [newline], None) = Inr (JArr js) \<and>
     map read_Proposal js = map (\<lambda>p. p\<lparr>Filename := [], Error := None\<rparr>) (filter (query_spec ?opts) sample_loaded)"
    using sample_prepare [of "[]"] sample_kep_files(2) sample_read_keps
    by (intro query_command_answers [OF sample_repo_lib_ok(1,2) ro(2), where r = sample_repo])
      (simp_all add: ro initLogging_def sample_query_flags sample_New keps token_ok_def sample_repo_def make_Repo_def,
       simp_all add: sample_opts_def)
  then obtain line js where e: "sample_execute QueryCmd \<lparr>Out = [], Err = []\<rparr> =
       Some (Ret (sample_repo_fs, put_out (line @ [newline]) \<lparr>Out = [], Err = []\<rparr>, None))"
    and d: "json_Decode (line @ [newline], None) = Inr (JArr js)"
    and m: "map read_Proposal js = map (\<lambda>p. p\<lparr>Filename := [], Error := None\<rparr>) sample_loaded"
    unfolding keps by blast
  from arg_cong [OF m, of length] have "length js = 2" by (simp add: sample_loaded_def)
  with e d show ?thesis by (auto simp: put_out_def)
qed

end
