(* ===== verification/Kepify.thy ===== *)
theory Kepify
  imports GroupFetchers Output GoWalk
begin

text \<open>
  The tool kepify (cmd/kepify/main.go): it collects the markdown files below a directory, parses
  each as a KEP and writes all of them to one JSON file. What it prints to the terminal is not
  modelled; its end is an exit code or a panic.
\<close>

definition ignore :: "string \<Rightarrow> bool" where
  "ignore name \<longleftrightarrow>
     \<not> HasSuffix name ''md'' \<or>
     name = ''0023-documentation-for-images.md'' \<or>
     name = ''0004-cloud-provider-template.md'' \<or>
     name = ''0001a-meta-kep-implementation.md'' \<or>
     name = ''0001-kubernetes-enhancement-proposal-process.md'' \<or>
     name = ''YYYYMMDD-kep-template.md'' \<or>
     name = ''README.md'' \<or>
     name = ''kep-faq.md''"

definition findMarkdownFiles_fn :: "string list walkfn" where
  "findMarkdownFiles_fn files path info err =
     (case err of
        Some e \<Rightarrow> (files, WErr e)
      | None \<Rightarrow>
          (case info of
             None \<Rightarrow> (files, WPanic)
           | Some fi \<Rightarrow>
               if IsDir fi then (files, WNil)
               else if ignore (fi_name fi) then (files, WNil)
               else (files @ [path], WNil)))"

definition findMarkdownFiles :: "fsys \<Rightarrow> string \<Rightarrow> (string list \<times> goerr option) outcome" where
  "findMarkdownFiles w dirPath =
     (case Walk w dirPath findMarkdownFiles_fn [] of
        (files, WPanic) \<Rightarrow> Panic
      | (files, WErr e) \<Rightarrow> Ret (files, Some e)
      | (files, _) \<Rightarrow> Ret (files, None))"

text \<open>
  On a parse error the loop formats the error field of the KEP, not the error of the parser:
  the call panics when that field is nil.
\<close>

fun parseFiles ::
  "'a kep_lib_scheme \<Rightarrow> (string \<Rightarrow> string) \<Rightarrow> fsys \<Rightarrow> Parser \<Rightarrow> string list \<Rightarrow> Proposal option slice \<Rightarrow>
   (Parser \<times> Proposal option slice \<times> goerr option) outcome" where
  "parseFiles L uni w parser [] proposals = Ret (parser, proposals, None)"
| "parseFiles L uni w parser (filename # files) proposals =
     (case Open w filename of
        Inl e \<Rightarrow> Ret (parser, None, Some (ErrorString (''could not open file: '' @ error_text e)))
      | Inr file \<Rightarrow>
          (case KEPHandler_Parse L parser file of
             Panic \<Rightarrow> Panic
           | Ret (parser, kep, Some err) \<Rightarrow>
               (case Option.bind kep Error of
                  None \<Rightarrow> Panic
                | Some e \<Rightarrow>
                    Ret (parser, None,
                         Some (ErrorString (filename @ '' has an error: '' @ Quote uni (error_text e)))))
           | Ret (parser, kep, None) \<Rightarrow>
               parseFiles L uni w parser files (Some (AddProposal (elems proposals) kep))))"

text \<open>\<open>os.Create\<close> truncates the file before the document is written to it.\<close>

definition printJSONOutput ::
  "fsys \<Rightarrow> string \<Rightarrow> Proposal option slice \<Rightarrow> fsys \<times> goerr option" where
  "printJSONOutput w filePath proposals =
     (case os_Create w filePath of
        (w, Some e) \<Rightarrow> (w, Some e)
      | (w, None) \<Rightarrow>
          (case (case proposals of None \<Rightarrow> Inr ''null'' | Some ps \<Rightarrow> json_Marshal ps) of
             Inl e \<Rightarrow> (w, Some e)
           | Inr data \<Rightarrow>
               (case WriteFile w filePath data of (w, Some e) \<Rightarrow> (w, Some e) | (w, None) \<Rightarrow> (w, None))))"

definition kepify_main ::
  "'a group_lib_scheme \<Rightarrow> (string \<Rightarrow> string) \<Rightarrow> fsys \<Rightarrow> string \<Rightarrow> string \<Rightarrow>
   (fsys \<times> nat) outcome" where
  "kepify_main L uniq w dirPath filePath =
     (if dirPath = [] then Ret (w, 1)
      else if (case Stat w dirPath of Inl e \<Rightarrow> IsNotExist e | Inr fi \<Rightarrow> False) then Ret (w, 1)
      else if filePath = [] then Ret (w, 1)
      else case findMarkdownFiles w dirPath of
             Panic \<Rightarrow> Panic
           | Ret (files, Some e) \<Rightarrow> Ret (w, 1)
           | Ret (files, None) \<Rightarrow>
      if files = [] then Ret (w, 1)
      else case FetchGroups L DefaultGroupFetcher of
             (groups, Some e) \<Rightarrow> Ret (w, 1)
           | (groups, None) \<Rightarrow>
      case FetchPRRApprovers L DefaultGroupFetcher of
             (prrApprovers, Some e) \<Rightarrow> Ret (w, 1)
           | (prrApprovers, None) \<Rightarrow>
      case parseFiles L uniq w \<lparr>Groups = groups, PRRApprovers = prrApprovers, Errors = []\<rparr> files None of
             Panic \<Rightarrow> Panic
           | Ret (parser, proposals, Some e) \<Rightarrow> Ret (w, 1)
           | Ret (parser, proposals, None) \<Rightarrow>
      case printJSONOutput w filePath proposals of
             (w, Some e) \<Rightarrow> Ret (w, 1)
           | (w, None) \<Rightarrow> Ret (w, 0))"

end
