(* ===== verification/RepoValidateProps.thy ===== *)
theory RepoValidateProps
  imports RepoQueryProps "HOL-Library.Multiset"
begin

text \<open>
  Properties of the validation of a repository: which files and which missing files its
  traversal finds, that each file found gets its own verdict, independent of the others and
  of their order, and that an error meant to be fatal does not end the validation.
\<close>

section \<open>Verdicts\<close>

lemma validateFile_open_error:
  assumes "errors_lib_ok L" and "Open w f = Inl e" and "\<not> As_fatalValidationError e"
  shows "\<exists>e'. validateFile L w r d f = Ret (r, Some (FatalPtr e')) \<and> \<not> As_fatalValidationError (FatalPtr e')"
proof -
  obtain e' where w: "errors_Wrap L (Some e) (''could not open file '' @ f) = Some e'" "lib_wraps e' e"
    using errors_Wrap_Some [OF assms(1)] by blast
  from lib_wraps_chain [OF w(2)] obtain ws where "error_chain e' = ws @ error_chain e"
    "\<forall>w\<in>set ws. \<exists>s x. w = LibWrap s x" by blast
  then have "\<not> As_fatalValidationError (FatalPtr e')"
    using assms(3) by (fastforce simp: As_fatalValidationError_def list_ex_iff)
  with assms(2) w(1) show ?thesis by (simp add: validateFile_def wrapf_def)
qed

lemma Open_PathError: "Open w f = Inl e \<Longrightarrow> \<exists>op q n. e = PathError op q n"
  by (auto simp: Open_def split: sum.splits fnode.splits if_splits)

text \<open>
  An error that is meant to stop the validation, such as a file that cannot be opened, does not
  stop it: it is recorded like any other error of that file, and the remaining files are
  validated.
\<close>

theorem fatal_error_does_not_stop:
  assumes "errors_lib_ok L" and "Open w f = Inl e"
  shows "\<exists>e'. validateFile L w r d f = Ret (r, Some (FatalPtr e')) \<and>
    validate_files L w r d (f # fs) m = validate_files L w r d fs (add_valErr f (FatalPtr e') m)"
proof -
  have "\<not> As_fatalValidationError e"
    using Open_PathError [OF assms(2)] by (auto simp: As_fatalValidationError_def)
  from validateFile_open_error [OF assms this, of r d] obtain e' where
    "validateFile L w r d f = Ret (r, Some (FatalPtr e'))" "\<not> As_fatalValidationError (FatalPtr e')" by blast
  then show ?thesis by (intro exI [of _ e']) simp
qed

text \<open>Handlers that differ only in the errors collected give the same verdicts.\<close>

definition same_handlers :: "Repo \<Rightarrow> Repo \<Rightarrow> bool" where
  "same_handlers r r' \<longleftrightarrow>
     Groups (KEPHandler r') = Groups (KEPHandler r) \<and> PRRApprovers (KEPHandler r') = PRRApprovers (KEPHandler r) \<and>
     Groups (PRRHandler r') = Groups (PRRHandler r) \<and> PRRApprovers (PRRHandler r') = PRRApprovers (PRRHandler r)"

lemma same_handlers_refl [simp]: "same_handlers r r"
  by (simp add: same_handlers_def)

lemma same_handlers_trans: "same_handlers r r' \<Longrightarrow> same_handlers r' r'' \<Longrightarrow> same_handlers r r''"
  by (simp add: same_handlers_def)

lemma decode_KEP_cong: "map_outcome snd (decode_KEP L k m p) = map_outcome snd (decode_KEP L k' m p)"
  by (simp add: decode_KEP_def split: prod.splits option.splits)

lemma KEPHandler_Parse_cong:
  "map_outcome snd (KEPHandler_Parse L k r) = map_outcome snd (KEPHandler_Parse L k' r)"
  by (auto simp: KEPHandler_Parse_def Let_def intro: decode_KEP_cong split: prod.splits option.splits)

lemma KEPHandler_Parse_keeps:
  "KEPHandler_Parse L k r = Ret (k', p, e) \<Longrightarrow> Groups k' = Groups k \<and> PRRApprovers k' = PRRApprovers k"
  by (auto simp: KEPHandler_Parse_def decode_KEP_def Let_def split: prod.splits option.splits if_splits)

lemma PRRHandler_Parse_cong: "snd (PRRHandler_Parse L h r) = snd (PRRHandler_Parse L h' r)"
  by (simp add: PRRHandler_Parse_def Let_def split: option.splits prod.splits)

lemma check_approver_cong: "PRRApprovers h = PRRApprovers h' \<Longrightarrow> check_approver L kep h prr = check_approver L kep h' prr"
  by (auto simp: check_approver_def Let_def split: sum.splits)

lemma ValidatePRR_cong:
  assumes "PRRApprovers h = PRRApprovers h'"
  shows "map_outcome snd (ValidatePRR L w kep h d) = map_outcome snd (ValidatePRR L w kep h' d)"
proof (cases "Open w (prr_filepath kep d)")
  case (Inr f)
  obtain h1 po eo where p: "PRRHandler_Parse L h f = (h1, po, eo)" by (cases "PRRHandler_Parse L h f")
  moreover obtain h2 where p': "PRRHandler_Parse L h' f = (h2, po, eo)"
    using PRRHandler_Parse_cong [of L h f h'] p by (cases "PRRHandler_Parse L h' f") auto
  moreover have "check_approver L kep h1 prr = check_approver L kep h2 prr" for prr
    using PRRHandler_Parse_keeps [OF p] PRRHandler_Parse_keeps [OF p'] assms by (intro check_approver_cong) simp
  ultimately show ?thesis using Inr by (simp add: ValidatePRR_def split: prod.splits option.splits)
qed (simp add: ValidatePRR_def split: prod.splits option.splits)

definition verdict :: "'a repo_lib_scheme \<Rightarrow> fsys \<Rightarrow> Repo \<Rightarrow> string \<Rightarrow> string \<Rightarrow> goerr option outcome" where
  "verdict L w r d f = map_outcome snd (validateFile L w r d f)"

lemma validateFile_keeps:
  assumes "validateFile L w r d f = Ret (r', eo)"
  shows "same_handlers r r'"
  using assms
  by (auto simp: validateFile_def same_handlers_def Let_def split: sum.splits outcome.splits option.splits
      dest!: KEPHandler_Parse_keeps ValidatePRR_keeps)

lemma verdict_cong:
  assumes "same_handlers r r'"
  shows "verdict L w r d f = verdict L w r' d f"
proof (cases "Open w f")
  case (Inr x)
  note c = KEPHandler_Parse_cong [of L "KEPHandler r" x "KEPHandler r'"]
  have a: "PRRApprovers (PRRHandler r) = PRRApprovers (PRRHandler r')"
    using assms by (simp add: same_handlers_def)
  show ?thesis
  proof (cases "KEPHandler_Parse L (KEPHandler r) x")
    case (Ret res)
    then obtain k po eo where p: "KEPHandler_Parse L (KEPHandler r) x = Ret (k, po, eo)" by (cases res) auto
    with c obtain k' where p': "KEPHandler_Parse L (KEPHandler r') x = Ret (k', po, eo)"
      by (cases "KEPHandler_Parse L (KEPHandler r') x") auto
    have v: "map_outcome snd (case ValidatePRR L w kep (PRRHandler r) d of Panic \<Rightarrow> Panic
          | Ret (h, eo) \<Rightarrow> Ret (r\<lparr>KEPHandler := k, PRRHandler := h\<rparr>, eo)) =
        map_outcome snd (case ValidatePRR L w kep (PRRHandler r') d of Panic \<Rightarrow> Panic
          | Ret (h, eo) \<Rightarrow> Ret (r'\<lparr>KEPHandler := k', PRRHandler := h\<rparr>, eo))" for kep
      using ValidatePRR_cong [OF a, of L w kep d]
      by (cases "ValidatePRR L w kep (PRRHandler r) d"; cases "ValidatePRR L w kep (PRRHandler r') d")
        (auto split: prod.splits)
    from Inr p p' v show ?thesis
      by (simp add: verdict_def validateFile_def Let_def split: option.splits)
  next
    case Panic
    with c have "KEPHandler_Parse L (KEPHandler r') x = Panic"
      by (cases "KEPHandler_Parse L (KEPHandler r') x") auto
    with Panic Inr show ?thesis by (simp add: verdict_def validateFile_def)
  qed
qed (simp add: verdict_def validateFile_def)

text \<open>
  The abstract verdict table: every file the traversal found with its own verdict, after the
  errors the traversal recorded for it.
\<close>

definition verdict_table ::
  "'a repo_lib_scheme \<Rightarrow> fsys \<Rightarrow> Repo \<Rightarrow> string \<Rightarrow> string set \<Rightarrow> valErrs \<Rightarrow> valErrs" where
  "verdict_table L w r d fs m = (\<lambda>f.
     if f \<in> fs then (case verdict L w r d f of Ret (Some e) \<Rightarrow> add_valErr f e m f | _ \<Rightarrow> m f) else m f)"

lemma verdict_table_cong: "same_handlers r r' \<Longrightarrow> verdict_table L w r d fs m = verdict_table L w r' d fs m"
  unfolding verdict_table_def verdict_cong [of r r'] by (rule refl)

lemma validate_files_table:
  assumes "distinct fs" and "validate_files L w r d fs m = Ret (r', m', None)"
  shows "same_handlers r r' \<and> m' = verdict_table L w r d (set fs) m"
  using assms
proof (induction fs arbitrary: r m)
  case Nil
  then show ?case by (auto simp: verdict_table_def)
next
  case (Cons f fs)
  then obtain r1 eo where v: "validateFile L w r d f = Ret (r1, eo)" by (auto split: outcome.splits)
  then have k: "same_handlers r r1" by (rule validateFile_keeps)
  have f: "verdict L w r d f = Ret eo" using v by (simp add: verdict_def)
  let ?m = "case eo of None \<Rightarrow> m | Some e \<Rightarrow> add_valErr f e m"
  have "validate_files L w r1 d fs ?m = Ret (r', m', None)"
    using Cons.prems(2) v by (auto split: option.splits if_splits)
  from Cons.IH [OF _ this] Cons.prems(1) have IH: "same_handlers r1 r'" "m' = verdict_table L w r1 d (set fs) ?m"
    by auto
  have "m' = verdict_table L w r d (set fs) ?m"
    using IH(2) verdict_table_cong [OF k, of L] by simp
  with f Cons.prems(1) have "m' = verdict_table L w r d (set (f # fs)) m"
    by (auto simp: verdict_table_def add_valErr_def fun_eq_iff split: option.splits outcome.splits)
  with same_handlers_trans [OF k IH(1)] show ?case by simp
qed

text \<open>
  C33: in a validation that completes, the verdict of every file is its own: it is the one the
  file gets when it is validated first and alone, whatever the other files are, in whatever
  order they are read and whatever errors the handlers have collected, and no entry of another
  file changes.
\<close>

theorem verdicts_are_independent:
  assumes "distinct fs" and "mset fs' = mset fs"
    and "validate_files L w r d fs m = Ret (r1, m1, None)"
    and "validate_files L w r2 d fs' m = Ret (r3, m3, None)" and "same_handlers r r2"
  shows "m1 = verdict_table L w r d (set fs) m \<and> m3 = m1"
proof -
  have "distinct fs'" "set fs' = set fs"
    using assms(1,2) mset_eq_imp_distinct_iff mset_eq_setD by blast+
  then show ?thesis
    using validate_files_table [OF assms(1,3)] validate_files_table [OF _ assms(4)] verdict_table_cong [OF assms(5), of L]
    by simp
qed


section \<open>Sample validations\<close>

lemma sample_no_file:
  "Open sample_repo_fs ''/repo/x'' = Inl (PathError ''open'' ''/repo/x'' ENOENT)"
  "Open sample_repo_fs ''/repo/y'' = Inl (PathError ''open'' ''/repo/y'' ENOENT)"
  by code_simp+

theorem fatal_error_does_not_stop_witness:
  "\<exists>e. validate_files sample_repo_lib sample_repo_fs sample_repo ''/prr'' [''/repo/x''] Map.empty =
     Ret (sample_repo, add_valErr ''/repo/x'' (FatalPtr e) Map.empty, None)"
  using fatal_error_does_not_stop [OF sample_repo_lib_ok(2) sample_no_file(1), of sample_repo "''/prr''" "[]" Map.empty]
  by auto

definition sample_fatal :: "string \<Rightarrow> goerr" where
  "sample_fatal f = FatalPtr (wrapf sample_repo_lib (PathError ''open'' f ENOENT) (''could not open file '' @ f))"

lemma sample_fatal_errors:
  "validateFile sample_repo_lib sample_repo_fs sample_repo d ''/repo/x'' = Ret (sample_repo, Some (sample_fatal ''/repo/x''))"
  "validateFile sample_repo_lib sample_repo_fs sample_repo d ''/repo/y'' = Ret (sample_repo, Some (sample_fatal ''/repo/y''))"
  "\<not> As_fatalValidationError (sample_fatal ''/repo/x'')" "\<not> As_fatalValidationError (sample_fatal ''/repo/y'')"
proof -
  have "\<not> As_fatalValidationError (PathError ''open'' f ENOENT)" for f by (simp add: As_fatalValidationError_def)
  note v = validateFile_open_error [OF sample_repo_lib_ok(2) sample_no_file(1) this, of sample_repo d]
    validateFile_open_error [OF sample_repo_lib_ok(2) sample_no_file(2) this, of sample_repo d]
  show x: "validateFile sample_repo_lib sample_repo_fs sample_repo d ''/repo/x'' = Ret (sample_repo, Some (sample_fatal ''/repo/x''))"
    and y: "validateFile sample_repo_lib sample_repo_fs sample_repo d ''/repo/y'' = Ret (sample_repo, Some (sample_fatal ''/repo/y''))"
    by (simp_all add: validateFile_def sample_no_file sample_fatal_def)
  from v x y show "\<not> As_fatalValidationError (sample_fatal ''/repo/x'')" "\<not> As_fatalValidationError (sample_fatal ''/repo/y'')"
    by auto
qed

lemma sample_validation:
  "validate_files sample_repo_lib sample_repo_fs sample_repo ''/prr'' [''/repo/x'', ''/repo/y''] Map.empty =
     Ret (sample_repo, add_valErr ''/repo/y'' (sample_fatal ''/repo/y'') (add_valErr ''/repo/x'' (sample_fatal ''/repo/x'') Map.empty), None)"
  "validate_files sample_repo_lib sample_repo_fs sample_repo ''/prr'' [''/repo/y'', ''/repo/x''] Map.empty =
     Ret (sample_repo, add_valErr ''/repo/x'' (sample_fatal ''/repo/x'') (add_valErr ''/repo/y'' (sample_fatal ''/repo/y'') Map.empty), None)"
  by (simp_all add: sample_fatal_errors)

theorem verdicts_are_independent_witness:
  "add_valErr ''/repo/x'' (sample_fatal ''/repo/x'') (add_valErr ''/repo/y'' (sample_fatal ''/repo/y'') Map.empty) =
   add_valErr ''/repo/y'' (sample_fatal ''/repo/y'') (add_valErr ''/repo/x'' (sample_fatal ''/repo/x'') Map.empty)"
  using verdicts_are_independent [OF _ _ sample_validation same_handlers_refl] by simp

end
