(* ===== verification/KepifyProps.thy ===== *)
theory KepifyProps
  imports Kepify RepoValidateProps KepctlProps
begin

text \<open>
  Properties of kepify: which files it reads, what its JSON file holds when it succeeds, and
  what happens on a file that is not a KEP.
\<close>

section \<open>The files\<close>

definition markdown_of :: "wevent \<Rightarrow> goerr + string list" where
  "markdown_of ev = (case ev of
     (p, Some fi, None) \<Rightarrow> Inr (if IsDir fi \<or> ignore (fi_name fi) then [] else [p])
   | (p, fi, Some e) \<Rightarrow> Inl e | (p, None, None) \<Rightarrow> Inr [])"

lemma findMarkdownFiles_never_skips: "never_skips findMarkdownFiles_fn"
  by (auto simp: never_skips_def findMarkdownFiles_fn_def split: option.splits)

lemma findMarkdownFiles_events:
  assumes "find_node w d = Inr n" and "listable n"
  shows "findMarkdownFiles w d =
    Ret (concat (map (\<lambda>ev. projr (markdown_of ev)) (walkdir_events d (Base d) n)), None)"
proof -
  let ?evs = "walkdir_events d (Base d) n"
  note ok = walkdir_events_found [OF assms(2)]
  have "collect_events markdown_of ?evs = Inr (concat (map (\<lambda>ev. projr (markdown_of ev)) ?evs))"
    unfolding collect_events_Inr_iff using ok by (fastforce simp: markdown_of_def)
  moreover have "findMarkdownFiles_fn s p fi e =
      (case markdown_of (p, fi, e) of Inl err \<Rightarrow> (s, WErr err) | Inr xs \<Rightarrow> (s @ xs, WNil))"
    if "(p, fi, e) \<in> set ?evs" for s p fi e
    using ok [OF that] by (auto simp: findMarkdownFiles_fn_def markdown_of_def)
  ultimately have "run_events findMarkdownFiles_fn ?evs [] =
      (concat (map (\<lambda>ev. projr (markdown_of ev)) ?evs), WNil)"
    using run_events_collect [of ?evs findMarkdownFiles_fn markdown_of "[]"] by simp
  then show ?thesis
    using assms by (simp add: findMarkdownFiles_def Walk_run_events findMarkdownFiles_never_skips root_events_def
        walk_events_listable)
qed

lemma findMarkdownFiles_tree:
  assumes "find_node w (render r cs) = Inr n" and "cleaned r cs" and "plain_names n" and "listable n"
  shows "findMarkdownFiles w (render r cs) =
    Ret (map (\<lambda>ds. render r (cs @ ds)) (tree_files (\<lambda>nm. \<not> ignore nm) (Base (render r cs)) n), None)"
proof -
  have "concat (map (\<lambda>ev. projr (markdown_of ev)) evs) = map fst (filter (selects (\<lambda>nm. \<not> ignore nm)) evs)"
    if "\<forall>ev\<in>set evs. \<exists>q fi. ev = (q, Some fi, None)" for evs
    using that by (induction evs) (auto simp: markdown_of_def selects_def)
  then show ?thesis
    using findMarkdownFiles_events [OF assms(1,4)] walkdir_events_found [OF assms(4)] walkdir_events_files(1) [OF assms(4,3,2)]
    by simp
qed


section \<open>The document\<close>

text \<open>The KEP a file holds, whatever the state of the parser.\<close>

definition parses_to :: "'a kep_lib_scheme \<Rightarrow> fsys \<Rightarrow> string \<Rightarrow> Proposal \<Rightarrow> bool" where
  "parses_to L w f p \<longleftrightarrow>
     (\<exists>r. Open w f = Inr r \<and> (\<forall>k. \<exists>k'. KEPHandler_Parse L k r = Ret (k', Some p, None)))"

lemma KEPHandler_Parse_any:
  assumes "KEPHandler_Parse L k r = Ret (k', p, eo)"
  shows "\<exists>k2'. KEPHandler_Parse L k2 r = Ret (k2', p, eo)"
  using KEPHandler_Parse_cong [of L k r k2] assms by (cases "KEPHandler_Parse L k2 r") auto

lemma KEPHandler_Parse_not_nil:
  assumes "errors_lib_ok L" and "KEPHandler_Parse L k r = Ret (k', po, None)"
  shows "\<exists>p. po = Some p"
  using assms(2) errors_Wrap_None_iffs [OF assms(1)]
  by (auto simp: KEPHandler_Parse_def decode_KEP_def Let_def split: prod.splits option.splits if_splits)

lemma parseFiles_parsed:
  assumes "errors_lib_ok L" and "parseFiles L uni w k files acc = Ret (k', pso, None)"
  shows "\<exists>ps. list_all2 (parses_to L w) files ps \<and>
    pso = (if files = [] then acc else Some (elems acc @ map Some ps))"
  using assms(2)
proof (induction files arbitrary: k acc)
  case (Cons f files)
  then obtain rdr where o: "Open w f = Inr rdr" by (auto split: sum.splits)
  with Cons.prems obtain k1 po eo where p: "KEPHandler_Parse L k rdr = Ret (k1, po, eo)"
    by (auto split: outcome.splits)
  with Cons.prems o have eo: "eo = None" by (auto split: option.splits)
  with p obtain q where q: "po = Some q" using KEPHandler_Parse_not_nil [OF assms(1)] by blast
  have "parses_to L w f q" unfolding parses_to_def using o KEPHandler_Parse_any [OF p] eo q by auto
  moreover have "parseFiles L uni w k1 files (Some (AddProposal (elems acc) (Some q))) = Ret (k', pso, None)"
    using Cons.prems o p eo q by simp
  from Cons.IH [OF this] obtain ps where "list_all2 (parses_to L w) files ps"
    "pso = (if files = [] then Some (AddProposal (elems acc) (Some q))
       else Some ((AddProposal (elems acc) (Some q)) @ map Some ps))" by auto
  ultimately show ?case by (intro exI [of _ "q # ps"]) (auto simp: AddProposal_def)
qed simp

lemma printJSONOutput_effect:
  assumes "printJSONOutput w f (Some (map Some ps)) = (w', None)"
  shows "ReadFile w' f = Inr (show_json (JArr (map json_Proposal ps)))"
proof -
  from assms obtain w1 where w1: "os_Create w f = (w1, None)"
    and w2: "WriteFile w1 f (show_json (JArr (map json_Proposal ps))) = (w', None)"
    by (auto simp: printJSONOutput_def json_Marshal_def json_Proposals_def comp_def split: prod.splits option.splits)
  from os_Create_node [OF w1] have "\<forall>pm b. find_node w1 f = Inr (Reg pm b) \<longrightarrow> rd pm" by auto
  from WriteFile_node [OF w2 this] show ?thesis using ReadFile_Reg by blast
qed

text \<open>
  C40: when kepify succeeds, every file below its directory whose name ends in md and is not on the
  list of exceptions is a KEP, and the output file is the JSON array of these KEPs, one for each
  such file, in the order of the tree: depth first, the entries of a directory as they are
  listed.
\<close>

theorem kepify_writes_all:
  assumes "errors_lib_ok L" and "cleaned r cs" and "find_node w (render r cs) = Inr n"
    and "plain_names n" and "listable n"
    and "kepify_main L uniq w (render r cs) out = Ret (w', 0)"
  shows "\<exists>ps. list_all2 (parses_to L w)
      (map (\<lambda>ds. render r (cs @ ds)) (tree_files (\<lambda>nm. \<not> ignore nm) (Base (render r cs)) n)) ps \<and>
    ReadFile w' out = Inr (show_json (JArr (map json_Proposal ps)))"
proof -
  note f = findMarkdownFiles_tree [OF assms(3,2,4,5)]
  let ?files = "map (\<lambda>ds. render r (cs @ ds)) (tree_files (\<lambda>nm. \<not> ignore nm) (Base (render r cs)) n)"
  obtain gs eg as ea where g: "FetchGroups L DefaultGroupFetcher = (gs, eg)"
    "FetchPRRApprovers L DefaultGroupFetcher = (as, ea)" by force
  let ?k = "\<lparr>Groups = gs, PRRApprovers = as, Errors = []\<rparr>"
  from assms(6) f g obtain k' pso where "?files \<noteq> []" and
    p: "parseFiles L uniq w ?k ?files None = Ret (k', pso, None)" and
    o: "printJSONOutput w out pso = (w', None)"
    by (auto simp: kepify_main_def split: if_splits option.splits prod.splits outcome.splits)
  from parseFiles_parsed [OF assms(1) p] \<open>?files \<noteq> []\<close> obtain ps where
    ps: "list_all2 (parses_to L w) ?files ps" "pso = Some (map Some ps)" by auto
  with printJSONOutput_effect o show ?thesis by blast
qed

text \<open>
  On a file that cannot be parsed kepify panics, as the error field of the KEP, which it prints,
  is nil: the decoder does not set it.
\<close>

theorem kepify_panics_on_parse_error:
  assumes "Open w f = Inr r" and "KEPHandler_Parse L k r = Ret (k', po, Some e)"
    and "Option.bind po Error = None"
  shows "parseFiles L uni w k (f # files) acc = Panic"
  using assms by simp


section \<open>A sample run\<close>

definition sample_keps :: fnode where
  "sample_keps = DirN mode_perm
     [(''README.md'', Reg mode_perm ''readme''), (''a.md'', Reg mode_perm (fst sample_reader)), (''kep.yaml'', Reg mode_perm [])]"

definition sample_md_fs :: fsys where
  "sample_md_fs = \<lparr>fs_root = DirN mode_perm [(''keps'', sample_keps)], fs_cwd = []\<rparr>"

lemma sample_md_paths:
  "abs_elems w ''/keps'' = [''keps'']" "abs_elems w ''/keps/a.md'' = [''keps'', ''a.md'']"
  "abs_elems w ''/out.json'' = [''out.json'']" "render True [''keps''] = ''/keps''" "Base ''/keps'' = ''keps''"
  "FJoin [''/keps'', ''README.md''] = ''/keps/README.md''" "FJoin [''/keps'', ''a.md''] = ''/keps/a.md''"
  "FJoin [''/keps'', ''kep.yaml''] = ''/keps/kep.yaml''"
  by (simp add: abs_elems_def, code_simp)+ code_simp+

lemma sample_md_found: "find_node sample_md_fs ''/keps'' = Inr sample_keps"
  by (simp add: find_node_def sample_md_paths sample_md_fs_def)

lemma sample_md_files: "findMarkdownFiles sample_md_fs ''/keps'' = Ret ([''/keps/a.md''], None)"
  using findMarkdownFiles_events [OF sample_md_found]
  by (simp add: sample_keps_def sample_md_paths markdown_of_def ignore_def HasSuffix_def suffix_to_prefix)

lemma sample_md_parse:
  "\<exists>k'. KEPHandler_Parse sample_repo_lib k sample_reader = Ret (k', Some (with_ID sample_parsed), None)"
proof -
  have same: "errors_Wrap sample_repo_lib = errors_Wrap sample_kep_lib" "yaml_Proposal sample_repo_lib = yaml_Proposal sample_kep_lib"
    "validator_Proposal sample_repo_lib = validator_Proposal sample_kep_lib"
    by (simp_all add: sample_repo_lib_simps)
  have "KEPHandler_Parse sample_repo_lib k sample_reader = KEPHandler_Parse sample_kep_lib k sample_reader"
    unfolding KEPHandler_Parse_def decode_KEP_def validateStruct_def same by (rule refl)
  with KEPHandler_Parse_any [OF sample_parse_ok, of k] show ?thesis by simp
qed

definition sample_out_fs :: "string \<Rightarrow> fsys" where
  "sample_out_fs b = \<lparr>fs_root = DirN mode_perm [(''keps'', sample_keps), (''out.json'', Reg mode_perm b)], fs_cwd = []\<rparr>"

lemma sample_write_out:
  "WriteFile sample_md_fs ''/out.json'' b = (sample_out_fs b, None)"
  "WriteFile (sample_out_fs c) ''/out.json'' b = (sample_out_fs b, None)"
proof -
  have "\<not> ''out.json'' < ''keps''" by code_simp
  then show "WriteFile sample_md_fs ''/out.json'' b = (sample_out_fs b, None)"
    "WriteFile (sample_out_fs c) ''/out.json'' b = (sample_out_fs b, None)"
    by (simp_all add: WriteFile_def sample_md_paths sample_md_fs_def sample_out_fs_def)
qed

lemma sample_out_missing: "find_node sample_md_fs ''/out.json'' = Inl ENOENT"
  by (simp add: find_node_def sample_md_paths sample_md_fs_def)

lemma sample_kepify:
  "\<exists>b. kepify_main sample_repo_lib id sample_md_fs ''/keps'' ''/out.json'' = Ret (sample_out_fs b, 0)"
proof -
  have st: "\<exists>fi. Stat sample_md_fs ''/keps'' = Inr fi"
    by (simp add: Stat_def find_followed_def sample_md_found sample_keps_def)
  have op: "Open sample_md_fs ''/keps/a.md'' = Inr sample_reader"
    by (simp add: Open_def find_followed_def find_node_def sample_md_paths sample_md_fs_def sample_keps_def sample_reader_def)
  obtain k' where k: "KEPHandler_Parse sample_repo_lib \<lparr>Groups = [''sig-api'', ''sig-node''], PRRApprovers = [''ann''], Errors = []\<rparr>
      sample_reader = Ret (k', Some (with_ID sample_parsed), None)" using sample_md_parse by blast
  from st show ?thesis
    by (auto simp: kepify_main_def sample_md_files sample_default_groups sample_default_approvers op k printJSONOutput_def
        json_Marshal_def json_Proposals_def os_Create_def sample_write_out sample_out_missing)
qed

theorem kepify_writes_all_witness:
  "\<exists>w' p. kepify_main sample_repo_lib id sample_md_fs ''/keps'' ''/out.json'' = Ret (w', 0) \<and>
     parses_to sample_repo_lib sample_md_fs ''/keps/a.md'' p \<and>
     ReadFile w' ''/out.json'' = Inr (show_json (JArr [json_Proposal p]))"
proof -
  have hyps: "cleaned True [''keps'']" "find_node sample_md_fs (render True [''keps'']) = Inr sample_keps"
    "plain_names sample_keps" "listable sample_keps"
  proof -
    show "plain_names sample_keps" by (simp add: sample_keps_def plain_def)
    show "listable sample_keps" by (simp add: sample_keps_def)
    show "cleaned True [''keps'']" by (simp add: cleaned_True)
    show "find_node sample_md_fs (render True [''keps'']) = Inr sample_keps"
      by (simp only: sample_md_paths sample_md_found)
  qed
  have files: "map (\<lambda>ds. render True ([''keps''] @ ds)) (tree_files (\<lambda>nm. \<not> ignore nm) (Base (render True [''keps''])) sample_keps) =
      [''/keps/a.md'']"
    by code_simp
  obtain b where run: "kepify_main sample_repo_lib id sample_md_fs (render True [''keps'']) ''/out.json'' = Ret (sample_out_fs b, 0)"
    using sample_kepify by (auto simp only: sample_md_paths)
  from kepify_writes_all [OF sample_repo_lib_ok(2) hyps run] obtain ps where
    "list_all2 (parses_to sample_repo_lib sample_md_fs) [''/keps/a.md''] ps"
    "ReadFile (sample_out_fs b) ''/out.json'' = Inr (show_json (JArr (map json_Proposal ps)))"
    unfolding files by blast
  then obtain p where "ps = [p]" "parses_to sample_repo_lib sample_md_fs ''/keps/a.md'' p"
    "ReadFile (sample_out_fs b) ''/out.json'' = Inr (show_json (JArr [json_Proposal p]))"
    by (auto simp: list_all2_Cons1 simp del: show_json.simps)
  with run show ?thesis by (intro exI [of _ "sample_out_fs b"] exI [of _ p]) (simp only: sample_md_paths simp_thms)
qed

end
