(* ===== verification/RepoSurvey.thy ===== *)
theory RepoSurvey
  imports RepoValidateProps
begin

text \<open>
  The traversal of the validation, as a survey of the tree below the keps directory: the
  directories it enters, the metadata files it finds in them, and the proposals it finds
  without one.
\<close>

section \<open>The survey\<close>

datatype finding = Metadata "string list" | NoMetadata "string list"

text \<open>Whether a directory has something under the name of the metadata file, and a file there.\<close>

definition has_meta :: "(string \<times> fnode) list \<Rightarrow> bool" where
  "has_meta es = (case map_of es ''kep.yaml'' of None \<Rightarrow> False | Some k \<Rightarrow> follow k \<noteq> None)"

definition meta_file :: "(string \<times> fnode) list \<Rightarrow> bool" where
  "meta_file es =
     (case map_of es ''kep.yaml'' of None \<Rightarrow> False | Some k \<Rightarrow> follow k \<noteq> None \<and> node_mode k \<noteq> ModeDir)"

definition readme_file :: "(string \<times> fnode) list \<Rightarrow> bool" where
  "readme_file es = (case map_of es ''README.md'' of None \<Rightarrow> False | Some k \<Rightarrow> node_mode k \<noteq> ModeDir)"

fun survey :: "string \<Rightarrow> string list \<Rightarrow> fnode \<Rightarrow> finding list"
  and survey_entries :: "string list \<Rightarrow> bool \<Rightarrow> (string \<times> fnode) list \<Rightarrow> finding list" where
  "survey nm ds (DirN pm es) = (if nm = ''prod-readiness'' then [] else survey_entries ds (has_meta es) es)"
| "survey nm ds n = []"
| "survey_entries ds m [] = []"
| "survey_entries ds m ((nm, n) # es) =
     (if node_mode n = ModeDir then survey nm (ds @ [nm]) n @ survey_entries ds m es
      else if m \<and> nm = ''kep.yaml'' then [Metadata ds]
      else if nm = ''README.md'' \<and> ds \<noteq> [] \<and> \<not> m then NoMetadata ds # survey_entries ds m es
      else survey_entries ds m es)"

text \<open>Directories whose entries have distinct names, in the order of the file system.\<close>

fun sorted_names :: "fnode \<Rightarrow> bool" where
  "sorted_names (DirN pm es) \<longleftrightarrow> sorted_wrt (<) (map fst es) \<and> (\<forall>e\<in>set es. sorted_names (snd e))"
| "sorted_names n \<longleftrightarrow> True"

lemma sorted_fst_distinct: "sorted_wrt (<) (map fst es) \<Longrightarrow> distinct (map fst es)" for es :: "(string \<times> 'b) list"
  by (simp add: strict_sorted_iff)


section \<open>The traversal makes the survey\<close>

text \<open>The state of the callback after some findings.\<close>

abbreviation kepdir_elems :: "Repo \<Rightarrow> string list" where
  "kepdir_elems r \<equiv> base_elems r @ [''keps'']"

definition dir_path :: "Repo \<Rightarrow> string list \<Rightarrow> string" where
  "dir_path r ds = render (base_root r) (kepdir_elems r @ ds)"

definition meta_path :: "Repo \<Rightarrow> string list \<Rightarrow> string" where
  "meta_path r ds = render (base_root r) (kepdir_elems r @ ds @ [''kep.yaml''])"

definition missing_metadata :: "string \<Rightarrow> goerr" where
  "missing_metadata f = ErrorString (''metadata file missing for KEP: '' @ f)"

fun note_finding :: "Repo \<Rightarrow> finding \<Rightarrow> string list \<times> valErrs \<Rightarrow> string list \<times> valErrs" where
  "note_finding r (Metadata ds) s = (fst s @ [meta_path r ds], snd s)"
| "note_finding r (NoMetadata ds) s =
     (fst s, add_valErr (meta_path r ds) (missing_metadata (meta_path r ds)) (snd s))"

abbreviation note_findings :: "Repo \<Rightarrow> finding list \<Rightarrow> string list \<times> valErrs \<Rightarrow> string list \<times> valErrs" where
  "note_findings r fs s \<equiv> foldl (\<lambda>s f. note_finding r f s) s fs"

lemma keps_plain: "list_all plain ds \<Longrightarrow> list_all plain (''keps'' # ds)"
  by simp

lemma dir_path_cleaned: "list_all plain ds \<Longrightarrow> cleaned (base_root r) (kepdir_elems r @ ds)"
  using cleaned_base(2) [OF keps_plain] by simp

lemma dir_path_Nil: "repo_paths r \<Longrightarrow> ProposalPath r = dir_path r []"
  by (simp add: ProposalPath_render dir_path_def)

lemma dir_path_child:
  assumes "list_all plain ds" and "plain nm"
  shows "FJoin [dir_path r ds, nm] = dir_path r (ds @ [nm])"
  using FJoin_render [OF dir_path_cleaned [OF assms(1)] assms(2)] by (simp add: dir_path_def)

lemma dir_path_Dir:
  assumes "list_all plain ds" and "plain nm"
  shows "Dir (dir_path r (ds @ [nm])) = dir_path r ds"
  using Dir_render [OF dir_path_cleaned [OF assms(1)] assms(2)] by (simp add: dir_path_def)

lemma meta_path_eq: "list_all plain ds \<Longrightarrow> FJoin [dir_path r ds, ''kep.yaml''] = meta_path r ds"
  by (simp add: dir_path_child) (simp add: dir_path_def meta_path_def)

lemma dir_path_neq:
  assumes "list_all plain ds" and "ds \<noteq> []"
  shows "dir_path r ds \<noteq> dir_path r []"
proof
  assume "dir_path r ds = dir_path r []"
  then have "path_elems (render (base_root r) (kepdir_elems r @ ds)) = path_elems (render (base_root r) (kepdir_elems r @ []))"
    unfolding dir_path_def by simp
  with dir_path_cleaned [OF assms(1), of r] dir_path_cleaned [of "[]" r] assms(2) show False
    by (simp add: path_elems_cleaned)
qed

lemma find_child:
  assumes "find_node w (dir_path r ds) = Inr (DirN pm es)" and "list_all plain ds" and "plain c"
  shows "find_node w (dir_path r (ds @ [c])) = (case map_of es c of None \<Rightarrow> Inl ENOENT | Some k \<Rightarrow> Inr k)"
proof -
  note cl = dir_path_cleaned [OF assms(2), of r]
  have "abs_elems w (dir_path r (ds @ [c])) = abs_elems w (dir_path r ds) @ [c]"
    using abs_elems_snoc [OF cl assms(3)] by (simp add: dir_path_def)
  moreover have "dir_path r (ds @ [c]) \<noteq> []" "dir_path r ds \<noteq> []"
    using dir_path_cleaned [of "ds @ [c]" r] cl assms(2,3) unfolding dir_path_def
    by (intro render_neq_Nil, simp)+
  ultimately show ?thesis
    using assms(1) by (simp add: find_node_def lookup_at_append split: option.splits)
qed

lemma meta_path_child: "meta_path r ds = dir_path r (ds @ [''kep.yaml''])"
  by (simp add: meta_path_def dir_path_def)

lemma Stat_meta:
  assumes "find_node w (dir_path r ds) = Inr (DirN pm es)" and "list_all plain ds"
  shows "has_meta es \<Longrightarrow> \<exists>fi. Stat w (meta_path r ds) = Inr fi"
    and "\<not> has_meta es \<Longrightarrow> Stat w (meta_path r ds) = Inl (PathError ''stat'' (meta_path r ds) ENOENT)"
  using find_child [OF assms plain_stubs(2)]
  by (auto simp: Stat_def find_followed_def meta_path_child has_meta_def split: option.splits)

lemma Validate_fn_dir:
  "Validate_fn w d s p (Some (info_of nm (DirN pm es))) None =
    (s, if nm = ''prod-readiness'' then WSkipDir else WNil)"
  by (simp add: Validate_fn_def PRRApprovalPathStub_def)

lemma Validate_fn_file:
  assumes "find_node w (dir_path r ds) = Inr (DirN pm es)" and "list_all plain ds"
    and "plain nm" and "node_mode n \<noteq> ModeDir"
  shows "Validate_fn w (dir_path r []) s (dir_path r (ds @ [nm])) (Some (info_of nm n)) None =
    (if has_meta es \<and> nm = ''kep.yaml'' then (note_finding r (Metadata ds) s, WSkipDir)
     else if nm = ''README.md'' \<and> ds \<noteq> [] \<and> \<not> has_meta es then (note_finding r (NoMetadata ds) s, WNil)
     else (s, WNil))"
proof -
  note stat = Stat_meta [OF assms(1,2)]
  have isl: "isl (Stat w (meta_path r ds)) \<longleftrightarrow> \<not> has_meta es"
    and ne: "(case Stat w (meta_path r ds) of Inl e \<Rightarrow> IsNotExist e | Inr mi \<Rightarrow> False) \<longleftrightarrow> \<not> has_meta es"
    using stat by (cases "has_meta es"; auto)+
  have root: "dir_path r ds = dir_path r [] \<longleftrightarrow> ds = []" using dir_path_neq [OF assms(2)] by auto
  have "\<not> IsDir (info_of nm n)" using assms(4) by simp
  then show ?thesis
    by (simp add: Validate_fn_def dir_path_Dir [OF assms(2,3)] ProposalMetadataFilename_def ProposalFilename_def
        meta_path_eq [OF assms(2)] isl root ne missing_metadata_def Let_def)
qed

lemma walk_survey:
  shows "list_all plain ds \<Longrightarrow> find_node w (dir_path r ds) = Inr n \<Longrightarrow> node_mode n = ModeDir \<Longrightarrow>
      plain_names n \<Longrightarrow> listable n \<Longrightarrow> sorted_names n \<Longrightarrow>
      \<exists>x\<in>{WNil, WSkipDir}. walk (Validate_fn w (dir_path r [])) (dir_path r ds) nm n s =
        (note_findings r (survey nm ds n) s, x)"
    and "list_all plain ds \<Longrightarrow> find_node w (dir_path r ds) = Inr (DirN pm es0) \<Longrightarrow> set es \<subseteq> set es0 \<Longrightarrow>
      m = has_meta es0 \<Longrightarrow> sorted_wrt (<) (map fst es0) \<Longrightarrow>
      \<forall>e\<in>set es. plain (fst e) \<and> plain_names (snd e) \<and> listable (snd e) \<and> sorted_names (snd e) \<Longrightarrow>
      \<exists>x\<in>{WNil, WSkipDir}. walk_entries (Validate_fn w (dir_path r [])) (dir_path r ds) es s =
        (note_findings r (survey_entries ds m es) s, x)"
proof (induction nm ds n and ds m es arbitrary: s and s pm es0 rule: survey_survey_entries.induct)
  case (1 nm ds pm es)
  show ?case
  proof (cases "nm = ''prod-readiness''")
    case True
    with 1 show ?thesis by (simp add: Validate_fn_dir)
  next
    case False
    from 1 have "rd pm" by simp
    with 1 False show ?thesis by (auto simp: Validate_fn_dir intro: 1(1) [OF False])
  qed
next
  case (4 ds m nm n es)
  let ?f = "Validate_fn w (dir_path r [])"
  have pl: "plain nm" "plain_names n" "listable n" "sorted_names n" and ds': "list_all plain (ds @ [nm])"
    using 4 by auto
  have "map_of es0 nm = Some n"
    using 4 by (intro map_of_is_SomeI sorted_fst_distinct) auto
  then have child: "find_node w (dir_path r (ds @ [nm])) = Inr n"
    using find_child [OF 4(6) 4(5) pl(1)] by simp
  have p: "FJoin [dir_path r ds, nm] = dir_path r (ds @ [nm])" by (rule dir_path_child [OF 4(5) pl(1)])
  have rest: "set es \<subseteq> set es0"
    "\<forall>e\<in>set es. plain (fst e) \<and> plain_names (snd e) \<and> listable (snd e) \<and> sorted_names (snd e)"
    using 4 by auto
  show ?case
  proof (cases "node_mode n = ModeDir")
    case True
    obtain x where "x = WNil \<or> x = WSkipDir"
      "walk ?f (FJoin [dir_path r ds, nm]) nm n s = (note_findings r (survey nm (ds @ [nm]) n) s, x)"
      unfolding p using 4(1) [OF True ds' child True pl(2-4), of s] by auto
    with True 4(2) [OF True 4(5,6) rest(1) 4(8,9) rest(2), of "note_findings r (survey nm (ds @ [nm]) n) s"]
    show ?thesis by auto
  next
    case False
    then have w: "walk ?f (FJoin [dir_path r ds, nm]) nm n s = ?f s (dir_path r (ds @ [nm])) (Some (info_of nm n)) None"
      unfolding p by (rule walk_not_dir)
    note f = w [unfolded Validate_fn_file [OF 4(6) 4(5) pl(1) False]]
    consider "m \<and> nm = ''kep.yaml''" | "\<not> (m \<and> nm = ''kep.yaml'')" "nm = ''README.md'' \<and> ds \<noteq> [] \<and> \<not> m"
      | "\<not> (m \<and> nm = ''kep.yaml'')" "\<not> (nm = ''README.md'' \<and> ds \<noteq> [] \<and> \<not> m)" by blast
    then show ?thesis
    proof cases
      case 1
      with False 4(8) f show ?thesis by simp
    next
      case 2
      from 4(3) [OF False 2 4(5,6) rest(1) 4(8,9) rest(2)] False 2 4(8) f show ?thesis by (simp split del: if_split)
    next
      case 3
      from 4(4) [OF False 3 4(5,6) rest(1) 4(8,9) rest(2)] False 3 4(8) f show ?thesis by auto
    qed
  qed
qed simp_all


section \<open>What the survey finds\<close>

text \<open>
  The directories entered: not prod-readiness ones, and behind a metadata file, in the order of the
  names, none of its siblings.
\<close>

inductive surveyed :: "fnode \<Rightarrow> string list \<Rightarrow> fnode \<Rightarrow> bool" where
  root: "surveyed n [] n"
| enter: "(c, m) \<in> set es \<Longrightarrow> node_mode m = ModeDir \<Longrightarrow> c \<noteq> ''prod-readiness'' \<Longrightarrow>
    \<not> (meta_file es \<and> ''kep.yaml'' < c) \<Longrightarrow> surveyed m ds k \<Longrightarrow> surveyed (DirN pm es) (c # ds) k"

inductive_simps surveyed_Nil_iff [simp]: "surveyed n [] k"
inductive_simps surveyed_Dir_iff: "surveyed (DirN pm es) (c # ds) k"

lemma meta_file_iff:
  "distinct (map fst es) \<Longrightarrow>
   meta_file es \<longleftrightarrow> has_meta es \<and> (\<exists>k. (''kep.yaml'', k) \<in> set es \<and> node_mode k \<noteq> ModeDir)"
  by (auto simp: meta_file_def has_meta_def split: option.splits dest: map_of_SomeD) (metis map_of_is_SomeI option.sel)+

lemma readme_file_iff:
  "distinct (map fst es) \<Longrightarrow> readme_file es \<longleftrightarrow> (\<exists>k. (''README.md'', k) \<in> set es \<and> node_mode k \<noteq> ModeDir)"
  by (auto simp: readme_file_def split: option.splits dest: map_of_SomeD) (metis map_of_is_SomeI option.sel)+

text \<open>Entries behind a metadata file are not surveyed; each of the others contributes its part.\<close>

definition stops :: "bool \<Rightarrow> string \<times> fnode \<Rightarrow> bool" where
  "stops m e \<longleftrightarrow> m \<and> fst e = ''kep.yaml'' \<and> node_mode (snd e) \<noteq> ModeDir"

definition entry_findings :: "string list \<Rightarrow> bool \<Rightarrow> string \<times> fnode \<Rightarrow> finding list" where
  "entry_findings ds m e =
     (if node_mode (snd e) = ModeDir then survey (fst e) (ds @ [fst e]) (snd e)
      else if stops m e then [Metadata ds]
      else if fst e = ''README.md'' \<and> ds \<noteq> [] \<and> \<not> m then [NoMetadata ds] else [])"

lemma entry_findings_iff:
  "f \<in> set (entry_findings ds m e) \<longleftrightarrow>
     node_mode (snd e) = ModeDir \<and> f \<in> set (survey (fst e) (ds @ [fst e]) (snd e)) \<or>
     stops m e \<and> f = Metadata ds \<or>
     node_mode (snd e) \<noteq> ModeDir \<and> fst e = ''README.md'' \<and> ds \<noteq> [] \<and> \<not> m \<and> f = NoMetadata ds"
  by (auto simp: entry_findings_def stops_def)

lemma survey_entries_Cons:
  "f \<in> set (survey_entries ds m (e # es)) \<longleftrightarrow>
   f \<in> set (entry_findings ds m e) \<or> \<not> stops m e \<and> f \<in> set (survey_entries ds m es)"
  by (cases e) (auto simp: entry_findings_def stops_def)

lemma survey_entries_set:
  "sorted_wrt (<) (map fst es) \<Longrightarrow> f \<in> set (survey_entries ds m es) \<longleftrightarrow>
   (\<exists>e\<in>set es. \<not> (\<exists>x\<in>set es. stops m x \<and> fst x < fst e) \<and> f \<in> set (entry_findings ds m e))"
proof (induction es)
  case (Cons x es)
  then have lt: "\<forall>e\<in>set es. fst x < fst e" and IH: "f \<in> set (survey_entries ds m es) \<longleftrightarrow>
      (\<exists>e\<in>set es. \<not> (\<exists>y\<in>set es. stops m y \<and> fst y < fst e) \<and> f \<in> set (entry_findings ds m e))"
    by auto
  have "\<not> (\<exists>y\<in>set (x # es). stops m y \<and> fst y < fst x)" using lt by (auto dest: less_asym)
  moreover have "(\<exists>y\<in>set (x # es). stops m y \<and> fst y < fst e) \<longleftrightarrow>
      stops m x \<or> (\<exists>y\<in>set es. stops m y \<and> fst y < fst e)" if "e \<in> set es" for e
    using lt that by auto
  ultimately show ?case
    unfolding survey_entries_Cons IH by (simp del: bex_simps) blast
qed simp

definition own_finding :: "string list \<Rightarrow> (string \<times> fnode) list \<Rightarrow> finding \<Rightarrow> bool" where
  "own_finding xs es f \<longleftrightarrow>
     f = Metadata xs \<and> meta_file es \<or> f = NoMetadata xs \<and> xs \<noteq> [] \<and> readme_file es \<and> \<not> has_meta es"

lemma survey_entries_sorted:
  assumes "sorted_wrt (<) (map fst es)"
  shows "f \<in> set (survey_entries ds (has_meta es) es) \<longleftrightarrow> own_finding ds es f \<or>
    (\<exists>(c, m)\<in>set es. node_mode m = ModeDir \<and> \<not> (meta_file es \<and> ''kep.yaml'' < c) \<and> f \<in> set (survey c (ds @ [c]) m))"
proof -
  note dist = sorted_fst_distinct [OF assms]
  let ?late = "\<lambda>e. meta_file es \<and> ''kep.yaml'' < fst e"
  have late: "(\<exists>x\<in>set es. stops (has_meta es) x \<and> fst x < fst e) \<longleftrightarrow> ?late e" for e :: "string \<times> fnode"
  proof -
    have "(\<exists>x\<in>set es. stops (has_meta es) x \<and> fst x < c) \<longleftrightarrow>
        has_meta es \<and> (\<exists>k. (''kep.yaml'', k) \<in> set es \<and> node_mode k \<noteq> ModeDir) \<and> ''kep.yaml'' < c" for c
      by (force simp: stops_def)
    then show ?thesis by (simp add: meta_file_iff [OF dist])
  qed
  have "f \<in> set (survey_entries ds (has_meta es) es) \<longleftrightarrow>
      (\<exists>e\<in>set es. \<not> ?late e \<and> f \<in> set (entry_findings ds (has_meta es) e))"
    unfolding survey_entries_set [OF assms] late ..
  also have "\<dots> \<longleftrightarrow>
      (\<exists>e\<in>set es. stops (has_meta es) e \<and> \<not> ?late e \<and> f = Metadata ds) \<or>
      (\<exists>e\<in>set es. node_mode (snd e) \<noteq> ModeDir \<and> fst e = ''README.md'' \<and> ds \<noteq> [] \<and> \<not> has_meta es \<and> \<not> ?late e \<and>
         f = NoMetadata ds) \<or>
      (\<exists>e\<in>set es. node_mode (snd e) = ModeDir \<and> \<not> ?late e \<and> f \<in> set (survey (fst e) (ds @ [fst e]) (snd e)))"
    unfolding entry_findings_iff bex_disj_distrib [symmetric] by (rule bex_cong [OF refl]) blast
  also have "(\<exists>e\<in>set es. stops (has_meta es) e \<and> \<not> ?late e \<and> f = Metadata ds) \<longleftrightarrow> f = Metadata ds \<and> meta_file es"
    unfolding stops_def meta_file_iff [OF dist] by force
  also have "(\<exists>e\<in>set es. node_mode (snd e) \<noteq> ModeDir \<and> fst e = ''README.md'' \<and> ds \<noteq> [] \<and> \<not> has_meta es \<and> \<not> ?late e \<and>
      f = NoMetadata ds) \<longleftrightarrow> f = NoMetadata ds \<and> ds \<noteq> [] \<and> readme_file es \<and> \<not> has_meta es"
    unfolding readme_file_iff [OF dist] meta_file_iff [OF dist] by force
  finally show ?thesis by (simp add: own_finding_def case_prod_beta)
qed

lemma survey_set:
  "sorted_names n \<Longrightarrow> nm \<noteq> ''prod-readiness'' \<Longrightarrow>
   f \<in> set (survey nm ds n) \<longleftrightarrow> (\<exists>ys pm es. surveyed n ys (DirN pm es) \<and> own_finding (ds @ ys) es f)"
proof (induction n arbitrary: nm ds)
  case (DirN pm es)
  have IH: "f \<in> set (survey c (ds @ [c]) m) \<longleftrightarrow>
      c \<noteq> ''prod-readiness'' \<and> (\<exists>ys pm es. surveyed m ys (DirN pm es) \<and> own_finding (ds @ c # ys) es f)"
    if "(c, m) \<in> set es" "node_mode m = ModeDir" for c m
  proof (cases "c = ''prod-readiness''")
    case True
    with that(2) show ?thesis by (cases m) auto
  next
    case False
    moreover have "sorted_names m" using that DirN.prems by auto
    ultimately show ?thesis using DirN.IH [of "(c, m)" m c "ds @ [c]"] that by simp
  qed
  have "f \<in> set (survey nm ds (DirN pm es)) \<longleftrightarrow> own_finding ds es f \<or>
      (\<exists>(c, m)\<in>set es. node_mode m = ModeDir \<and> \<not> (meta_file es \<and> ''kep.yaml'' < c) \<and>
        c \<noteq> ''prod-readiness'' \<and> (\<exists>ys pm es. surveyed m ys (DirN pm es) \<and> own_finding (ds @ c # ys) es f))"
  proof -
    have "(case e of (c, m) \<Rightarrow> node_mode m = ModeDir \<and> \<not> (meta_file es \<and> ''kep.yaml'' < c) \<and> f \<in> set (survey c (ds @ [c]) m)) \<longleftrightarrow>
        (case e of (c, m) \<Rightarrow> node_mode m = ModeDir \<and> \<not> (meta_file es \<and> ''kep.yaml'' < c) \<and>
          c \<noteq> ''prod-readiness'' \<and> (\<exists>ys pm es. surveyed m ys (DirN pm es) \<and> own_finding (ds @ c # ys) es f))"
      if "e \<in> set es" for e
    proof -
      obtain c m where e: "e = (c, m)" by (cases e)
      with that IH [of c m] show ?thesis unfolding e prod.case by blast
    qed
    then show ?thesis
      using DirN.prems survey_entries_sorted [of es f ds] by (simp cong: bex_cong)
  qed
  also have "\<dots> \<longleftrightarrow> (\<exists>ys pm' es'. surveyed (DirN pm es) ys (DirN pm' es') \<and> own_finding (ds @ ys) es' f)"
    (is "?A \<or> ?B \<longleftrightarrow> ?C")
  proof
    assume "?A \<or> ?B"
    then show ?C
    proof
      assume ?A
      then show ?C by (intro exI [of _ "[]"]) auto
    next
      assume ?B
      then obtain c m ys pm' es' where "(c, m) \<in> set es" "node_mode m = ModeDir" "c \<noteq> ''prod-readiness''"
        "\<not> (meta_file es \<and> ''kep.yaml'' < c)" "surveyed m ys (DirN pm' es')" "own_finding (ds @ c # ys) es' f" by auto
      then show ?C by (intro exI [of _ "c # ys"]) (auto intro: surveyed.enter)
    qed
  next
    assume ?C
    then obtain ys pm' es' where y: "surveyed (DirN pm es) ys (DirN pm' es')" "own_finding (ds @ ys) es' f" by blast
    then show "?A \<or> ?B"
      by (cases ys) (auto simp: surveyed_Dir_iff)
  qed
  finally show ?case .
qed (auto elim: surveyed.cases)

text \<open>Nothing is found twice.\<close>

fun dir_of :: "finding \<Rightarrow> string list" where
  "dir_of (Metadata ds) = ds"
| "dir_of (NoMetadata ds) = ds"

lemma survey_below:
  shows "f \<in> set (survey nm ds n) \<Longrightarrow> prefix ds (dir_of f)"
    and "f \<in> set (survey_entries ds m es) \<Longrightarrow>
      f = Metadata ds \<or> f = NoMetadata ds \<and> ''README.md'' \<in> fst ` set es \<or>
      (\<exists>c\<in>fst ` set es. prefix (ds @ [c]) (dir_of f))"
proof (induction nm ds n and ds m es rule: survey_survey_entries.induct)
  case (1 nm ds pm es)
  then show ?case by (auto split: if_splits dest: append_prefixD)
qed (auto split: if_splits)

lemma survey_distinct:
  shows "sorted_names n \<Longrightarrow> distinct (survey nm ds n)"
    and "distinct (map fst es) \<Longrightarrow> \<forall>e\<in>set es. sorted_names (snd e) \<Longrightarrow> distinct (survey_entries ds m es)"
proof (induction nm ds n and ds m es rule: survey_survey_entries.induct)
  case (1 nm ds pm es)
  then show ?case by (auto intro: sorted_fst_distinct)
next
  case (4 ds m nm n es)
  have same: "prefix (ds @ [c]) xs \<Longrightarrow> prefix (ds @ [d]) xs \<Longrightarrow> c = d" for c d :: string and xs
    using prefix_same_cases [of "ds @ [c]" xs "ds @ [d]"] by auto
  have sep: "f \<notin> set (survey_entries ds m es)" if "f \<in> set (survey nm (ds @ [nm]) n)" for f
  proof
    assume "f \<in> set (survey_entries ds m es)"
    from survey_below(2) [OF this] consider "dir_of f = ds" | c where "c \<in> fst ` set es" "prefix (ds @ [c]) (dir_of f)"
      by (metis dir_of.simps)
    then show False
    proof cases
      case 1
      with survey_below(1) [OF that] show ?thesis by simp
    next
      case 2
      with same [OF survey_below(1) [OF that]] have "nm \<in> fst ` set es" by blast
      with 4(5) show ?thesis by simp
    qed
  qed
  have readme: "NoMetadata ds \<notin> set (survey_entries ds m es)" if "nm = ''README.md''"
  proof
    assume "NoMetadata ds \<in> set (survey_entries ds m es)"
    from survey_below(2) [OF this] have "nm \<in> fst ` set es" unfolding that by simp
    with 4(5) show False by simp
  qed
  from 4(5,6) have tail: "distinct (map fst es)" "\<forall>e\<in>set es. sorted_names (snd e)" by auto
  show ?case
  proof (cases "node_mode n = ModeDir")
    case True
    with 4(1) 4(2) [OF True tail] 4(6) sep show ?thesis by auto
  next
    case False
    with 4(3,4) [OF False] tail readme show ?thesis by (cases m) simp_all
  qed
qed simp_all


section \<open>No error is fatal\<close>

fun harmless :: "goerr option \<Rightarrow> bool" where
  "harmless None = True"
| "harmless (Some e) = (\<not> As_fatalValidationError e)"

text \<open>
  The error type is private to the package, so no other package makes values of it: none is in the
  errors of the decoders, the validators and the parser of versions. The error field of a
  struct is excluded from decoding, so that it stays nil.
\<close>

definition no_fatal :: "'a repo_lib_scheme \<Rightarrow> bool" where
  "no_fatal L \<longleftrightarrow>
     (\<forall>strict text v. harmless (snd (yaml_Proposal L strict text v))) \<and>
     (\<forall>strict text v. harmless (snd (yaml_PRR L strict text v))) \<and>
     (\<forall>strict text p q. yaml_Proposal L strict text (Some p) = (Some q, None) \<longrightarrow> Error p = None \<longrightarrow> Error q = None) \<and>
     (\<forall>strict text p q. yaml_PRR L strict text (Some p) = (Some q, None) \<longrightarrow> prr_Error p = None \<longrightarrow> prr_Error q = None) \<and>
     (\<forall>v. harmless (validator_Proposal L v)) \<and> (\<forall>v. harmless (validator_PRR L v)) \<and>
     (\<forall>s e. semver_ParseTolerant L s = Inl e \<longrightarrow> \<not> As_fatalValidationError e)"

lemma no_fatalD:
  assumes "no_fatal L"
  shows "harmless (snd (yaml_Proposal L strict text v))" and "harmless (snd (yaml_PRR L strict text u))"
    and "yaml_Proposal L strict text (Some p) = (Some q, None) \<Longrightarrow> Error p = None \<Longrightarrow> Error q = None"
    and "yaml_PRR L strict text (Some a) = (Some b, None) \<Longrightarrow> prr_Error a = None \<Longrightarrow> prr_Error b = None"
    and "harmless (validator_Proposal L v)" and "harmless (validator_PRR L u)"
    and "semver_ParseTolerant L s = Inl e \<Longrightarrow> \<not> As_fatalValidationError e"
  using assms unfolding no_fatal_def by blast+

lemma fatal_simps [simp]:
  "\<not> As_fatalValidationError (ErrorString s)" "\<not> As_fatalValidationError (LibError s)"
  "\<not> As_fatalValidationError (PathError op p n)"
  "As_fatalValidationError (WrapError s e) = As_fatalValidationError e"
  "As_fatalValidationError (FatalPtr e) = As_fatalValidationError e"
  by (simp_all add: As_fatalValidationError_def)

lemma fatal_lib_wraps:
  assumes "lib_wraps e' e"
  shows "As_fatalValidationError e' = As_fatalValidationError e"
proof -
  from lib_wraps_chain [OF assms] obtain ws where "error_chain e' = ws @ error_chain e"
    "\<forall>w\<in>set ws. \<exists>s x. w = LibWrap s x" by blast
  then show ?thesis by (fastforce simp: As_fatalValidationError_def list_ex_iff)
qed

lemma harmless_Wrap:
  assumes "errors_lib_ok L" and "harmless eo"
  shows "harmless (errors_Wrap L eo m)"
proof (cases eo)
  case None
  then show ?thesis by (simp add: errors_Wrap_None [OF assms(1)])
next
  case (Some e)
  obtain e' where "errors_Wrap L (Some e) m = Some e'" "lib_wraps e' e"
    using errors_Wrap_Some [OF assms(1)] by blast
  with Some assms(2) show ?thesis by (simp add: fatal_lib_wraps)
qed

lemma harmless_New: "errors_lib_ok L \<Longrightarrow> \<not> As_fatalValidationError (errors_New L m)"
  using errors_New_leaf [of L m] by auto

lemma harmless_scan: "harmless (snd r) \<Longrightarrow> harmless (scan_err r)"
  by (simp add: scan_err_def ErrTooLong_def)

lemma harmless_Open: "Open w f = Inl e \<Longrightarrow> \<not> As_fatalValidationError e" "Open w f = Inr r \<Longrightarrow> harmless (snd r)"
  by (auto simp: Open_def split: sum.splits fnode.splits if_splits)

definition libs_ok :: "'a repo_lib_scheme \<Rightarrow> bool" where
  "libs_ok L \<longleftrightarrow> errors_lib_ok L \<and> validator_Proposal_ok L \<and> validator_PRR_ok L \<and> no_fatal L"

lemma libs_okD:
  assumes "libs_ok L"
  shows "errors_lib_ok L" "validator_Proposal_ok L" "validator_PRR_ok L" "no_fatal L"
  using assms by (simp_all add: libs_ok_def)

lemma harmless_KEPHandler_Parse:
  assumes "libs_ok L" and "harmless (snd r)" and "KEPHandler_Parse L k r = Ret (k', po, eo)"
  shows "harmless eo \<and> (eo = None \<longrightarrow> (\<exists>p. po = Some p \<and> Error p = None))"
proof -
  note L = libs_okD [OF assms(1)]
  note w = harmless_Wrap [OF L(1)] and ne = errors_Wrap_None_iffs [OF L(1)]
  have z: "Error (zero_Proposal\<lparr>Contents := b\<rparr>) = None" for b by (simp add: zero_Proposal_def)
  show ?thesis
  proof (rule Parse_cases [OF L(2), of r k])
    fix e p assume "scan_err r = Some e"
      and "KEPHandler_Parse L k r = Ret (k, Some p, errors_Wrap L (Some e) ''reading file'')"
    with assms w [OF harmless_scan [OF assms(2)], of "''reading file''"] show ?thesis by (auto simp: ne)
  next
    fix q e assume "decoded L r = (q, Some e)"
      and p: "KEPHandler_Parse L k r = Ret (add_error (errors_Wrap L (Some e) ''error unmarshalling YAML'') k, q,
        errors_Wrap L (Some e) ''unmarshalling YAML'')"
    then have "harmless (Some e)" using no_fatalD(1) [OF L(4)] unfolding decoded_def by (metis snd_conv)
    from w [OF this] p assms(3) show ?thesis by (auto simp: ne)
  next
    fix q e assume "validateStruct L q = Some e"
      and p: "KEPHandler_Parse L k r = Ret (add_error (Some e) k, q, Some (WrapError ''validating KEP: '' e))"
    then have "harmless (Some e)" using no_fatalD(5) [OF L(4)] unfolding validateStruct_def by metis
    with p assms(3) show ?thesis by simp
  next
    fix p assume "decoded L r = (Some p, None)" and "KEPHandler_Parse L k r = Ret (k, Some (with_ID p), None)"
    moreover from this have "Error p = None" using no_fatalD(3) [OF L(4)] z unfolding decoded_def by blast
    ultimately show ?thesis using assms(3) by (simp add: with_ID_def)
  qed
qed

lemma harmless_PRRHandler_Parse:
  assumes "libs_ok L" and "harmless (snd r)" and "PRRHandler_Parse L h r = (h', po, eo)"
  shows "harmless eo" and "eo = None \<Longrightarrow> po = Some p \<Longrightarrow> prr_Error p = None"
proof -
  note L = libs_okD [OF assms(1)]
  note w = harmless_Wrap [OF L(1)]
  let ?b = "prr_body (scan_text r)"
  obtain q qe where q: "yaml_PRR L True ?b (Some zero_PRRApproval) = (q, qe)"
    by (cases "yaml_PRR L True ?b (Some zero_PRRApproval)")
  with no_fatalD(2) [OF L(4)] have h: "harmless qe" by (metis snd_conv)
  have "prr_Error zero_PRRApproval = None" by (simp add: zero_PRRApproval_def)
  then have e: "prr_Error x = None" if "q = Some x" "qe = None" for x
    using no_fatalD(4) [OF L(4)] q that by blast
  have "harmless (validator_PRR L q)" by (rule no_fatalD(6) [OF L(4)])
  then have v: "harmless (PRRApproval_Validate L q)"
    using w [of "validator_PRR L q"] by (cases "validator_PRR L q") (simp_all add: PRRApproval_Validate_def)
  note parse = PRRHandler_Parse_def Let_def UnmarshalStrict_def q errors_Wrap_None_iffs [OF L(1)]
  have "harmless eo \<and> (eo = None \<longrightarrow> po = Some p \<longrightarrow> prr_Error p = None)"
  proof (cases "scan_err r")
    case (Some e)
    with assms(3) w [OF harmless_scan [OF assms(2)]] show ?thesis by (auto simp: parse)
  next
    case None
    show ?thesis
    proof (cases qe)
      case (Some e)
      with assms(3) None w [OF h] show ?thesis by (auto simp: parse)
    next
      case qe: None
      show ?thesis
      proof (cases "PRRApproval_Validate L q")
        case (Some e)
        with assms(3) None qe w [OF v] show ?thesis by (auto simp: parse)
      next
        case None
        with assms(3) \<open>scan_err r = None\<close> qe e show ?thesis by (auto simp: parse)
      qed
    qed
  qed
  then show "harmless eo" and "eo = None \<Longrightarrow> po = Some p \<Longrightarrow> prr_Error p = None" by blast+
qed

lemma harmless_check_approver: "errors_lib_ok L \<Longrightarrow> harmless (check_approver L kep h prr)"
proof -
  assume L: "errors_lib_ok L"
  have "\<not> As_fatalValidationError e" if "ApproverForStage L prr s = Inl e" for s e
    using that harmless_New [OF L]
    by (auto simp: ApproverForStage_def approver_of_def Stage_IsValid_def is_valid_loop_eq
        ErrPRRMilestonesAllEmpty_def ErrPRRMilestoneIsNil_def ErrPRRApproverUnknown_def
        split: option.splits if_splits)
  then show ?thesis
    using harmless_New [OF L] harmless_Wrap [OF L]
    by (cases "ApproverForStage L prr (StageOf kep)") (auto simp: check_approver_def Let_def)
qed

lemma harmless_isPRRRequired:
  assumes "errors_lib_ok L" and "no_fatal L" and "isPRRRequired L kep = (b, eo)"
  shows "harmless eo"
proof -
  have "\<not> As_fatalValidationError e" if "semver_ParseTolerant L s = Inl e" for s e
    using no_fatalD(7) [OF assms(2) that] .
  then have v: "harmless (errors_Wrap L (Some e) m)" if "semver_ParseTolerant L s = Inl e" for s e m
    using harmless_Wrap [OF assms(1)] that by simp
  from assms(3) show ?thesis
    by (auto simp: isPRRRequired_def Let_def v split: if_splits sum.splits)
qed

lemma harmless_ValidatePRR:
  assumes "libs_ok L" and "ValidatePRR L w kep h d = Ret (h', eo)"
  shows "harmless eo"
proof -
  note L = libs_okD [OF assms(1)]
  note wr = harmless_Wrap [OF L(1)]
  obtain b ro where q: "isPRRRequired L kep = (b, ro)" by (cases "isPRRRequired L kep")
  note hq = harmless_isPRRRequired [OF L(1,4) q]
  show ?thesis
  proof (cases "ro = None \<and> b")
    case False
    with assms(2) wr [OF hq] show ?thesis by (cases ro) (auto simp: ValidatePRR_def q)
  next
    case True
    let ?p = "prr_filepath kep d"
    show ?thesis
    proof (cases "Open w ?p")
      case (Inl e)
      with assms(2) True harmless_Open(1) [OF Inl] wr [of "Some e"] show ?thesis
        by (auto simp: ValidatePRR_def q Let_def split: if_splits)
    next
      case (Inr f)
      obtain h1 po pe where p: "PRRHandler_Parse L h f = (h1, po, pe)" by (cases "PRRHandler_Parse L h f")
      note hp = harmless_PRRHandler_Parse [OF assms(1) harmless_Open(2) [OF Inr] p]
      show ?thesis
        using assms(2) True Inr p wr [OF hp(1)] hp(2) harmless_check_approver [OF L(1)]
        by (cases pe; cases po) (auto simp: ValidatePRR_def q Let_def)
    qed
  qed
qed

text \<open>Validating a file never panics, and its error is not fatal.\<close>

lemma validateFile_harmless:
  assumes "libs_ok L"
  shows "\<exists>r' eo. validateFile L w r d f = Ret (r', eo) \<and> harmless eo"
proof (cases "Open w f")
  case (Inl e)
  with harmless_Open(1) [OF Inl] show ?thesis
    using validateFile_open_error [OF libs_okD(1) [OF assms] Inl, of r d] by auto
next
  case (Inr x)
  note L = libs_okD [OF assms]
  have "KEPHandler_Parse L (KEPHandler r) x \<noteq> Panic"
    by (rule Parse_cases [OF L(2), of x "KEPHandler r"]) simp_all
  then obtain k po pe where p: "KEPHandler_Parse L (KEPHandler r) x = Ret (k, po, pe)"
    by (cases "KEPHandler_Parse L (KEPHandler r) x") auto
  note hp = harmless_KEPHandler_Parse [OF assms harmless_Open(2) [OF Inr] p]
  show ?thesis
  proof (cases pe)
    case (Some e)
    with Inr p harmless_Wrap [OF L(1), of pe] hp show ?thesis by (simp add: validateFile_def Let_def)
  next
    case None
    with hp obtain kep where kep: "po = Some kep" "Error kep = None" by auto
    let ?k = "kep\<lparr>Filename := f\<rparr>"
    have "ValidatePRR L w ?k (PRRHandler r) d \<noteq> Panic" using ValidatePRR_nil [OF L(3,1)] by blast
    then obtain h eo where v: "ValidatePRR L w ?k (PRRHandler r) d = Ret (h, eo)"
      by (cases "ValidatePRR L w ?k (PRRHandler r) d") auto
    with Inr p None kep harmless_ValidatePRR [OF assms v] show ?thesis
      by (simp add: validateFile_def Let_def)
  qed
qed


section \<open>The validation as a whole\<close>

lemma validate_files_runs:
  assumes "libs_ok L"
  shows "\<exists>r' m'. validate_files L w r d fs m = Ret (r', m', None)"
proof (induction fs arbitrary: r m)
  case (Cons f fs)
  obtain r1 eo where "validateFile L w r d f = Ret (r1, eo)" "harmless eo"
    using validateFile_harmless [OF assms] by blast
  with Cons.IH [of r1] show ?case by (cases eo) simp_all
qed simp

text \<open>The metadata files below the keps directory, and those missing beside a proposal.\<close>

definition metadata_files :: "Repo \<Rightarrow> fnode \<Rightarrow> string set" where
  "metadata_files r n = {meta_path r ds | ds. \<exists>pm es. surveyed n ds (DirN pm es) \<and> meta_file es}"

definition missing_files :: "Repo \<Rightarrow> fnode \<Rightarrow> string set" where
  "missing_files r n =
     {meta_path r ds | ds. ds \<noteq> [] \<and> (\<exists>pm es. surveyed n ds (DirN pm es) \<and> readme_file es \<and> \<not> has_meta es)}"

lemma metadata_filesI: "surveyed n ds (DirN pm es) \<Longrightarrow> meta_file es \<Longrightarrow> meta_path r ds \<in> metadata_files r n"
  unfolding metadata_files_def by blast

lemma missing_filesI:
  "surveyed n ds (DirN pm es) \<Longrightarrow> readme_file es \<Longrightarrow> \<not> has_meta es \<Longrightarrow> ds \<noteq> [] \<Longrightarrow> meta_path r ds \<in> missing_files r n"
  unfolding missing_files_def by blast

definition missing_table :: "string set \<Rightarrow> valErrs" where
  "missing_table fs = (\<lambda>f. if f \<in> fs then Some [missing_metadata f] else None)"

definition metas_in :: "Repo \<Rightarrow> finding list \<Rightarrow> string list" where
  "metas_in r fs = map (\<lambda>f. meta_path r (dir_of f)) (filter (\<lambda>f. f = Metadata (dir_of f)) fs)"

definition missing_in :: "Repo \<Rightarrow> finding list \<Rightarrow> string list" where
  "missing_in r fs = map (\<lambda>f. meta_path r (dir_of f)) (filter (\<lambda>f. f = NoMetadata (dir_of f)) fs)"

lemma note_findings_eq:
  "distinct (missing_in r fs) \<Longrightarrow> \<forall>f\<in>set (missing_in r fs). m f = None \<Longrightarrow>
   note_findings r fs (xs, m) =
     (xs @ metas_in r fs, \<lambda>f. if f \<in> set (missing_in r fs) then Some [missing_metadata f] else m f)"
proof (induction fs arbitrary: xs m)
  case (Cons f fs)
  show ?case
  proof (cases f)
    case (Metadata ds)
    with Cons show ?thesis by (simp add: metas_in_def missing_in_def)
  next
    case (NoMetadata ds)
    let ?p = "meta_path r ds"
    let ?m = "add_valErr ?p (missing_metadata ?p) m"
    from NoMetadata have mi: "missing_in r (f # fs) = ?p # missing_in r fs" "metas_in r (f # fs) = metas_in r fs"
      by (simp_all add: missing_in_def metas_in_def)
    with Cons.prems have p: "?p \<notin> set (missing_in r fs)" "m ?p = None" "distinct (missing_in r fs)"
      "\<forall>f\<in>set (missing_in r fs). m f = None" by auto
    then have "\<forall>f\<in>set (missing_in r fs). ?m f = None" by (auto simp: add_valErr_def)
    then have "note_findings r (f # fs) (xs, m) = (xs @ metas_in r fs,
        \<lambda>f. if f \<in> set (missing_in r fs) then Some [missing_metadata f] else ?m f)"
      using Cons.IH [OF p(3)] NoMetadata by simp
    with p(1,2) show ?thesis
      unfolding mi by (auto simp: fun_eq_iff add_valErr_def)
  qed
qed (simp add: metas_in_def missing_in_def)

lemma survey_plain:
  shows "plain_names n \<Longrightarrow> list_all plain ds \<Longrightarrow> f \<in> set (survey nm ds n) \<Longrightarrow> list_all plain (dir_of f)"
    and "\<forall>e\<in>set es. plain (fst e) \<and> plain_names (snd e) \<Longrightarrow> list_all plain ds \<Longrightarrow>
      f \<in> set (survey_entries ds m es) \<Longrightarrow> list_all plain (dir_of f)"
  by (induction nm ds n and ds m es rule: survey_survey_entries.induct) (auto split: if_splits)

lemma meta_path_inj:
  assumes "list_all plain xs" and "list_all plain ys" and "meta_path r xs = meta_path r ys"
  shows "xs = ys"
proof -
  have elems: "path_elems (meta_path r zs) = kepdir_elems r @ zs @ [''kep.yaml'']" if "list_all plain zs" for zs
  proof -
    have "cleaned (base_root r) (kepdir_elems r @ zs @ [''kep.yaml''])"
      using dir_path_cleaned [of "zs @ [''kep.yaml'']" r] that by simp
    then show ?thesis unfolding meta_path_def by (rule path_elems_render)
  qed
  have "kepdir_elems r @ xs @ [''kep.yaml''] = kepdir_elems r @ ys @ [''kep.yaml'']"
    using arg_cong [OF assms(3), of path_elems] unfolding elems [OF assms(1)] elems [OF assms(2)] .
  then show ?thesis by simp
qed

lemma distinct_filtered:
  assumes "distinct fs" and "\<And>f. f \<in> set fs \<Longrightarrow> list_all plain (dir_of f)"
    and "\<And>f g. P f \<Longrightarrow> P g \<Longrightarrow> dir_of f = dir_of g \<Longrightarrow> f = g"
  shows "distinct (map (\<lambda>f. meta_path r (dir_of f)) (filter P fs))"
proof -
  have "f = g" if "f \<in> set fs" "g \<in> set fs" "P f" "P g" "meta_path r (dir_of f) = meta_path r (dir_of g)" for f g
    using meta_path_inj [OF assms(2) assms(2)] assms(3) that by blast
  with assms(1) show ?thesis by (auto simp: distinct_map inj_on_def)
qed

lemma distinct_survey_paths:
  assumes "distinct fs" and "\<And>f. f \<in> set fs \<Longrightarrow> list_all plain (dir_of f)"
  shows "distinct (metas_in r fs)" and "distinct (missing_in r fs)"
  unfolding metas_in_def missing_in_def by (rule distinct_filtered [OF assms]; metis)+

lemma set_metas_in: "set (metas_in r fs) = {meta_path r ds | ds. Metadata ds \<in> set fs}"
  and set_missing_in: "set (missing_in r fs) = {meta_path r ds | ds. NoMetadata ds \<in> set fs}"
  unfolding metas_in_def missing_in_def by (force intro: image_eqI)+

text \<open>The traversal, from the root of the proposals.\<close>

lemma Walk_survey:
  assumes "repo_paths r" and "find_node w (ProposalPath r) = Inr n" and "node_mode n = ModeDir"
    and "plain_names n" and "listable n" and "sorted_names n"
  shows "\<exists>files. Walk w (ProposalPath r) (Validate_fn w (ProposalPath r)) ([], Map.empty) =
      ((files, missing_table (missing_files r n)), WNil) \<and>
    distinct files \<and> set files = metadata_files r n"
proof -
  let ?fs = "survey ''keps'' [] n"
  have root: "find_node w (dir_path r []) = Inr n" using assms(2) dir_path_Nil [OF assms(1)] by simp
  have base: "Base (ProposalPath r) = ''keps''"
    unfolding dir_path_Nil [OF assms(1)] dir_path_def using Base_render [of "''keps''"] by simp
  from walk_survey(1) [OF _ root assms(3-6), of "''keps''" "([], Map.empty)"]
  obtain x where x: "x = WNil \<or> x = WSkipDir" and walk: "walk (Validate_fn w (ProposalPath r)) (ProposalPath r) ''keps'' n ([], Map.empty) =
      (note_findings r ?fs ([], Map.empty), x)"
    unfolding dir_path_Nil [OF assms(1)] by auto
  have dist: "distinct ?fs" by (rule survey_distinct(1) [OF assms(6)])
  have pl: "f \<in> set ?fs \<Longrightarrow> list_all plain (dir_of f)" for f
    using survey_plain(1) [OF assms(4), of "[]"] by simp
  note paths = distinct_survey_paths [OF dist pl]
  have find: "f \<in> set ?fs \<longleftrightarrow> (\<exists>ys pm es. surveyed n ys (DirN pm es) \<and> own_finding ys es f)" for f
    using survey_set [OF assms(6), of "''keps''" f "[]"] by simp
  have metas: "set (metas_in r ?fs) = metadata_files r n"
    unfolding set_metas_in metadata_files_def find own_finding_def by simp
  have missing: "set (missing_in r ?fs) = missing_files r n"
    unfolding set_missing_in missing_files_def find own_finding_def by auto
  have "note_findings r ?fs ([], Map.empty) = (metas_in r ?fs, missing_table (missing_files r n))"
    using note_findings_eq [OF paths(2), where m = Map.empty and xs = "[]"] missing by (simp add: missing_table_def)
  with x walk assms(2) paths(1) metas show ?thesis by (auto simp: Walk_def base)
qed

text \<open>
  C34: validation of a repository whose keps directory can be listed. It visits the metadata files
  of exactly the directories the specification \<open>surveyed\<close> enters, and records every proposal
  beside which the metadata file is missing. Without any metadata file it fails with an error;
  otherwise it always completes: no error of a file, not even one meant to be fatal, such as a
  file that cannot be opened, stops it. The result is then the abstract table: every file with
  its own verdict, every missing file with its error.
\<close>

theorem Repo_Validate_refines:
  assumes "libs_ok L" and "repo_paths r"
    and "find_node w (ProposalPath r) = Inr n" and "node_mode n = ModeDir"
    and "plain_names n" and "listable n" and "sorted_names n"
  defines "K \<equiv> metadata_files r n" and "T \<equiv> missing_table (missing_files r n)"
  shows "if K = {} then Repo_Validate L w r = Ret (r, T, Some (errors_New L ''must find more than zero KEPs''))
    else \<exists>r'. Repo_Validate L w r = Ret (r', verdict_table L w r (PRRApprovalPath r) K T, None) \<and>
      same_handlers r r'"
proof -
  obtain files where walk: "Walk w (ProposalPath r) (Validate_fn w (ProposalPath r)) ([], Map.empty) = ((files, T), WNil)"
    and dist: "distinct files" and files: "set files = K"
    using Walk_survey [OF assms(2-7)] by (auto simp: K_def T_def)
  have "cleaned (base_root r) (kepdir_elems r)" using dir_path_cleaned [of "[]" r] by simp
  then have "ProposalPath r \<noteq> []" unfolding dir_path_Nil [OF assms(2)] dir_path_def by simp
  then have eq: "Repo_Validate L w r =
      (if files = [] then Ret (r, T, Some (errors_New L ''must find more than zero KEPs''))
       else validate_files L w r (PRRApprovalPath r) files T)"
    by (simp add: Repo_Validate_def walk)
  obtain r' m' where runs: "validate_files L w r (PRRApprovalPath r) files T = Ret (r', m', None)"
    using validate_files_runs [OF assms(1)] by blast
  from validate_files_table [OF dist runs] files show ?thesis
    unfolding eq runs by auto
qed


section \<open>A sample validation\<close>

definition sample_keps_dir :: fnode where
  "sample_keps_dir = DirN mode_perm
     [(''NNNN-kep-template'', DirN mode_perm [(''README.md'', Reg mode_perm ''template'')]),
      (''README.md'', Reg mode_perm ''readme''),
      (''prod-readiness'', DirN mode_perm []), (''sig-node'', sample_kep_sig)]"

lemma sample_no_fatal: "no_fatal sample_repo_lib"
  by (auto simp: no_fatal_def sample_repo_lib_def val_lib.defs sample_val_lib_simps sample_Proposal_decoder_def
      sample_PRR_decoder_def sample_proposal_def zero_Proposal_def sample_approval_def zero_PRRApproval_def
      sample_Proposal_validator_def sample_PRR_validator_def sample_ParseTolerant_def
      split: option.splits list.splits if_splits)

lemma sample_keps_found:
  "find_node sample_repo_fs (ProposalPath sample_repo) = Inr sample_keps_dir"
  "node_mode sample_keps_dir = ModeDir" "plain_names sample_keps_dir" "listable sample_keps_dir"
  "sorted_names sample_keps_dir"
  by code_simp+

lemma sample_metadata_file: "metadata_files sample_repo sample_keps_dir \<noteq> {}"
proof -
  have s: "surveyed sample_keps_dir [''sig-node'', ''2-b''] (DirN mode_perm [(''kep.yaml'', Reg mode_perm ''kep'')])"
    by (simp add: sample_keps_dir_def sample_kep_sig_def surveyed_Dir_iff meta_file_def)
  have m: "meta_file [(''kep.yaml'', Reg mode_perm ''kep'')]" by code_simp
  from metadata_filesI [OF s m, of sample_repo] show ?thesis by blast
qed

lemma sample_missing_file: "''/repo/keps/NNNN-kep-template/kep.yaml'' \<in> missing_files sample_repo sample_keps_dir"
proof -
  have s: "surveyed sample_keps_dir [''NNNN-kep-template''] (DirN mode_perm [(''README.md'', Reg mode_perm ''template'')])"
    by (simp add: sample_keps_dir_def surveyed_Dir_iff meta_file_def)
  have m: "readme_file [(''README.md'', Reg mode_perm ''template'')]"
    "\<not> has_meta [(''README.md'', Reg mode_perm ''template'')]" by code_simp+
  have p: "meta_path sample_repo [''NNNN-kep-template''] = ''/repo/keps/NNNN-kep-template/kep.yaml''" by code_simp
  from missing_filesI [OF s m, of sample_repo] show ?thesis unfolding p by simp
qed

theorem Repo_Validate_refines_witness:
  "\<exists>r' m. Repo_Validate sample_repo_lib sample_repo_fs sample_repo = Ret (r', m, None) \<and>
     m ''/repo/keps/NNNN-kep-template/kep.yaml'' \<noteq> None"
proof -
  have "libs_ok sample_repo_lib" using sample_repo_lib_ok sample_no_fatal by (simp add: libs_ok_def)
  note spec = Repo_Validate_refines [OF this sample_repo_paths sample_keps_found]
  have "verdict_table L w r d K (missing_table T) f \<noteq> None" if "f \<in> T" for L :: repo_lib and w r d K T f
    using that by (simp add: verdict_table_def missing_table_def add_valErr_def split: outcome.split option.split)
  note this [OF sample_missing_file]
  with spec sample_metadata_file show ?thesis by metis
qed

end
