(* ===== verification/RepoSession.thy ===== *)
theory RepoSession
  imports RepoSurvey
begin

text \<open>
  A client of the repository in use: the calls a program makes on it, one after the other, as steps
  on the file system and the client's state; what every session leaves unchanged, and what a
  session without pull requests does to the files.
\<close>

section \<open>Sessions\<close>

type_synonym client = "fsys \<times> Repo"

datatype call =
    SetToken string
  | LoadAll string
  | LoadOne string string
  | LoadPRs string
  | RunQuery QueryOpts
  | Write Proposal
  | ValidateAll

text \<open>A step is a call that returns, with or without an error; a panic ends the program.\<close>

inductive client_step ::
  "'a repo_lib_scheme \<Rightarrow> (string list \<Rightarrow> string list) \<Rightarrow> client \<Rightarrow> call \<Rightarrow> client \<Rightarrow> bool"
  for L order where
  set_token: "SetGitHubToken w r f = (r', eo) \<Longrightarrow> client_step L order (w, r) (SetToken f) (w, r')"
| load_all: "LoadLocalKEPs L w r sig = Ret (r', ks, eo) \<Longrightarrow> client_step L order (w, r) (LoadAll sig) (w, r')"
| load_one: "LoadLocalKEP L w r sig name = Ret (r', p, eo) \<Longrightarrow>
    client_step L order (w, r) (LoadOne sig name) (w, r')"
| load_prs: "LoadPullRequestKEPs L order w r sig = Some (Ret (w', r', ks, eo)) \<Longrightarrow>
    client_step L order (w, r) (LoadPRs sig) (w', r')"
| run_query: "Query L order w r opts = Some (Ret (w', r', opts', ks, eo)) \<Longrightarrow>
    client_step L order (w, r) (RunQuery opts) (w', r')"
| write_kep: "WriteKEP L w r p = (w', eo) \<Longrightarrow> client_step L order (w, r) (Write p) (w', r)"
| validate: "Repo_Validate L w r = Ret (r', m, eo) \<Longrightarrow> client_step L order (w, r) ValidateAll (w, r')"

inductive_cases client_stepE: "client_step L order (w, r) c (w', r')"

inductive session ::
  "'a repo_lib_scheme \<Rightarrow> (string list \<Rightarrow> string list) \<Rightarrow> client \<Rightarrow> call list \<Rightarrow> client \<Rightarrow> bool"
  for L order where
  idle: "session L order s [] s"
| call: "client_step L order s c s1 \<Longrightarrow> session L order s1 cs s' \<Longrightarrow> session L order s (c # cs) s'"

inductive_simps session_Nil [simp]: "session L order s [] s'"
inductive_simps session_Cons: "session L order s (c # cs) s'"

lemma session_append:
  "session L order s (cs @ ds) s' \<longleftrightarrow> (\<exists>s1. session L order s cs s1 \<and> session L order s1 ds s')"
  by (induction cs arbitrary: s) (auto simp: session_Cons)


section \<open>What every session preserves\<close>

text \<open>
  The configuration of the client is constant, the errors its handlers collect only grow, and a
  cache or a clone, once there, is never replaced.
\<close>

definition handler_grows :: "Parser \<Rightarrow> Parser \<Rightarrow> bool" where
  "handler_grows k k' \<longleftrightarrow> Groups k' = Groups k \<and> PRRApprovers k' = PRRApprovers k \<and> prefix (Errors k) (Errors k')"

definition preserved :: "Repo \<Rightarrow> Repo \<Rightarrow> bool" where
  "preserved r r' \<longleftrightarrow>
     BasePath r' = BasePath r \<and> ProposalPath r' = ProposalPath r \<and> PRRApprovalPath r' = PRRApprovalPath r \<and>
     ProposalReadme r' = ProposalReadme r \<and> TokenPath r' = TokenPath r \<and>
     ProposalTemplate r' = ProposalTemplate r \<and>
     handler_grows (KEPHandler r) (KEPHandler r') \<and> handler_grows (PRRHandler r) (PRRHandler r') \<and>
     (allPRs r \<noteq> None \<longrightarrow> allPRs r' = allPRs r) \<and> (gitClone r \<noteq> None \<longrightarrow> gitClone r' = gitClone r)"

lemma handler_grows_refl [simp]: "handler_grows k k"
  by (simp add: handler_grows_def)

lemma handler_grows_trans: "handler_grows a b \<Longrightarrow> handler_grows b c \<Longrightarrow> handler_grows a c"
  by (auto simp: handler_grows_def intro: prefix_order.trans)

lemma preserved_refl [simp]: "preserved r r"
  by (simp add: preserved_def)

lemma preserved_trans: "preserved a b \<Longrightarrow> preserved b c \<Longrightarrow> preserved a c"
  unfolding preserved_def by (metis handler_grows_trans)

lemma kept_preserved: "kept r r' \<Longrightarrow> preserved r r'"
  by (simp add: kept_def preserved_def handler_grows_def)

text \<open>The contract of a call, and what follows for any number of them.\<close>

locale client_call =
  fixes does :: "client \<Rightarrow> client \<Rightarrow> bool"
  assumes keeps: "does s s' \<Longrightarrow> preserved (snd s) (snd s')"
begin

lemma keeps_star: "does\<^sup>*\<^sup>* s s' \<Longrightarrow> preserved (snd s) (snd s')"
  by (induction rule: rtranclp_induct) (auto intro: preserved_trans dest: keeps)

lemma cache_stays: "does\<^sup>*\<^sup>* s s' \<Longrightarrow> allPRs (snd s) = Some prs \<Longrightarrow> allPRs (snd s') = Some prs"
  by (drule keeps_star) (simp add: preserved_def)

lemma groups_stay: "does\<^sup>*\<^sup>* s s' \<Longrightarrow> Groups (KEPHandler (snd s')) = Groups (KEPHandler (snd s))"
  by (drule keeps_star) (simp add: preserved_def handler_grows_def)

end

lemma SetGitHubToken_keeps: "SetGitHubToken w r f = (r', eo) \<Longrightarrow> kept r r'"
  by (auto simp: SetGitHubToken_def split: if_splits sum.splits)

lemma LoadLocalKEP_keeps: "LoadLocalKEP L w r sig name = Ret (r', p, eo) \<Longrightarrow> kept r r'"
  by (auto simp: LoadLocalKEP_def Let_def split: sum.splits outcome.splits prod.splits
      dest!: loadKEPFromYaml_keeps)

lemma add_error_grows: "handler_grows k (add_error eo k)"
  by (simp add: handler_grows_def)

lemma KEPHandler_Parse_grows: "KEPHandler_Parse L k r = Ret (k', p, e) \<Longrightarrow> handler_grows k k'"
  by (auto simp: KEPHandler_Parse_def decode_KEP_def Let_def add_error_grows
      split: prod.splits option.splits if_splits)

lemma validateFile_preserves: "validateFile L w r d f = Ret (r', eo) \<Longrightarrow> preserved r r'"
  by (auto simp: validateFile_def preserved_def Let_def split: sum.splits outcome.splits option.splits
      dest!: KEPHandler_Parse_grows ValidatePRR_keeps) (simp_all add: handler_grows_def)

lemma validate_files_preserves: "validate_files L w r d fs m = Ret (r', m', eo) \<Longrightarrow> preserved r r'"
proof (induction fs arbitrary: r m)
  case (Cons f fs)
  then obtain r1 e1 where v: "validateFile L w r d f = Ret (r1, e1)" by (auto split: outcome.splits)
  with Cons validateFile_preserves [OF v] show ?case
    by (cases e1) (auto split: if_splits intro: preserved_trans)
qed simp

lemma Repo_Validate_preserves: "Repo_Validate L w r = Ret (r', m, eo) \<Longrightarrow> preserved r r'"
  by (auto simp: Repo_Validate_def split: if_splits prod.splits wret.splits dest: validate_files_preserves)

lemma client_step_preserves: "client_step L order s c s' \<Longrightarrow> preserved (snd s) (snd s')"
  by (induction rule: client_step.induct)
    (auto intro: kept_preserved dest: SetGitHubToken_keeps LoadLocalKEPs_keeps LoadLocalKEP_keeps
      LoadPullRequestKEPs_keeps Query_kept Repo_Validate_preserves)

interpretation any_call: client_call "\<lambda>s s'. \<exists>c. client_step L order s c s'"
  for L :: "'a repo_lib_scheme" and order
  by unfold_locales (auto dest: client_step_preserves)

lemma session_star: "session L order s cs s' \<Longrightarrow> (\<lambda>s s'. \<exists>c. client_step L order s c s')\<^sup>*\<^sup>* s s'"
  by (induction rule: session.induct) (auto intro: converse_rtranclp_into_rtranclp)

text \<open>
  C35: whatever calls a program makes on a client, with or without errors: its paths and template
  stay, its handlers keep their groups and approvers and lose no recorded error, and the list
  of pull requests it has cached, like its clone, is never replaced. In particular a list that
  an error left incomplete is served for the rest of the session, without an error.
\<close>

theorem session_preserves:
  assumes "session L order (w, r) cs (w', r')"
  shows "preserved r r' \<and>
    (fill_cache L r0 = Some (r, Some e) \<longrightarrow> allPRs r' = allPRs r \<and> fill_cache L r' = Some (r', None))"
proof -
  have p: "preserved r r'" using any_call.keeps_star [OF session_star [OF assms]] by simp
  have "allPRs r' = allPRs r \<and> fill_cache L r' = Some (r', None)" if "fill_cache L r0 = Some (r, Some e)"
  proof -
    from that have "allPRs r \<noteq> None" by (auto simp: fill_cache_def split: option.splits prod.splits)
    with p show ?thesis by (auto simp: preserved_def fill_cache_def)
  qed
  with p show ?thesis by blast
qed


section \<open>Files in a session without pull requests\<close>

text \<open>
  Calls that do not clone the repository and do not write the metadata file of a KEP, though they may
  write those of others.
\<close>

definition leaves_alone :: "Proposal \<Rightarrow> call \<Rightarrow> bool" where
  "leaves_alone p c =
     (case c of
        LoadPRs sig \<Rightarrow> False
      | RunQuery opts \<Rightarrow> \<not> q_IncludePRs opts
      | Write q \<Rightarrow> plain (OwningSIG q) \<and> plain (Name q) \<and> (OwningSIG q \<noteq> OwningSIG p \<or> Name q \<noteq> Name p)
      | _ \<Rightarrow> True)"

lemma kep_file_elems:
  assumes "plain (OwningSIG p)" and "plain (Name p)"
  shows "abs_elems w (kep_file r p) =
    abs_elems w (render (base_root r) (kepdir_elems r)) @ [OwningSIG p, Name p, ''kep.yaml'']"
proof -
  note c = cleaned_base(2) [of _ r]
  have "abs_elems w (kep_file r p) = abs_elems w (render (base_root r) ((kepdir_elems r @ [OwningSIG p, Name p]) @ [''kep.yaml'']))"
    by (simp add: kep_file_def)
  also have "\<dots> = abs_elems w (render (base_root r) ((kepdir_elems r @ [OwningSIG p]) @ [Name p])) @ [''kep.yaml'']"
    using c [of "[''keps'', OwningSIG p, Name p]"] assms by (subst abs_elems_snoc) simp_all
  also have "\<dots> = (abs_elems w (render (base_root r) (kepdir_elems r @ [OwningSIG p])) @ [Name p]) @ [''kep.yaml'']"
    using c [of "[''keps'', OwningSIG p]"] assms by (subst abs_elems_snoc) simp_all
  also have "\<dots> = ((abs_elems w (render (base_root r) (kepdir_elems r)) @ [OwningSIG p]) @ [Name p]) @ [''kep.yaml'']"
    using c [of "[''keps'']"] assms by (subst abs_elems_snoc) simp_all
  finally show ?thesis by simp
qed

lemma load_groups_local:
  "load_groups L order w r False sigs keps = Some (Ret (w', r', ks, eo)) \<Longrightarrow> w' = w"
proof (induction sigs arbitrary: r keps)
  case (Cons sig sigs)
  then obtain r1 lk e1 where l: "LoadLocalKEPs L w r sig = Ret (r1, lk, e1)" by (auto split: outcome.splits)
  with Cons show ?case by (cases e1) (auto simp: Let_def)
qed simp

lemma Query_local:
  assumes "Query L order w r opts = Some (Ret (w', r', opts', ks, eo))" and "\<not> q_IncludePRs opts"
  shows "w' = w"
proof -
  have p: "q_IncludePRs o1 = q_IncludePRs opts" if "PrepareQueryOpts L r opts = (o1, e1)" for o1 e1
    using that by (auto simp: PrepareQueryOpts_def Let_def split: option.splits prod.splits if_splits)
  have c: "w2 = w" if "Query_collect L order w r1 o1 = Some (Ret (w2, r2, o2, k2, e2))" "\<not> q_IncludePRs o1"
    for r1 o1 w2 r2 o2 k2 e2
    using that unfolding Query_collect_def bind_eq_Some_conv
    by (elim exE conjE) (auto split: outcome.split_asm option.split_asm sum.split_asm dest!: load_groups_local)
  show ?thesis
    using assms by (auto simp: Query_def split: prod.splits option.splits if_splits dest: p dest!: c)
qed

text \<open>A call that keeps one file: the contract of a client's call and a law on that file.\<close>

locale sparing_call = client_call does for does +
  fixes file_of :: "Repo \<Rightarrow> string" and good :: "Repo \<Rightarrow> bool"
  assumes file_same: "preserved r r' \<Longrightarrow> file_of r' = file_of r" and good_same: "preserved r r' \<Longrightarrow> good r \<Longrightarrow> good r'"
    and spares: "does (w, r) (w', r') \<Longrightarrow> good r \<Longrightarrow>
      find_node w' (file_of r) = Inr (Reg pm b) \<longleftrightarrow> find_node w (file_of r) = Inr (Reg pm b)"
begin

lemma spares_star:
  "does\<^sup>*\<^sup>* s s' \<Longrightarrow> good (snd s) \<Longrightarrow>
   find_node (fst s') (file_of (snd s)) = Inr (Reg pm b) \<longleftrightarrow> find_node (fst s) (file_of (snd s)) = Inr (Reg pm b)"
proof (induction rule: rtranclp_induct)
  case (step s1 s2)
  have p: "preserved (snd s) (snd s1)" by (rule keeps_star [OF step(1)])
  have "does (fst s1, snd s1) (fst s2, snd s2)" using step(2) by simp
  from spares [OF this good_same [OF p step(4)]] step show ?case unfolding file_same [OF p] by simp
qed simp

end

lemma kep_file_same: "preserved r r' \<Longrightarrow> kep_file r' p = kep_file r p"
  by (simp add: preserved_def kep_file_def)

lemma repo_paths_same: "preserved r r' \<Longrightarrow> repo_paths r \<Longrightarrow> repo_paths r'"
  by (simp add: preserved_def repo_paths_def)

lemma leaves_alone_step:
  assumes "client_step L order (w, r) c (w', r')" and "leaves_alone p c" and "repo_paths r"
    and "plain (OwningSIG p)" and "plain (Name p)"
  shows "find_node w' (kep_file r p) = Inr (Reg pm b) \<longleftrightarrow> find_node w (kep_file r p) = Inr (Reg pm b)"
proof (cases c)
  case (LoadPRs sig)
  with assms(2) show ?thesis by (simp add: leaves_alone_def)
next
  case (RunQuery opts)
  with assms(1) obtain opts' ks eo where q: "Query L order w r opts = Some (Ret (w', r', opts', ks, eo))"
    by (auto elim: client_stepE)
  have "w' = w" by (rule Query_local [OF q]) (use assms(2) RunQuery in \<open>simp add: leaves_alone_def\<close>)
  then show ?thesis by simp
next
  case (Write q)
  with assms(1) obtain eo where wr: "WriteKEP L w r q = (w', eo)" by (auto elim: client_stepE)
  from Write assms(2) have q: "plain (OwningSIG q)" "plain (Name q)" "OwningSIG q \<noteq> OwningSIG p \<or> Name q \<noteq> Name p"
    by (simp_all add: leaves_alone_def)
  then have ne: "abs_elems w (kep_file r p) \<noteq> abs_elems w (kep_file r q)"
    unfolding kep_file_elems [OF assms(4,5)] kep_file_elems [OF q(1,2)] by auto
  note others = WriteKEP_others [OF assms(3) q(1,2) wr ne]
  then have "abs_elems w' (kep_file r p) = abs_elems w (kep_file r p)" by (simp add: abs_elems_def)
  with others kep_file_neq_Nil [OF assms(4,5), of r] show ?thesis by (simp add: find_node_def)
qed (use assms(1) in \<open>auto elim: client_stepE\<close>)

interpretation sparing: sparing_call "\<lambda>s s'. \<exists>c. leaves_alone p c \<and> client_step L order s c s'"
    "\<lambda>r. kep_file r p" "\<lambda>r. repo_paths r \<and> plain (OwningSIG p) \<and> plain (Name p)"
  for L :: "'a repo_lib_scheme" and order p
proof unfold_locales
  show "kep_file r' p = kep_file r p" if "preserved r r'" for r r' by (rule kep_file_same [OF that])
next
  fix w :: fsys and r w' r' pm b
  assume "\<exists>c. leaves_alone p c \<and> client_step L order (w, r) c (w', r')"
    and "repo_paths r \<and> plain (OwningSIG p) \<and> plain (Name p)"
  then show "find_node w' (kep_file r p) = Inr (Reg pm b) \<longleftrightarrow> find_node w (kep_file r p) = Inr (Reg pm b)"
    using leaves_alone_step by blast
qed (auto dest: client_step_preserves repo_paths_same)

lemma session_sparing:
  "session L order s cs s' \<Longrightarrow> list_all (leaves_alone p) cs \<Longrightarrow>
   (\<lambda>s s'. \<exists>c. leaves_alone p c \<and> client_step L order s c s')\<^sup>*\<^sup>* s s'"
  by (induction rule: session.induct) (auto intro: converse_rtranclp_into_rtranclp)

text \<open>
  C26: a KEP that was written can be loaded for the rest of the session: after it was written, a
  program may make any calls that do not fetch pull requests or write the same KEP again, such as
  loading, querying, validating and writing other KEPs, and whether they succeed or fail;
  loading the metadata file of its SIG and name then still gives the proposal, as YAML restores
  it, with its name and its path.
\<close>

theorem written_KEP_stays:
  assumes "repo_paths r" and "plain (OwningSIG p)" and "plain (Name p)"
    and "validator_PRR_ok L" and "errors_lib_ok L" and "yaml_restores L p"
    and "\<forall>pm b. find_node w (kep_file r p) = Inr (Reg pm b) \<longrightarrow> rd pm"
    and "WriteKEP L w r p = (w1, None)"
    and "session L order (w1, r) cs (w', r')" and "list_all (leaves_alone p) cs"
  shows "\<exists>r2. loadKEPFromYaml L w' r' (BasePath r') (slashed [''keps'', OwningSIG p, Name p, ''kep.yaml'']) =
    Ret (r2, Inr ((yaml_view p)\<lparr>Path := OwningSIG p @ ''/'' @ Name p\<rparr>))"
proof -
  from WriteKEP_node [OF assms(1-3,8,7)] obtain b pm where b: "yaml_Proposal_text L p = Inr b"
    "find_node w1 (kep_file r p) = Inr (Reg pm b)" "rd pm" by blast
  note star = session_sparing [OF assms(9,10)]
  have same: "preserved r r'" using sparing.keeps_star [OF star] by simp
  have "find_node w' (kep_file r p) = Inr (Reg pm b)"
    using sparing.spares_star [OF star] assms(1-3) b(2) by simp
  then have "ReadFile w' (kep_file r' p) = Inr b"
    unfolding kep_file_same [OF same] using b(3) by (rule ReadFile_Reg)
  then show ?thesis
    using loadKEP_written [OF repo_paths_same [OF same assms(1)] assms(2-6) b(1)] by blast
qed


section \<open>Sample sessions\<close>

definition sample_other :: Proposal where
  "sample_other = sample_written\<lparr>Name := ''4-d''\<rparr>"

definition sample_other_after :: fsys where
  "sample_other_after = fst (WriteKEP sample_repo_lib sample_after sample_repo sample_other)"

lemma sample_session:
  "session sample_repo_lib rev (sample_after, sample_repo) [SetToken [], Write sample_other]
     (sample_other_after, sample_repo)"
proof -
  have "WriteKEP sample_repo_lib sample_after sample_repo sample_other =
      (sample_other_after, snd (WriteKEP sample_repo_lib sample_after sample_repo sample_other))"
    by (simp add: sample_other_after_def)
  from client_step.write_kep [OF this]
  have w: "client_step sample_repo_lib rev (sample_after, sample_repo) (Write sample_other) (sample_other_after, sample_repo)" .
  have "client_step sample_repo_lib rev (sample_after, sample_repo) (SetToken []) (sample_after, sample_repo)"
    by (rule client_step.set_token [where eo = None]) (simp add: SetGitHubToken_def)
  with w show ?thesis by (blast intro: session.intros)
qed

theorem written_KEP_stays_witness:
  "\<exists>r2. loadKEPFromYaml sample_repo_lib sample_other_after sample_repo (BasePath sample_repo)
     (slashed [''keps'', OwningSIG sample_written, Name sample_written, ''kep.yaml'']) =
   Ret (r2, Inr ((yaml_view sample_written)\<lparr>Path := OwningSIG sample_written @ ''/'' @ Name sample_written\<rparr>))"
proof -
  have "plain ''4-d''" "Name sample_written = ''3-c''" by (simp_all add: plain_def sample_written_def)
  then have "list_all (leaves_alone sample_written) [SetToken [], Write sample_other]"
    using sample_written_plain by (simp add: leaves_alone_def sample_other_def)
  from written_KEP_stays [OF sample_repo_paths sample_written_plain sample_repo_lib_ok(1,2) sample_restores
      _ sample_write sample_session this] sample_fresh(1)
  show ?thesis by simp
qed

theorem session_preserves_witness:
  "fill_cache sample_failing_lib (sample_repo\<lparr>allPRs := Some []\<rparr>) = Some (sample_repo\<lparr>allPRs := Some []\<rparr>, None)"
proof -
  let ?r = "sample_repo\<lparr>allPRs := Some []\<rparr>"
  have "client_step sample_failing_lib rev (sample_repo_fs, ?r) (SetToken []) (sample_repo_fs, ?r)"
    by (rule client_step.set_token [where eo = None]) (simp add: SetGitHubToken_def)
  then have "session sample_failing_lib rev (sample_repo_fs, ?r) [SetToken []] (sample_repo_fs, ?r)"
    by (blast intro: session.intros)
  from session_preserves [OF this] sample_failed_listing show ?thesis by blast
qed

end
