(* ===== verification/ApiFakes.thy ===== *)
theory ApiFakes
  imports Document
begin

text \<open>
  The test doubles of the interfaces File and Document (api/apifakes): recorders that answer a
  call by a stub, by what was set for the call's number, or by a default, and keep the arguments
  of all calls. Every method holds the mutex of its fake while it reads or writes it, and a call
  releases it only before it runs the stub, so the methods are atomic steps. A stub is a function
  of its argument. The answer of Parse has the type of documents as a parameter.
\<close>

section \<open>The log of invocations\<close>

type_synonym 'x invocations = "(string \<Rightarrow> 'x list slice option) option"

definition find_invocations :: "'x invocations \<Rightarrow> string \<Rightarrow> 'x list slice" where
  "find_invocations m key = (case m of None \<Rightarrow> None | Some f \<Rightarrow> (case f key of None \<Rightarrow> None | Some v \<Rightarrow> v))"

definition log_invocation :: "string \<Rightarrow> 'x list \<Rightarrow> 'x invocations \<Rightarrow> 'x invocations" where
  "log_invocation key args m =
     (let f = (case m of None \<Rightarrow> Map.empty | Some f \<Rightarrow> f);
          f = (if find_invocations (Some f) key = None then f(key \<mapsto> Some []) else f)
      in Some (f(key \<mapsto> go_append (find_invocations (Some f) key) [args])))"

definition copy_invocations :: "'x invocations \<Rightarrow> string \<Rightarrow> 'x list slice option" where
  "copy_invocations m = (case m of None \<Rightarrow> Map.empty | Some f \<Rightarrow> f)"

lemma log_invocation_elems [simp]:
  "elems (find_invocations (log_invocation key args m) key') =
     (if key' = key then elems (find_invocations m key) @ [args] else elems (find_invocations m key'))"
  by (auto simp: log_invocation_def find_invocations_def Let_def elems_def go_append_def split: option.splits)


section \<open>Answers by call number\<close>

definition find_on_call :: "(int \<Rightarrow> 'r option) option \<Rightarrow> int \<Rightarrow> 'r option" where
  "find_on_call m i = (case m of None \<Rightarrow> None | Some f \<Rightarrow> f i)"

definition set_on_call :: "(int \<Rightarrow> 'r option) option \<Rightarrow> int \<Rightarrow> 'r \<Rightarrow> (int \<Rightarrow> 'r option) option" where
  "set_on_call m i r = Some ((case m of None \<Rightarrow> Map.empty | Some f \<Rightarrow> f)(i \<mapsto> r))"

lemma find_set_on_call [simp]: "find_on_call (set_on_call m i r) j = (if j = i then Some r else find_on_call m j)"
  by (simp add: find_on_call_def set_on_call_def split: option.split)

definition nth_arg :: "'x list \<Rightarrow> int \<Rightarrow> 'x outcome" where
  "nth_arg xs i = (if 0 \<le> i \<and> i < int (length xs) then Ret (xs ! nat i) else Panic)"


section \<open>FakeFile\<close>

record 'a FakeFile =
  ParseStub :: "(reader \<Rightarrow> ('a option \<times> goerr option) outcome) option"
  parseArgsForCall :: "reader list"
  parseReturns :: "'a option \<times> goerr option"
  parseReturnsOnCall :: "(int \<Rightarrow> ('a option \<times> goerr option) option) option"
  f_invocations :: "reader invocations"

definition File_recordInvocation :: "string \<Rightarrow> reader list \<Rightarrow> 'a FakeFile \<Rightarrow> 'a FakeFile" where
  "File_recordInvocation key args fake = fake\<lparr>f_invocations := log_invocation key args (f_invocations fake)\<rparr>"

definition Parse :: "'a FakeFile \<Rightarrow> reader \<Rightarrow> 'a FakeFile \<times> ('a option \<times> goerr option) outcome" where
  "Parse fake arg1 =
     (let ret = find_on_call (parseReturnsOnCall fake) (int (length (parseArgsForCall fake)));
          fake = fake\<lparr>parseArgsForCall := parseArgsForCall fake @ [arg1]\<rparr>;
          stub = ParseStub fake;
          fakeReturns = parseReturns fake;
          fake = File_recordInvocation ''Parse'' [arg1] fake
      in (fake,
          case stub of
            Some f \<Rightarrow> f arg1
          | None \<Rightarrow> (case ret of Some r \<Rightarrow> Ret r | None \<Rightarrow> Ret fakeReturns)))"

definition ParseCallCount :: "'a FakeFile \<Rightarrow> nat" where
  "ParseCallCount fake = length (parseArgsForCall fake)"

definition ParseCalls ::
  "(reader \<Rightarrow> ('a option \<times> goerr option) outcome) option \<Rightarrow> 'a FakeFile \<Rightarrow> 'a FakeFile" where
  "ParseCalls stub fake = fake\<lparr>ParseStub := stub\<rparr>"

definition ParseArgsForCall :: "'a FakeFile \<Rightarrow> int \<Rightarrow> reader outcome" where
  "ParseArgsForCall fake i = nth_arg (parseArgsForCall fake) i"

definition ParseReturns :: "'a option \<times> goerr option \<Rightarrow> 'a FakeFile \<Rightarrow> 'a FakeFile" where
  "ParseReturns r fake = fake\<lparr>ParseStub := None, parseReturns := r\<rparr>"

definition ParseReturnsOnCall :: "int \<Rightarrow> 'a option \<times> goerr option \<Rightarrow> 'a FakeFile \<Rightarrow> 'a FakeFile" where
  "ParseReturnsOnCall i r fake =
     fake\<lparr>ParseStub := None, parseReturnsOnCall := set_on_call (parseReturnsOnCall fake) i r\<rparr>"

definition File_Invocations :: "'a FakeFile \<Rightarrow> string \<Rightarrow> reader list slice option" where
  "File_Invocations fake = copy_invocations (f_invocations fake)"


section \<open>FakeDocument\<close>

record FakeDocument =
  ValidateStub :: "(unit \<Rightarrow> goerr option outcome) option"
  validateArgsForCall :: "unit list"
  validateReturns :: "goerr option"
  validateReturnsOnCall :: "(int \<Rightarrow> goerr option option) option"
  d_invocations :: "unit invocations"

definition Document_recordInvocation :: "string \<Rightarrow> unit list \<Rightarrow> FakeDocument \<Rightarrow> FakeDocument" where
  "Document_recordInvocation key args fake = fake\<lparr>d_invocations := log_invocation key args (d_invocations fake)\<rparr>"

definition Fake_Validate :: "FakeDocument \<Rightarrow> unit \<Rightarrow> FakeDocument \<times> goerr option outcome" where
  "Fake_Validate fake u =
     (let ret = find_on_call (validateReturnsOnCall fake) (int (length (validateArgsForCall fake)));
          fake = fake\<lparr>validateArgsForCall := validateArgsForCall fake @ [()]\<rparr>;
          stub = ValidateStub fake;
          fakeReturns = validateReturns fake;
          fake = Document_recordInvocation ''Validate'' [] fake
      in (fake,
          case stub of
            Some f \<Rightarrow> f ()
          | None \<Rightarrow> (case ret of Some r \<Rightarrow> Ret r | None \<Rightarrow> Ret fakeReturns)))"

definition ValidateCallCount :: "FakeDocument \<Rightarrow> nat" where
  "ValidateCallCount fake = length (validateArgsForCall fake)"

definition ValidateCalls :: "(unit \<Rightarrow> goerr option outcome) option \<Rightarrow> FakeDocument \<Rightarrow> FakeDocument" where
  "ValidateCalls stub fake = fake\<lparr>ValidateStub := stub\<rparr>"

definition ValidateReturns :: "goerr option \<Rightarrow> FakeDocument \<Rightarrow> FakeDocument" where
  "ValidateReturns r fake = fake\<lparr>ValidateStub := None, validateReturns := r\<rparr>"

definition ValidateReturnsOnCall :: "int \<Rightarrow> goerr option \<Rightarrow> FakeDocument \<Rightarrow> FakeDocument" where
  "ValidateReturnsOnCall i r fake =
     fake\<lparr>ValidateStub := None, validateReturnsOnCall := set_on_call (validateReturnsOnCall fake) i r\<rparr>"

definition Document_Invocations :: "FakeDocument \<Rightarrow> string \<Rightarrow> unit list slice option" where
  "Document_Invocations fake = copy_invocations (d_invocations fake)"


section \<open>The contract of a fake\<close>

text \<open>
  Both fakes implement one abstract machine: the plan of answers and the arguments of the calls
  so far. A call answers by the plan and appends its argument; the log agrees with the arguments.
\<close>

record ('x, 'r) plan =
  p_stub :: "('x \<Rightarrow> 'r outcome) option"
  p_default :: 'r
  p_on_call :: "int \<Rightarrow> 'r option"
  p_args :: "'x list"

definition answer :: "('x, 'r) plan \<Rightarrow> nat \<Rightarrow> 'x \<Rightarrow> 'r outcome" where
  "answer p n x =
     (case p_stub p of
        Some f \<Rightarrow> f x
      | None \<Rightarrow> Ret (case p_on_call p (int n) of Some r \<Rightarrow> r | None \<Rightarrow> p_default p))"

fun run_calls :: "('s \<Rightarrow> 'x \<Rightarrow> 's \<times> 'o) \<Rightarrow> 's \<Rightarrow> 'x list \<Rightarrow> 's \<times> 'o list" where
  "run_calls call s [] = (s, [])"
| "run_calls call s (x # xs) = (case call s x of (s, y) \<Rightarrow> map_prod id ((#) y) (run_calls call s xs))"

locale test_double =
  fixes plan_of :: "'s \<Rightarrow> ('x, 'r) plan"
    and log_of :: "'s \<Rightarrow> 'x list list" and entry :: "'x \<Rightarrow> 'x list"
    and call :: "'s \<Rightarrow> 'x \<Rightarrow> 's \<times> 'r outcome"
    and stubbed :: "('x \<Rightarrow> 'r outcome) option \<Rightarrow> 's \<Rightarrow> 's"
    and returns_default :: "'r \<Rightarrow> 's \<Rightarrow> 's"
    and returns_on :: "int \<Rightarrow> 'r \<Rightarrow> 's \<Rightarrow> 's"
  assumes call_answer: "snd (call s x) = answer (plan_of s) (length (p_args (plan_of s))) x"
    and call_plan: "plan_of (fst (call s x)) = plan_of s\<lparr>p_args := p_args (plan_of s) @ [x]\<rparr>"
    and call_log: "log_of (fst (call s x)) = log_of s @ [entry x]"
    and stubbed_plan: "plan_of (stubbed f s) = plan_of s\<lparr>p_stub := f\<rparr>"
    and default_plan: "plan_of (returns_default r s) = plan_of s\<lparr>p_stub := None, p_default := r\<rparr>"
    and on_plan: "plan_of (returns_on i r s) = plan_of s\<lparr>p_stub := None, p_on_call := (p_on_call (plan_of s))(i \<mapsto> r)\<rparr>"
    and log_kept: "log_of (stubbed f s) = log_of s" "log_of (returns_default r s) = log_of s"
      "log_of (returns_on i r s) = log_of s"
begin

definition logged :: "'s \<Rightarrow> bool" where
  "logged s \<longleftrightarrow> log_of s = map entry (p_args (plan_of s))"

lemma logged_kept:
  assumes "logged s"
  shows "logged (fst (call s x))" "logged (stubbed f s)" "logged (returns_default r s)" "logged (returns_on i r s)"
  using assms by (simp_all add: logged_def call_plan call_log stubbed_plan default_plan on_plan log_kept)

text \<open>The answers of a series of calls, and what it leaves.\<close>

lemma run_calls_plan:
  "plan_of (fst (run_calls call s xs)) = plan_of s\<lparr>p_args := p_args (plan_of s) @ xs\<rparr>"
  "log_of (fst (run_calls call s xs)) = log_of s @ map entry xs"
  by (induction xs arbitrary: s) (auto simp: call_plan call_log case_prod_beta)

lemma run_calls_answers:
  "snd (run_calls call s xs) =
     map (\<lambda>(n, x). answer (plan_of s) n x) (zip [length (p_args (plan_of s))..<length (p_args (plan_of s)) + length xs] xs)"
proof (induction xs arbitrary: s)
  case (Cons x xs)
  have "answer (plan_of (fst (call s x))) = answer (plan_of s)" by (simp add: fun_eq_iff answer_def call_plan split: option.split)
  with Cons [of "fst (call s x)"] show ?case
    by (simp add: case_prod_beta call_answer call_plan upt_rec [of "length (p_args (plan_of s))"] Suc_le_eq)
qed simp

text \<open>An answer set for a call number is given by that call, any other call answers as before.\<close>

lemma returns_on_answers:
  assumes "k < length xs"
  shows "snd (run_calls call (returns_on i r s) xs) ! k =
    (if int (length (p_args (plan_of s)) + k) = i then Ret r
     else answer (plan_of s\<lparr>p_stub := None\<rparr>) (length (p_args (plan_of s)) + k) (xs ! k))"
  using assms by (simp add: run_calls_answers on_plan answer_def split: option.split)

end

definition File_plan :: "'a FakeFile \<Rightarrow> (reader, 'a option \<times> goerr option) plan" where
  "File_plan fake = \<lparr>p_stub = ParseStub fake, p_default = parseReturns fake,
     p_on_call = find_on_call (parseReturnsOnCall fake), p_args = parseArgsForCall fake\<rparr>"

definition Document_plan :: "FakeDocument \<Rightarrow> (unit, goerr option) plan" where
  "Document_plan fake = \<lparr>p_stub = ValidateStub fake, p_default = validateReturns fake,
     p_on_call = find_on_call (validateReturnsOnCall fake), p_args = validateArgsForCall fake\<rparr>"

interpretation fake_file: test_double File_plan "\<lambda>f. elems (find_invocations (f_invocations f) ''Parse'')" "\<lambda>x. [x]"
  Parse ParseCalls ParseReturns ParseReturnsOnCall
  by unfold_locales
    (simp_all add: File_plan_def Parse_def Let_def answer_def File_recordInvocation_def ParseCalls_def
      ParseReturns_def ParseReturnsOnCall_def fun_eq_iff split: option.split)

interpretation fake_document: test_double Document_plan "\<lambda>f. elems (find_invocations (d_invocations f) ''Validate'')" "\<lambda>_. []"
  Fake_Validate ValidateCalls ValidateReturns ValidateReturnsOnCall
  by unfold_locales
    (simp_all add: Document_plan_def Fake_Validate_def Let_def answer_def Document_recordInvocation_def ValidateCalls_def
      ValidateReturns_def ValidateReturnsOnCall_def fun_eq_iff split: option.split)

text \<open>
  A fake file programmed with an answer for one call gives it at that call, in any series of calls,
  and afterwards the arguments of these calls are found by their number and number the calls.
\<close>

theorem FakeFile_programmed:
  assumes "k < length rs"
  shows "snd (run_calls Parse (ParseReturnsOnCall (int (ParseCallCount fake + k)) r fake) rs) ! k = Ret r \<and>
    (\<forall>f. ParseArgsForCall (fst (run_calls Parse (ParseCalls f fake) rs)) (int (ParseCallCount fake + k)) = Ret (rs ! k)) \<and>
    (\<forall>f. ParseCallCount (fst (run_calls Parse (ParseCalls f fake) rs)) = ParseCallCount fake + length rs)"
proof -
  have args: "parseArgsForCall (fst (run_calls Parse (ParseCalls f fake) rs)) = parseArgsForCall fake @ rs" for f
    using arg_cong [OF fake_file.run_calls_plan(1) [of "ParseCalls f fake" rs], of p_args]
    by (simp add: File_plan_def ParseCalls_def)
  have "snd (run_calls Parse (ParseReturnsOnCall (int (ParseCallCount fake + k)) r fake) rs) ! k = Ret r"
    using fake_file.returns_on_answers [OF assms, of "int (ParseCallCount fake + k)" r fake]
    by (simp add: File_plan_def ParseCallCount_def)
  with assms show ?thesis
    by (simp add: args ParseArgsForCall_def ParseCallCount_def nth_arg_def nth_append nat_add_distrib)
qed

end
