(* ===== verification/Spec2Isabelle.thy ===== *)
theory Spec2Isabelle
  imports NodeApproversProps KepctlQuery KepifyProps RepoSession ApiFakes
begin

text \<open>
  A verification of the Go programs of the repository kubernetes/enhancements: the library that
  parses, validates, queries and writes KEPs, the tools kepctl and kepify built on it, and the
  checks of the approvers of SIG Node's KEPs.

  \<^bold>\<open>The program.\<close> A KEP is a directory \<open>keps/<sig>/<name>\<close> with metadata in kep.yaml
  and a README. Package api parses and validates KEPs and production readiness (PRR)
  approvals and fetches the known groups and approvers; pkg/kepval checks a KEP against its
  PRR approval; pkg/repo is a client of a checkout: it opens it, searches and loads KEPs,
  also those of open pull requests, answers queries, validates everything and writes KEPs;
  pkg/proposal creates and promotes KEPs through it; pkg/output prints them; kepctl is the
  command line over all of these, and kepify turns all markdown files into one JSON document.
  pkg/nodeapprovers is separate: it compares the reviewers and approvers in the KEPs of SIG
  Node with the OWNERS files beside them and with the tech leads.

  \<^bold>\<open>Correspondence.\<close> One theory per component, one definition per function, named as in the
  source; a suffix or prefix is added where Go's methods or packages share a name
  (\<open>KEPHandler_Parse\<close> is the method Parse of KEPHandler).

  \<^item> \<open>Prelude\<close>: nil and empty slices, \<open>outcome\<close> (a call that returns or panics), list lemmas,
    the interface \<open>string_search\<close> of membership tests.
  \<^item> \<open>GoErrors\<close>, \<open>GoStrings\<close>, \<open>GoPath\<close>, \<open>GoFS\<close>, \<open>GoWalk\<close>, \<open>GoIO\<close>, \<open>GoRegexp\<close>,
    \<open>GoRegexpLang\<close>, \<open>GoMD5\<close>, \<open>GoUTF8\<close>, \<open>GoJSON\<close>: what the source uses of the standard library.
    Files are a tree with permissions, links and a working directory; paths are resolved lexically
    as filepath.Clean does it, and creating or writing through a link is refused. JSON documents
    are written to and read from bytes, invalid UTF-8, escapes and the nesting limit included.
  \<^item> \<open>NodeApprovers\<close>, \<open>NodeApproversProps\<close>: pkg/nodeapprovers/verify.go.
  \<^item> \<open>Document\<close>: api/document.go, api/error.go, pkg/yaml/yaml.go; \<open>Proposal\<close>, \<open>ProposalProps\<close>:
    api/proposal.go; \<open>Approval\<close>: api/approval.go; \<open>GroupFetchers\<close>: api/groups.go; \<open>KepVal\<close>:
    pkg/kepval/approval.go; \<open>PRRProps\<close> has the properties of the last three.
  \<^item> \<open>Output\<close>, \<open>OutputProps\<close>: pkg/output/output.go, with the CSV and JSON encoders.
  \<^item> \<open>Repo\<close>, \<open>RepoPRs\<close>: pkg/repo/repo.go and write.go; \<open>RepoQuery\<close>: query.go; \<open>RepoValidate\<close>:
    validate.go; properties in \<open>RepoProps\<close>, \<open>RepoQueryProps\<close>, \<open>RepoValidateProps\<close>;
    \<open>RepoSurvey\<close> is the specification of the traversal of validate.go and of its result;
    \<open>RepoLocal\<close> is the specification of queries over the files of a checkout;
    \<open>RepoSession\<close> has the step relation of a client in use, its calls in any order.
  \<^item> \<open>ProposalCmds\<close>, \<open>ProposalCmdsProps\<close>: pkg/proposal; \<open>Kepctl\<close>, \<open>KepctlProps\<close>,
    \<open>KepctlQuery\<close>: pkg/kepctl and cmd/kepctl; \<open>Kepify\<close>, \<open>KepifyProps\<close>: cmd/kepify/main.go.
  \<^item> \<open>ApiFakes\<close>: the recorders of api/apifakes that stand for files and documents in tests.

  State is passed explicitly: the client is the record \<open>Repo\<close>, the file system the record
  \<open>fsys\<close>, the two output streams the record \<open>streams\<close>. Errors are values of \<open>goerr\<close>, with
  the chain that errors.As follows.

  \<^bold>\<open>Parameters.\<close> Code outside the repository is a field of a library record the definitions
  take as an argument (\<open>errors_lib\<close> up to \<open>repo_lib\<close>, \<open>out_lib\<close>): github.com/pkg/errors, the
  YAML decoders and encoders, the struct validator, semver, HTTP, the GitHub and git clients,
  the compilation of regular expressions given by the user, the table renderer, and the
  Unicode tables for strings that are not ASCII. What a theorem needs of one is a named
  hypothesis that states its documentation (\<open>errors_lib_ok\<close>, \<open>validator_Proposal_ok\<close>,
  \<open>validator_PRR_ok\<close>, \<open>semver_ok\<close>, \<open>yaml_restores\<close>, \<open>no_fatal\<close>, \<open>pages_ascend\<close>), and sample
  libraries show that the hypotheses can hold. The order in which Go ranges over a map is an
  argument too. What cobra finds on the command line is the record \<open>invocation\<close>.

  \<^bold>\<open>What is shown.\<close>

  \<^item> SIG Node: exactly which OWNERS files and which metadata are accepted, that the traversal
    checks every KEP once and nothing else, that no alpha KEP escapes the tech leads, how the
    upcoming release follows from the tags, for every map order.
  \<^item> Parsing and validation: which lines of a file are decoded, exactly when a KEP, its groups,
    status and stage are accepted, what is recorded on failure, and that parsing never panics.
  \<^item> PRR: exactly when a review is required and when it is satisfied; the fetched lists.
  \<^item> Output: the formats accepted are those printed, CSV and JSON read back, and JSON is one line.
  \<^item> Client: when opening succeeds, which KEPs are found, that a KEP written loads back and no
    other file changes, that listing pull requests ends and is complete, that a query is a
    function of the files below the selected groups, and that validation refines the table of
    verdicts, each file with its own; over whole sessions of calls, that settings stay, errors
    only grow, caches are not replaced and a KEP written stays loadable.
  \<^item> Tools: created and promoted KEPs load back; every run of kepctl ends; kepctl query prints
    exactly the KEPs asked for, its JSON decodes to exactly what the files stand for, and its exit
    code tells whether they could be read; kepify writes exactly the KEPs of the files it does
    not ignore, in the order of the tree.
  \<^item> Defects are stated as theorems of the code as it is: a nil client without an error, a failed
    listing kept as a cache, fatal errors that do not stop, a PRR criterion that excludes every
    KEP, a name pattern that rejects the documented name, a promote command that ignores its
    argument, and a panic of kepify on a file that is not a KEP.

  \<^bold>\<open>Termination.\<close> Every loop but one is structural recursion or has a measure. The listing of
  pages is a \<open>partial_function\<close>, as it ends only if the service's pages do: \<open>None\<close> is a listing
  that does not end, and that it ends is proved for ascending page numbers. There is no fuel;
  the one bound is the nesting of JSON values, 10000 as in the decoder.

  \<^bold>\<open>Interfaces.\<close> The locales \<open>string_search\<close>, \<open>string_enum\<close> and \<open>printer\<close> hold the contracts of
  membership tests, enumerations of strings and outputs, \<open>client_call\<close> and its extension
  \<open>sparing_call\<close> those of calls on a client, of which they prove what follows for any number of
  calls, and \<open>test_double\<close> that of the fakes; each is interpreted on the functions of the program that provide it.

  \<^bold>\<open>Not modelled.\<close> Log output and terminal messages of kepify; closing of files; concurrent changes
  of the file system; the mutexes of the fakes beyond making their methods atomic;
  internal/tools.go, which only pins build tools; the text of usage messages.
\<close>

end
